(* ===== verification/Hostdrv_Prelude.thy ===== *)
theory Hostdrv_Prelude
  imports Main "HOL-Library.Word" "HOL-Library.Monad_Syntax"
begin

text \<open>
  Shared base of the acq200 host driver development: the names of the machine types, the errno
  values the driver returns, the kernel list primitives it uses, and the generic lemmas on lists,
  options and words that the component theories rely on.

  Conventions.  A C \<open>int\<close> or \<open>long\<close> whose overflow plays no part is an \<^typ>\<open>int\<close>; an index
  that an invariant keeps in range is a \<^typ>\<open>nat\<close>; a register, mailbox or bit mask is a word of
  its width.  An operation that can run into a kernel oops (a null dereference, a \<open>list_del\<close> of
  an entry that is not linked, a failed \<open>assert\<close>) returns an option and the oops is \<open>None\<close>; an
  error the driver reports is a negative errno, as in the source.
\<close>

unbundle bit_operations_syntax

type_synonym u8 = "8 word"
type_synonym u16 = "16 word"
type_synonym u32 = "32 word"
type_synonym ulong = "64 word"

named_theorems errno_defs \<open>values of the errno constants\<close>
named_theorems hostdrv_inv \<open>preservation of component invariants\<close>

subsection \<open>errno values returned by the driver\<close>

definition EINTR :: int where [errno_defs]: "EINTR = 4"
definition EAGAIN :: int where [errno_defs]: "EAGAIN = 11"
definition ENOMEM :: int where [errno_defs]: "ENOMEM = 12"
definition EFAULT :: int where [errno_defs]: "EFAULT = 14"
definition ENODEV :: int where [errno_defs]: "ENODEV = 19"
definition EINVAL :: int where [errno_defs]: "EINVAL = 22"
definition ENOTTY :: int where [errno_defs]: "ENOTTY = 25"
definition ETIMEDOUT :: int where [errno_defs]: "ETIMEDOUT = 110"
definition ERESTARTSYS :: int where [errno_defs]: "ERESTARTSYS = 512"

subsection \<open>Doubly linked kernel lists\<close>

text \<open>
  \<open>list_add_tail\<close> links an entry at the end.  \<open>list_del\<close> follows the entry's own links and then
  poisons them, so deleting an entry that is not linked is an oops.
\<close>

definition list_add_tail :: "'a \<Rightarrow> 'a list \<Rightarrow> 'a list" where
  "list_add_tail x xs = xs @ [x]"

definition list_del :: "'a \<Rightarrow> 'a list \<Rightarrow> 'a list option" where
  "list_del x xs = (if x \<in> set xs then Some (remove1 x xs) else None)"

lemma list_del_Some_iff:
  "list_del x xs = Some ys \<longleftrightarrow> x \<in> set xs \<and> ys = remove1 x xs"
  by (auto simp: list_del_def)

lemma list_del_None_iff: "list_del x xs = None \<longleftrightarrow> x \<notin> set xs"
  by (auto simp: list_del_def)

lemma list_del_add_tail:
  "x \<notin> set xs \<Longrightarrow> list_del x (list_add_tail x xs) = Some xs"
  by (simp add: list_del_def list_add_tail_def remove1_append)

lemma distinct_list_del: "list_del x xs = Some ys \<Longrightarrow> distinct xs \<Longrightarrow> distinct ys"
  by (auto simp: list_del_Some_iff)

lemma set_list_del: "list_del x xs = Some ys \<Longrightarrow> distinct xs \<Longrightarrow> set ys = set xs - {x}"
  by (auto simp: list_del_Some_iff)

subsection \<open>Powers of two, masks\<close>

lemma nat_and_mask: "(x::nat) AND (2 ^ k - 1) = x mod 2 ^ k"
proof -
  have "(2::nat) ^ k - 1 = mask k"
    by (simp add: mask_eq_exp_minus_1)
  then show ?thesis
    by (metis take_bit_eq_mask take_bit_eq_mod)
qed

lemma mod_add_neq:
  fixes a d n :: nat
  assumes "a < n" "0 < d" "d < n"
  shows "(a + d) mod n \<noteq> a"
proof (cases "a + d < n")
  case False
  with assms have "(a + d) mod n = a + d - n"
    by (simp add: le_mod_geq)
  with assms False show ?thesis by linarith
qed (use assms in simp)

lemma list_update_nth_swap:
  "i \<noteq> j \<Longrightarrow> xs[i := v] ! j = xs ! j"
  by simp

lemma distinct_set_single: "distinct xs \<Longrightarrow> set xs = {x} \<Longrightarrow> xs = [x]"
proof (cases xs)
  case (Cons y ys)
  assume "distinct xs" "set xs = {x}"
  with Cons show ?thesis by (cases ys) auto
qed simp

lemma unat_ucast_32_64: "unat (ucast (w :: u32) :: ulong) = unat w"
proof -
  have "unat w < 2 ^ 32" using unsigned_less [of w, where ?'a = nat] by simp
  then have "take_bit 64 (unat w) = unat w" by (intro take_bit_nat_eq_self) (erule less_trans, simp)
  then show ?thesis by (simp add: unsigned_ucast_eq)
qed

end
