(* ===== verification/Bus_Protocol.thy ===== *)
theory Bus_Protocol
  imports Hostdrv_Prelude
begin

text \<open>
  The command protocol of the card (\<^verbatim>\<open>src/acq32busprot.h\<close>): the mailbox command and status words
  and their fields, the function codes, the message header and the host request data record, the
  message types and the message ids.  The lemmas show that the field macros read back what they wrote
  and do not disturb each other, and that message ids stay positive and repeat only every 128 messages.
\<close>

section \<open>Mailboxes and command word\<close>

definition BP_MB_COMMAND :: nat where "BP_MB_COMMAND = 0"
definition BP_MB_A3 :: nat where "BP_MB_A3 = 1"
definition BP_MB_A4 :: nat where "BP_MB_A4 = 2"
definition BP_MB_STATUS :: nat where "BP_MB_STATUS = 3"

definition MASK :: "nat \<Rightarrow> u32" where "MASK b = push_bit b 1"

definition BP_CI_ACK :: u32 where "BP_CI_ACK = MASK 31"
definition BP_CI_DONE :: u32 where "BP_CI_DONE = MASK 30"
definition BP_CI_COMMAND :: u32 where "BP_CI_COMMAND = MASK 29"
definition BP_CI_QUERY :: u32 where "BP_CI_QUERY = MASK 28"
definition BP_CI_A3 :: u32 where "BP_CI_A3 = MASK 27"
definition BP_CI_A4 :: u32 where "BP_CI_A4 = MASK 26"

lemmas bp_ci_defs = BP_CI_ACK_def BP_CI_DONE_def BP_CI_COMMAND_def BP_CI_QUERY_def BP_CI_A3_def
  BP_CI_A4_def MASK_def

definition BP_GET_FUNCODE :: "u32 \<Rightarrow> u32" where
  "BP_GET_FUNCODE command = drop_bit 16 command AND 0xff"
definition BP_SET_FUNCODE :: "u32 \<Rightarrow> u32" where "BP_SET_FUNCODE funcode = push_bit 16 funcode"
definition BP_GET_A1 :: "u32 \<Rightarrow> u32" where "BP_GET_A1 command = drop_bit 8 command AND 0xff"
definition BP_SET_A1 :: "u32 \<Rightarrow> u32" where "BP_SET_A1 a1 = push_bit 8 a1"
definition BP_GET_A2 :: "u32 \<Rightarrow> u32" where "BP_GET_A2 command = command AND 0xff"
definition BP_SET_A2 :: "u32 \<Rightarrow> u32" where "BP_SET_A2 a2 = a2"
definition BP_GET_MODE :: "u32 \<Rightarrow> u32" where "BP_GET_MODE status = drop_bit 24 status AND 0x7f"
definition BP_SET_MODE :: "u32 \<Rightarrow> u32" where "BP_SET_MODE mode = push_bit 24 mode"
definition BP_GET_ERROR :: "u32 \<Rightarrow> bool" where "BP_GET_ERROR status \<longleftrightarrow> status AND 0x80000000 \<noteq> 0"
definition BP_SET_ERROR :: "u32 \<Rightarrow> u32" where "BP_SET_ERROR status = push_bit 31 status"
definition BP_GET_STATE :: "u32 \<Rightarrow> u32" where "BP_GET_STATE status = drop_bit 16 status AND 0xff"
definition BP_SET_STATE :: "u32 \<Rightarrow> u32" where "BP_SET_STATE state = push_bit 16 state"
definition BP_GET_CYCLE :: "u32 \<Rightarrow> u32" where "BP_GET_CYCLE status = drop_bit 12 status AND 0xf"
definition BP_SET_CYCLE :: "u32 \<Rightarrow> u32" where "BP_SET_CYCLE status = push_bit 12 status"
definition BP_GET_HEARTBEAT :: "u32 \<Rightarrow> u32" where "BP_GET_HEARTBEAT status = status AND 0xfff"
definition BP_SET_HEARTBEAT :: "u32 \<Rightarrow> u32" where "BP_SET_HEARTBEAT status = status AND 0xfff"

lemmas bp_field_defs = BP_GET_FUNCODE_def BP_SET_FUNCODE_def BP_GET_A1_def BP_SET_A1_def
  BP_GET_A2_def BP_SET_A2_def BP_GET_MODE_def BP_SET_MODE_def BP_GET_ERROR_def BP_SET_ERROR_def
  BP_GET_STATE_def BP_SET_STATE_def BP_GET_CYCLE_def BP_SET_CYCLE_def BP_GET_HEARTBEAT_def
  BP_SET_HEARTBEAT_def

section \<open>Function codes\<close>

text \<open>
  The codes are character constants of type \<open>int\<close>.  On the hosts the driver is built for, plain
  \<open>char\<close> is signed, so \<open>'\x80'\<close> is -128.
\<close>

datatype (plugins only: code size) FUNCODES =
    FCA | FCB | FCC | FCD | FCE | FCF | FCG | FCH | FCI | FCK | FCL | FCM | FCN | FCP | FCQ | FCR
  | FCS | FCT | FCU | FCV | FCW | FCX | FCY | FCZ
  | fca | fcb | fcc | fcd | fce | fcf | fch | fci | fck | fcl | fcm | fcn | fcp | fcr | fcs | fct
  | fcu | fcw | fcy | fcz | fc1 | fc2 | fc3 | fc4 | fc5 | fc6 | fc80 | keep_arm_sdt_happy

primrec funcode_val :: "FUNCODES \<Rightarrow> int" where
  "funcode_val FCA = 65" | "funcode_val FCB = 66" | "funcode_val FCC = 67"
| "funcode_val FCD = 68" | "funcode_val FCE = 69" | "funcode_val FCF = 70"
| "funcode_val FCG = 71" | "funcode_val FCH = 72" | "funcode_val FCI = 73"
| "funcode_val FCK = 75" | "funcode_val FCL = 76" | "funcode_val FCM = 77"
| "funcode_val FCN = 78" | "funcode_val FCP = 80" | "funcode_val FCQ = 81"
| "funcode_val FCR = 82" | "funcode_val FCS = 83" | "funcode_val FCT = 84"
| "funcode_val FCU = 85" | "funcode_val FCV = 86" | "funcode_val FCW = 87"
| "funcode_val FCX = 88" | "funcode_val FCY = 89" | "funcode_val FCZ = 90"
| "funcode_val fca = 97" | "funcode_val fcb = 98" | "funcode_val fcc = 99"
| "funcode_val fcd = 100" | "funcode_val fce = 101" | "funcode_val fcf = 102"
| "funcode_val fch = 104" | "funcode_val fci = 105" | "funcode_val fck = 107"
| "funcode_val fcl = 108" | "funcode_val fcm = 109" | "funcode_val fcn = 110"
| "funcode_val fcp = 112" | "funcode_val fcr = 114" | "funcode_val fcs = 115"
| "funcode_val fct = 116" | "funcode_val fcu = 117" | "funcode_val fcw = 119"
| "funcode_val fcy = 121" | "funcode_val fcz = 122" | "funcode_val fc1 = 49"
| "funcode_val fc2 = 50" | "funcode_val fc3 = 51" | "funcode_val fc4 = 52"
| "funcode_val fc5 = 53" | "funcode_val fc6 = 54" | "funcode_val fc80 = -128"
| "funcode_val keep_arm_sdt_happy = 57005"

definition funcode_word :: "FUNCODES \<Rightarrow> u32" where "funcode_word f = word_of_int (funcode_val f)"

definition BP_FC_SET_INTERRUPTS :: u32 where "BP_FC_SET_INTERRUPTS = funcode_word FCI"
definition BP_FC_SET_HOST_DMABUF :: u32 where "BP_FC_SET_HOST_DMABUF = funcode_word FCB"
definition BPFC_GET_NCHANNELS :: u32 where "BPFC_GET_NCHANNELS = funcode_word fcn"
definition BP_FC_STREAM :: u32 where "BP_FC_STREAM = funcode_word FCS"

lemmas bp_fc_defs = BP_FC_SET_INTERRUPTS_def BP_FC_SET_HOST_DMABUF_def BPFC_GET_NCHANNELS_def
  BP_FC_STREAM_def funcode_word_def

definition BYTE_ENCODE_BIT :: "nat \<Rightarrow> u32 \<Rightarrow> u32" where "BYTE_ENCODE_BIT lsb val = push_bit lsb val"
definition BYTE_DECODE_BIT :: "nat \<Rightarrow> u32 \<Rightarrow> u32" where
  "BYTE_DECODE_BIT lsb val = drop_bit lsb val AND 0xff"

definition BP_FC_GET_NPAIRS :: "u32 \<Rightarrow> u32" where "BP_FC_GET_NPAIRS f = drop_bit 4 (f AND 0xf0)"
definition BP_FC_SET_NPAIRS :: "u32 \<Rightarrow> u32" where "BP_FC_SET_NPAIRS p = push_bit 4 p AND 0xf0"

section \<open>Message types\<close>

definition MT_TYPE_SHIFT :: nat where "MT_TYPE_SHIFT = 24"
definition MT_TYPE_MASK :: u32 where "MT_TYPE_MASK = push_bit MT_TYPE_SHIFT 0xff"
definition MT_PRAM_MASK :: u32 where "MT_PRAM_MASK = NOT MT_TYPE_MASK"
definition MT_ID :: "u32 \<Rightarrow> u32" where "MT_ID type = type AND MT_TYPE_MASK"
definition MT_PRAM :: "u32 \<Rightarrow> u32" where "MT_PRAM type = type AND MT_PRAM_MASK"
definition MT_STREAM :: u32 where "MT_STREAM = push_bit MT_TYPE_SHIFT BP_FC_STREAM"
definition MT_COMMAND_PACKET :: u32 where
  "MT_COMMAND_PACKET = push_bit MT_TYPE_SHIFT (funcode_word fcz)"
definition MAKE_MT_COMMAND :: "u32 \<Rightarrow> u32" where "MAKE_MT_COMMAND subtype = MT_COMMAND_PACKET OR subtype"

lemmas mt_defs = MT_TYPE_SHIFT_def MT_TYPE_MASK_def MT_PRAM_MASK_def MT_ID_def MT_PRAM_def
  MT_STREAM_def MT_COMMAND_PACKET_def MAKE_MT_COMMAND_def

definition MTP_STREAM_NCHAN :: "u32 \<Rightarrow> u32" where "MTP_STREAM_NCHAN type = type AND 0x0000ff"
definition MTP_STREAM_NSAM :: "u32 \<Rightarrow> u32" where
  "MTP_STREAM_NSAM type = drop_bit 8 (type AND 0x00ff00)"
definition MTP_STREAM_SLEN :: "u32 \<Rightarrow> u32" where
  "MTP_STREAM_SLEN type =
     (MTP_STREAM_NCHAN type + (if type AND 0x800000 \<noteq> 0 then 2 else 0)) * 2"

datatype MTC_SUBTYPES =
    MTC_TEST | MTC_HOST_REQUEST_DATA | MTC_LOAD_AO | MTC_LOAD_DO | MTC_DEBUG_TEXT
  | MTC_HOST_REQUEST_X_DATA | MTC_REQUEST_STATUS_CHANGE_NOTIFICATION
  | MTC_HOST_REQUEST_DATA_HOSTBOUND | MTC_HOST_REQUEST_DATA_ACQBOUND | MTC_LAST

primrec mtc_val :: "MTC_SUBTYPES \<Rightarrow> u32" where
  "mtc_val MTC_TEST = 0"
| "mtc_val MTC_HOST_REQUEST_DATA = 1"
| "mtc_val MTC_LOAD_AO = 2"
| "mtc_val MTC_LOAD_DO = 3"
| "mtc_val MTC_DEBUG_TEXT = 4"
| "mtc_val MTC_HOST_REQUEST_X_DATA = 5"
| "mtc_val MTC_REQUEST_STATUS_CHANGE_NOTIFICATION = 6"
| "mtc_val MTC_HOST_REQUEST_DATA_HOSTBOUND = 7"
| "mtc_val MTC_HOST_REQUEST_DATA_ACQBOUND = 8"
| "mtc_val MTC_LAST = 9"

section \<open>Low latency and high throughput control words\<close>

definition LLC_MAKE_TCYCLE :: "u32 \<Rightarrow> u32" where "LLC_MAKE_TCYCLE tc = push_bit 16 tc"
definition LLC_GET_TCYCLE :: "u32 \<Rightarrow> u32" where "LLC_GET_TCYCLE csr = drop_bit 16 (csr AND 0x00ff0000)"
definition LLC_MAKE_DECIM :: "u32 \<Rightarrow> u32" where "LLC_MAKE_DECIM decim = push_bit 8 decim"
definition LLC_GET_DECIM :: "u32 \<Rightarrow> u32" where "LLC_GET_DECIM csr = drop_bit 8 (csr AND 0x00000f00)"
definition HTM_GET_BUFFLEN_BYTES :: "u32 \<Rightarrow> u32" where
  "HTM_GET_BUFFLEN_BYTES csr = push_bit (20 - 12) (csr AND 0x00fff000)"
definition HTM_SET_BUFFLEN_BYTES :: "u32 \<Rightarrow> u32" where
  "HTM_SET_BUFFLEN_BYTES len = push_bit 12 (drop_bit 20 len)"

section \<open>Messages\<close>

record HOST_REQUEST_DATA_RECORD =
  hrd_pci :: u32
  hrd_start :: u32
  hrd_nsamples :: u32
  hrd_chan :: u16
  hrd_stride :: u16

record MESSAGE_HEADER =
  mh_id :: u16
  mh_length :: u16
  mh_type :: u32

text \<open>The payload union is used as records: its two first \<open>hrdr\<close> entries.\<close>

record MESSAGE =
  m_header :: MESSAGE_HEADER
  m_hrdr0 :: HOST_REQUEST_DATA_RECORD
  m_hrdr1 :: HOST_REQUEST_DATA_RECORD

definition MESSAGE_HEADER_SIZE :: nat where "MESSAGE_HEADER_SIZE = 8"
definition MESSAGE_LEN :: nat where "MESSAGE_LEN = 0x400"
definition MESSAGE_DATA_LEN :: nat where "MESSAGE_DATA_LEN = MESSAGE_LEN - MESSAGE_HEADER_SIZE"
definition HRDR_SZ :: nat where "HRDR_SZ = 16"
definition MESSAGE_HRDR_LEN :: nat where "MESSAGE_HRDR_LEN = MESSAGE_DATA_LEN div HRDR_SZ"
definition MESSAGE_ACTUAL_LEN :: "MESSAGE \<Rightarrow> nat" where
  "MESSAGE_ACTUAL_LEN m = MESSAGE_HEADER_SIZE + unat (mh_length (m_header m))"

definition MAKE_ID_DTACQ :: "int \<Rightarrow> int" where "MAKE_ID_DTACQ n = push_bit 8 (n AND 0x7f) OR 0xDC"
definition IS_ID_DTACQ :: "int \<Rightarrow> bool" where "IS_ID_DTACQ i \<longleftrightarrow> i AND 0xff = 0xDC"
definition GET_IDN :: "int \<Rightarrow> int" where "GET_IDN i = drop_bit 8 i"

definition HRD_CHAN_IS_FILE :: u16 where "HRD_CHAN_IS_FILE = 0x8000"
definition HRD_CHAN_EOF :: u16 where "HRD_CHAN_EOF = 0x0400"
definition HRD_ABS_PCI :: u16 where "HRD_ABS_PCI = 0x2000"
definition HRD_READ_NEXT :: u16 where "HRD_READ_NEXT = 0x1000"
definition HRD_CHANNEL :: "HOST_REQUEST_DATA_RECORD \<Rightarrow> u16" where "HRD_CHANNEL h = hrd_chan h AND 0x0ff"
definition HRD_SPCLID :: "HOST_REQUEST_DATA_RECORD \<Rightarrow> u16" where "HRD_SPCLID h = hrd_chan h AND 0x07f"
definition HRD_TRACK :: "u32 \<Rightarrow> u32" where "HRD_TRACK chan = drop_bit 5 chan AND 0x7"
definition HRD_CHAN :: "u32 \<Rightarrow> u32" where "HRD_CHAN chan = (chan AND 0x1f) + 1"

lemmas hrd_defs = HRD_CHAN_IS_FILE_def HRD_CHAN_EOF_def HRD_ABS_PCI_def HRD_READ_NEXT_def

section \<open>Lemmas\<close>

lemma small_word_bits:
  fixes x :: "'a::len word"
  assumes "x < 2 ^ k" "k < LENGTH('a)"
  shows "bit x n \<longleftrightarrow> n < k \<and> bit x n"
proof -
  have "take_bit k x = x"
    using assms by (simp add: take_bit_eq_mod word_mod_less_divisor mod_word_less)
  then have "bit x n \<longleftrightarrow> bit (take_bit k x) n" by simp
  then show ?thesis by (simp add: bit_take_bit_iff)
qed

definition all_funcodes :: "FUNCODES list" where
  "all_funcodes = [FCA, FCB, FCC, FCD, FCE, FCF, FCG, FCH, FCI, FCK, FCL, FCM, FCN, FCP, FCQ, FCR,
     FCS, FCT, FCU, FCV, FCW, FCX, FCY, FCZ, fca, fcb, fcc, fcd, fce, fcf, fch, fci, fck, fcl, fcm,
     fcn, fcp, fcr, fcs, fct, fcu, fcw, fcy, fcz, fc1, fc2, fc3, fc4, fc5, fc6, fc80,
     keep_arm_sdt_happy]"

lemma all_funcodes_UNIV: "set all_funcodes = UNIV"
proof -
  have "f \<in> set all_funcodes" for f
    by (cases f) (simp_all add: all_funcodes_def)
  then show ?thesis by blast
qed

lemma funcode_val_inj: "inj funcode_val"
proof -
  have "distinct (map funcode_val all_funcodes)"
    by (simp add: all_funcodes_def)
  then show ?thesis
    by (simp add: distinct_map all_funcodes_UNIV)
qed

text \<open>A command word is assembled from flags above bit 24 and three 8-bit fields.\<close>

definition command_word :: "u32 \<Rightarrow> u32 \<Rightarrow> u32 \<Rightarrow> u32 \<Rightarrow> u32" where
  "command_word flags f a1 a2 = flags OR BP_SET_FUNCODE f OR BP_SET_A1 a1 OR BP_SET_A2 a2"

text \<open>The low masks of the header as truncations.\<close>

lemma low_mask_and [simp]:
  "(x::u32) AND 0xff = take_bit 8 x" "(x::u32) AND 0x7f = take_bit 7 x"
  "(x::u32) AND 0xfff = take_bit 12 x" "(x::u32) AND 0xf = take_bit 4 x"
  "(x::u32) AND 0x00ffffff = take_bit 24 x" "(y::int) AND 0x7f = take_bit 7 y"
  "(y::int) AND 0xff = take_bit 8 y"
  by (simp_all add: take_bit_eq_mask mask_eq_exp_minus_1)

lemma small_bit: "x < (256 :: u32) \<Longrightarrow> bit x n \<Longrightarrow> n < 8"
  using small_word_bits [of x 8 n] by simp

lemma flag_bit: "take_bit 24 flags = (0 :: u32) \<Longrightarrow> bit flags n \<Longrightarrow> 24 \<le> n"
  by (metis bit_take_bit_iff bit_0_eq bot_apply bot_bool_def linorder_not_le)

lemma command_word_fields:
  assumes "f < 256" "a1 < 256" "a2 < 256" "flags AND 0x00ffffff = 0"
  shows "BP_GET_FUNCODE (command_word flags f a1 a2) = f"
    and "BP_GET_A1 (command_word flags f a1 a2) = a1"
    and "BP_GET_A2 (command_word flags f a1 a2) = a2"
    and "drop_bit 24 (command_word flags f a1 a2) = drop_bit 24 flags"
proof -
  from assms(4) have fl: "bit flags n \<Longrightarrow> 24 \<le> n" for n
    by (simp add: flag_bit)
  note d = small_bit [OF assms(1)] small_bit [OF assms(2)] small_bit [OF assms(3)] fl
  show "BP_GET_FUNCODE (command_word flags f a1 a2) = f"
    by (intro bit_word_eqI) (auto simp: command_word_def bp_field_defs bit_simps dest: d)
  show "BP_GET_A1 (command_word flags f a1 a2) = a1"
    by (intro bit_word_eqI) (auto simp: command_word_def bp_field_defs bit_simps dest: d)
  show "BP_GET_A2 (command_word flags f a1 a2) = a2"
    by (intro bit_word_eqI) (auto simp: command_word_def bp_field_defs bit_simps dest: d)
  show "drop_bit 24 (command_word flags f a1 a2) = drop_bit 24 flags"
    by (intro bit_word_eqI) (auto simp: command_word_def bp_field_defs bit_simps dest: d)
qed

lemma make_id_value: "MAKE_ID_DTACQ n = (n mod 128) * 256 + 0xDC"
proof -
  have low: "bit (0xDC::int) k \<Longrightarrow> k < 8" for k
    using bit_take_bit_iff [of 8 "0xDC::int" k] by simp
  have "push_bit 8 (take_bit 7 n) OR 0xDC = push_bit 8 (take_bit 7 n) + (0xDC::int)"
    by (rule disjunctive_add [symmetric]) (auto simp: bit_simps dest: low)
  then show ?thesis
    by (simp add: MAKE_ID_DTACQ_def push_bit_eq_mult take_bit_eq_mod)
qed

lemma make_id_bounds: "0xDC \<le> MAKE_ID_DTACQ n \<and> MAKE_ID_DTACQ n \<le> 0x7FDC"
  using pos_mod_bound [of 128 n] pos_mod_sign [of 128 n] by (simp add: make_id_value)

lemma make_id_eq_iff: "MAKE_ID_DTACQ m = MAKE_ID_DTACQ n \<longleftrightarrow> m mod 128 = n mod 128"
  by (simp add: make_id_value)

lemma make_id_is_dtacq: "IS_ID_DTACQ (MAKE_ID_DTACQ n)"
  by (simp add: IS_ID_DTACQ_def make_id_value take_bit_eq_mod)

lemma make_id_idn: "GET_IDN (MAKE_ID_DTACQ n) = n mod 128"
  by (simp add: GET_IDN_def make_id_value drop_bit_eq_div)

text \<open>An id stored in a \<open>short\<close> and one stored in an \<open>unsigned short\<close> compare equal as C \<open>int\<close>s.\<close>

lemma make_id_signed_unsigned:
  "sint (word_of_int (MAKE_ID_DTACQ n) :: u16) = uint (word_of_int (MAKE_ID_DTACQ n) :: u16)"
  "uint (word_of_int (MAKE_ID_DTACQ n) :: u16) = MAKE_ID_DTACQ n"
proof -
  have b: "0 \<le> MAKE_ID_DTACQ n" "MAKE_ID_DTACQ n < 2 ^ 15"
    using make_id_bounds [of n] by auto
  then show u: "uint (word_of_int (MAKE_ID_DTACQ n) :: u16) = MAKE_ID_DTACQ n"
    by (simp add: uint_word_of_int)
  have "signed_take_bit 15 (MAKE_ID_DTACQ n) = MAKE_ID_DTACQ n"
    using b by (intro signed_take_bit_int_eq_self) auto
  with u show "sint (word_of_int (MAKE_ID_DTACQ n) :: u16) = uint (word_of_int (MAKE_ID_DTACQ n) :: u16)"
    by (simp add: sint_sbintrunc')
qed

lemma mt_id_command:
  "sub < 0x01000000 \<Longrightarrow> MT_ID (MAKE_MT_COMMAND sub) = MT_COMMAND_PACKET \<and> MT_PRAM (MAKE_MT_COMMAND sub) = sub"
proof -
  assume a: "sub < 0x01000000"
  have m: "MT_TYPE_MASK = NOT (mask 24)" "MT_PRAM_MASK = mask 24"
    by (simp_all add: mt_defs mask_eq_exp_minus_1)
  have s: "bit sub n \<Longrightarrow> n < 24" for n
    using a small_word_bits [of sub 24 n] by simp
  have c: "bit MT_COMMAND_PACKET n \<Longrightarrow> 24 \<le> n" for n
    by (simp add: mt_defs bit_simps)
  show ?thesis
    unfolding MT_ID_def MT_PRAM_def MAKE_MT_COMMAND_def m
    by (intro conjI bit_word_eqI)
      (auto simp: bit_simps simp del: mask_numeral dest: s c)
qed

section \<open>Properties\<close>

text \<open>
  Fields of a command word.  With an 8-bit function code, 8-bit arguments and flags that lie above
  bit 23, each field is read back as it was written and the flags are not disturbed.
\<close>

theorem command_fields_roundtrip:
  assumes "f < 256" "a1 < 256" "a2 < 256" "flags AND 0x00ffffff = 0"
  shows "let c = flags OR BP_SET_FUNCODE f OR BP_SET_A1 a1 OR BP_SET_A2 a2 in
    BP_GET_FUNCODE c = f \<and> BP_GET_A1 c = a1 \<and> BP_GET_A2 c = a2 \<and> drop_bit 24 c = drop_bit 24 flags"
  using command_word_fields [OF assms] by (simp add: command_word_def Let_def)

theorem command_fields_roundtrip_witness:
  "let c = BP_CI_QUERY OR BP_SET_FUNCODE (funcode_word fcn) OR BP_SET_A1 3 OR BP_SET_A2 7 in
    BP_GET_FUNCODE c = funcode_word fcn \<and> BP_GET_A1 c = 3 \<and> BP_GET_A2 c = 7 \<and>
    drop_bit 24 c = drop_bit 24 BP_CI_QUERY"
  by (rule command_fields_roundtrip) (simp_all add: funcode_word_def bp_ci_defs)

text \<open>
  C34. Message ids.  Two messages whose sequence numbers differ by less than 128 have different ids; every
  id is recognised as one of the driver's, gives its sequence number modulo 128 back, and has the same
  value in the signed field of a channel request and in the unsigned field of a message header.
\<close>

theorem message_ids_unique_in_window:
  assumes "m \<noteq> n" "\<bar>m - n\<bar> < 128"
  shows "MAKE_ID_DTACQ m \<noteq> MAKE_ID_DTACQ n \<and> IS_ID_DTACQ (MAKE_ID_DTACQ m) \<and>
    GET_IDN (MAKE_ID_DTACQ m) = m mod 128 \<and>
    sint (word_of_int (MAKE_ID_DTACQ m) :: u16) = uint (word_of_int (MAKE_ID_DTACQ m) :: u16) \<and>
    uint (word_of_int (MAKE_ID_DTACQ m) :: u16) = MAKE_ID_DTACQ m"
proof -
  have "m mod 128 \<noteq> n mod 128"
  proof
    assume "m mod 128 = n mod 128"
    then have "128 dvd m - n" by (simp add: mod_eq_dvd_iff)
    with assms show False using zdvd_imp_le [of 128 "\<bar>m - n\<bar>"] by simp
  qed
  then show ?thesis
    by (simp add: make_id_eq_iff make_id_is_dtacq make_id_idn make_id_signed_unsigned)
qed

theorem message_ids_unique_in_window_witness:
  "MAKE_ID_DTACQ 127 \<noteq> MAKE_ID_DTACQ 128 \<and> IS_ID_DTACQ (MAKE_ID_DTACQ 127) \<and>
    GET_IDN (MAKE_ID_DTACQ 127) = 127 mod 128 \<and>
    sint (word_of_int (MAKE_ID_DTACQ 127) :: u16) = uint (word_of_int (MAKE_ID_DTACQ 127) :: u16) \<and>
    uint (word_of_int (MAKE_ID_DTACQ 127) :: u16) = MAKE_ID_DTACQ 127"
  by (rule message_ids_unique_in_window) simp_all

end
