(* ===== verification/Stream_Buffer.thy ===== *)
theory Stream_Buffer
  imports Hostdrv_Prelude
begin

text \<open>
  The ring of message frame addresses between the interrupt handler and the tasklet
  (\<^verbatim>\<open>src/streambuf.h\<close>).  The ring is a power-of-two array with three cursors: \<open>iput\<close>, \<open>iget\<close>
  and \<open>iputback\<close>, the slot of the last entry taken.  The theory gives the operations of the header,
  the interface \<open>putback_fifo\<close> (a bounded queue that remembers the last entry taken), the proof that
  the ring implements it for the two sizes the driver uses, and the client lemmas of the interface.
\<close>

section \<open>The ring of \<^verbatim>\<open>struct GenericIntBuf\<close>\<close>

record GenericIntBuf =
  buffer_mask :: nat
  iput :: nat
  iget :: nat
  iputback :: nat
  iswrapped :: nat
  nwrapped :: nat
  hitide :: nat
  qpresent :: nat
  buffers :: "u32 list"

definition NSTREAMBUF :: nat where "NSTREAMBUF = 2 ^ 7"
definition NSTATBUF :: nat where "NSTATBUF = 2 ^ 4"
definition STREAM_MFA_INVALID :: u32 where "STREAM_MFA_INVALID = 0xFFFFFFFF"

definition genericIntBufInit :: "GenericIntBuf \<Rightarrow> nat \<Rightarrow> GenericIntBuf" where
  "genericIntBufInit buf nbuf =
     buf\<lparr>iput := 0, iget := 0, iputback := 0, buffer_mask := nbuf - 1\<rparr>"

definition genericIntBufInc :: "GenericIntBuf \<Rightarrow> nat \<Rightarrow> nat" where
  "genericIntBufInc buf ii = (ii + 1) AND buffer_mask buf"

definition genericIntBufIsFull :: "GenericIntBuf \<Rightarrow> bool" where
  "genericIntBufIsFull buf \<longleftrightarrow> genericIntBufInc buf (iput buf) = iputback buf"

definition genericIntBufIsEmpty :: "GenericIntBuf \<Rightarrow> bool" where
  "genericIntBufIsEmpty buf \<longleftrightarrow> iget buf = iput buf"

definition genericIntBufPut :: "GenericIntBuf \<Rightarrow> u32 \<Rightarrow> int \<times> GenericIntBuf" where
  "genericIntBufPut buf data =
     (if \<not> genericIntBufIsFull buf then
        let buf1 = buf\<lparr>buffers := (buffers buf)[iput buf := data]\<rparr>;
            ip = genericIntBufInc buf1 (iput buf1);
            buf2 = (if ip < iput buf1
                    then buf1\<lparr>iswrapped := 1, nwrapped := nwrapped buf1 + 1\<rparr> else buf1)
        in (0, buf2\<lparr>iput := ip\<rparr>)
      else (-1, buf))"

definition genericIntBufGet :: "GenericIntBuf \<Rightarrow> u32 \<times> GenericIntBuf" where
  "genericIntBufGet buf =
     (if \<not> genericIntBufIsEmpty buf then
        let data = buffers buf ! iget buf
        in (data, buf\<lparr>iputback := iget buf, iget := genericIntBufInc buf (iget buf)\<rparr>)
      else (STREAM_MFA_INVALID, buf))"

definition genericIntBufPutBack :: "GenericIntBuf \<Rightarrow> GenericIntBuf" where
  "genericIntBufPutBack buf = buf\<lparr>iget := iputback buf\<rparr>"

text \<open>The counting loop of \<open>genericIntBufNumEntries\<close>; \<open>None\<close> would be a loop that never meets \<open>iput\<close>.\<close>

partial_function (option) num_entries_loop :: "GenericIntBuf \<Rightarrow> nat \<Rightarrow> nat \<Rightarrow> nat option" where
  "num_entries_loop buf ig entries =
     (if ig \<noteq> iput buf
      then num_entries_loop buf (genericIntBufInc buf ig) (entries + 1)
      else Some entries)"

definition genericIntBufNumEntries :: "GenericIntBuf \<Rightarrow> nat option" where
  "genericIntBufNumEntries buf = num_entries_loop buf (iget buf) 0"

section \<open>The two rings of the driver\<close>

definition streamBufInit :: "GenericIntBuf \<Rightarrow> GenericIntBuf" where
  "streamBufInit stream_buf = genericIntBufInit stream_buf NSTREAMBUF"
definition streamPut :: "GenericIntBuf \<Rightarrow> u32 \<Rightarrow> int \<times> GenericIntBuf" where
  "streamPut stream_buf data = genericIntBufPut stream_buf data"
definition streamGet :: "GenericIntBuf \<Rightarrow> u32 \<times> GenericIntBuf" where
  "streamGet stream_buf = genericIntBufGet stream_buf"
definition streamPutBack :: "GenericIntBuf \<Rightarrow> GenericIntBuf" where
  "streamPutBack stream_buf = genericIntBufPutBack stream_buf"
definition streamNumEntries :: "GenericIntBuf \<Rightarrow> nat option" where
  "streamNumEntries stream_buf = genericIntBufNumEntries stream_buf"

definition statBufInit :: "GenericIntBuf \<Rightarrow> GenericIntBuf" where
  "statBufInit buf = genericIntBufInit buf NSTATBUF"
definition statbufPut :: "GenericIntBuf \<Rightarrow> u32 \<Rightarrow> int \<times> GenericIntBuf" where
  "statbufPut stat_buf data = genericIntBufPut stat_buf data"
definition statbufGet :: "GenericIntBuf \<Rightarrow> u32 \<times> GenericIntBuf" where
  "statbufGet stat_buf = genericIntBufGet stat_buf"
definition statbufIsEmpty :: "GenericIntBuf \<Rightarrow> bool" where
  "statbufIsEmpty stat_buf = genericIntBufIsEmpty stat_buf"

record AppBuf =
  buf :: ulong
  count_max :: nat
  count_actual :: nat

definition appbufInit :: "AppBuf \<Rightarrow> AppBuf" where
  "appbufInit app_buf = app_buf\<lparr>count_max := 0, count_actual := 0\<rparr>"

section \<open>Abstraction and invariant\<close>

text \<open>
  \<open>ring_queue N b\<close> is the list of queued entries, oldest first; \<open>ring_taken b\<close> is the entry a
  \<open>PutBack\<close> would restore.  \<open>ring_inv N b\<close>: the cursors are in range and \<open>iputback\<close> trails \<open>iget\<close>
  by at most one slot, a slot that the producer has not reached.
\<close>

definition ring_len :: "nat \<Rightarrow> GenericIntBuf \<Rightarrow> nat" where
  "ring_len N b = (iput b + N - iget b) mod N"

definition ring_queue :: "nat \<Rightarrow> GenericIntBuf \<Rightarrow> u32 list" where
  "ring_queue N b = map (\<lambda>i. buffers b ! ((iget b + i) mod N)) [0..<ring_len N b]"

definition ring_taken :: "GenericIntBuf \<Rightarrow> u32 option" where
  "ring_taken b = (if iputback b = iget b then None else Some (buffers b ! iputback b))"

definition ring_inv :: "nat \<Rightarrow> GenericIntBuf \<Rightarrow> bool" where
  "ring_inv N b \<longleftrightarrow>
     2 \<le> N \<and> (\<forall>x. x AND buffer_mask b = x mod N) \<and> length (buffers b) = N \<and>
     iput b < N \<and> iget b < N \<and> iputback b < N \<and>
     (iputback b = iget b \<or> (iputback b + 1) mod N = iget b \<and> iput b \<noteq> iputback b)"

lemma inc_mod: "ring_inv N b \<Longrightarrow> genericIntBufInc b i = (i + 1) mod N"
  by (simp add: ring_inv_def genericIntBufInc_def)

lemma succ_mod_cases: "i < N \<Longrightarrow> Suc i mod N = (if Suc i = N then 0 else Suc i)"
  by auto

text \<open>The cyclic distance from a read cursor \<open>g\<close> to a write cursor \<open>p\<close> after either moves one slot.\<close>

lemma cyclic_dist_get:
  assumes "p < N" "g < N" "g \<noteq> p"
  shows "(p + N - g) mod N = Suc ((p + N - (g + 1) mod N) mod N)"
proof (cases "Suc g = N")
  case True
  with assms have "(p + N - g) mod N = p + 1" "(g + 1) mod N = 0"
    by (auto simp: mod_if)
  with assms show ?thesis by simp
next
  case False
  with assms show ?thesis by (auto simp: mod_if)
qed

lemma cyclic_dist_put:
  assumes "p < N" "g < N" "(p + 1) mod N \<noteq> g"
  shows "((p + 1) mod N + N - g) mod N = Suc ((p + N - g) mod N)"
proof (cases "Suc p = N")
  case True
  with assms show ?thesis by (auto simp: mod_if)
next
  case False
  with assms show ?thesis by (auto simp: mod_if)
qed

lemma ring_len_cases:
  "iput b < N \<Longrightarrow> iget b < N \<Longrightarrow>
   ring_len N b = (if iget b \<le> iput b then iput b - iget b else iput b + N - iget b)"
  by (auto simp: ring_len_def mod_if)

lemma ring_len_less: "ring_inv N b \<Longrightarrow> ring_len N b < N"
  by (simp add: ring_len_def ring_inv_def)

lemma length_ring_queue [simp]: "length (ring_queue N b) = ring_len N b"
  by (simp add: ring_queue_def)

lemma ring_len_end: "ring_inv N b \<Longrightarrow> (iget b + ring_len N b) mod N = iput b"
  by (auto simp: ring_inv_def ring_len_cases)

lemma ring_slot_neq_iput:
  assumes "ring_inv N b" "i < ring_len N b"
  shows "(iget b + i) mod N \<noteq> iput b"
proof -
  from assms have r: "iput b < N" "iget b < N"
    and i: "i < (if iget b \<le> iput b then iput b - iget b else iput b + N - iget b)"
    by (simp_all add: ring_inv_def ring_len_cases)
  show ?thesis
  proof (cases "iget b + i < N")
    case True
    with r i show ?thesis by (auto split: if_splits)
  next
    case False
    with r i have lt: "iget b + i - N < iput b"
      by (simp split: if_splits)
    with r False have "(iget b + i) mod N = iget b + i - N"
      by (simp add: le_mod_geq)
    with lt show ?thesis by simp
  qed
qed

lemma ring_empty_iff: "ring_inv N b \<Longrightarrow> genericIntBufIsEmpty b \<longleftrightarrow> ring_queue N b = []"
  by (auto simp: genericIntBufIsEmpty_def ring_queue_def ring_inv_def ring_len_cases)

lemma ring_full_iff:
  assumes "ring_inv N b"
  shows "genericIntBufIsFull b \<longleftrightarrow>
    length (ring_queue N b) + (case ring_taken b of None \<Rightarrow> 0 | Some _ \<Rightarrow> 1) = N - 1"
proof -
  have "genericIntBufIsFull b \<longleftrightarrow> (iput b + 1) mod N = iputback b"
    using assms by (simp add: genericIntBufIsFull_def inc_mod)
  then show ?thesis
    using assms
    by (auto simp: ring_inv_def ring_taken_def ring_len_cases succ_mod_cases split: if_splits)
qed

section \<open>The operations against the abstraction\<close>

lemma ring_get:
  assumes inv: "ring_inv N b" and ne: "ring_queue N b = x # xs"
  shows "fst (genericIntBufGet b) = x" "ring_queue N (snd (genericIntBufGet b)) = xs"
    "ring_taken (snd (genericIntBufGet b)) = Some x" "ring_inv N (snd (genericIntBufGet b))"
proof -
  let ?b = "b\<lparr>iputback := iget b, iget := (iget b + 1) mod N\<rparr>"
  from inv ne have neq: "iget b \<noteq> iput b"
    using ring_empty_iff [OF inv] by (simp add: genericIntBufIsEmpty_def)
  then have g: "genericIntBufGet b = (buffers b ! iget b, ?b)"
    by (simp add: genericIntBufGet_def genericIntBufIsEmpty_def inc_mod [OF inv])
  from neq inv have len: "ring_len N b = Suc (ring_len N ?b)"
    using cyclic_dist_get [of "iput b" N "iget b"] by (simp add: ring_inv_def ring_len_def)
  have q: "ring_queue N b = buffers b ! iget b # ring_queue N ?b"
    using inv
    by (simp add: ring_queue_def len map_upt_Suc ring_inv_def mod_add_left_eq del: upt_Suc)
  from g q ne show "fst (genericIntBufGet b) = x" "ring_queue N (snd (genericIntBufGet b)) = xs"
    by auto
  from inv have ig: "(iget b + 1) mod N \<noteq> iget b"
    by (auto simp: ring_inv_def succ_mod_cases)
  then show "ring_taken (snd (genericIntBufGet b)) = Some x"
    using g q ne by (auto simp: ring_taken_def)
  show "ring_inv N (snd (genericIntBufGet b))"
    using inv neq g by (auto simp: ring_inv_def)
qed

lemma ring_get_empty:
  "ring_inv N b \<Longrightarrow> ring_queue N b = [] \<Longrightarrow> genericIntBufGet b = (STREAM_MFA_INVALID, b)"
  by (simp add: genericIntBufGet_def ring_empty_iff)

lemma ring_put:
  assumes inv: "ring_inv N b" and nf: "\<not> genericIntBufIsFull b"
  shows "fst (genericIntBufPut b x) = 0"
    "ring_queue N (snd (genericIntBufPut b x)) = ring_queue N b @ [x]"
    "ring_taken (snd (genericIntBufPut b x)) = ring_taken b"
    "ring_inv N (snd (genericIntBufPut b x))"
proof -
  let ?b = "snd (genericIntBufPut b x)"
  have inc: "genericIntBufInc (b\<lparr>buffers := bs\<rparr>) i = (i + 1) mod N" for bs i
    using inc_mod [OF inv, of i] by (simp add: genericIntBufInc_def)
  have f: "iput ?b = (iput b + 1) mod N" "iget ?b = iget b" "iputback ?b = iputback b"
    "buffers ?b = (buffers b)[iput b := x]" "buffer_mask ?b = buffer_mask b"
    using nf by (simp_all add: genericIntBufPut_def Let_def inc)
  from nf have nf': "(iput b + 1) mod N \<noteq> iputback b"
    by (simp add: genericIntBufIsFull_def inc_mod [OF inv])
  have full_neq: "(iput b + 1) mod N \<noteq> iget b"
    using inv nf' by (auto simp: ring_inv_def mod_Suc split: if_splits)
  show "fst (genericIntBufPut b x) = 0"
    using nf by (simp add: genericIntBufPut_def Let_def)
  show inv': "ring_inv N ?b"
    using inv nf' by (auto simp: ring_inv_def f)
  have len: "ring_len N ?b = Suc (ring_len N b)"
    using inv nf' full_neq
    using cyclic_dist_put [of "iput b" N "iget b"] by (simp add: ring_inv_def ring_len_def f)
  have "map (\<lambda>i. buffers ?b ! ((iget b + i) mod N)) [0..<ring_len N b] = ring_queue N b"
    using ring_slot_neq_iput [OF inv]
    by (auto simp: ring_queue_def f intro!: list_update_nth_swap dest: sym)
  moreover have "buffers ?b ! ((iget b + ring_len N b) mod N) = x"
    using inv by (simp add: ring_len_end f) (simp add: ring_inv_def)
  ultimately show "ring_queue N ?b = ring_queue N b @ [x]"
    unfolding ring_queue_def [of N ?b] len by (simp add: f)
  show "ring_taken ?b = ring_taken b"
    using inv by (auto simp: ring_taken_def f ring_inv_def)
qed

lemma ring_put_full: "genericIntBufIsFull b \<Longrightarrow> genericIntBufPut b x = (-1, b)"
  by (simp add: genericIntBufPut_def)

lemma ring_putback:
  assumes inv: "ring_inv N b"
  shows "ring_queue N (genericIntBufPutBack b) =
      (case ring_taken b of None \<Rightarrow> ring_queue N b | Some x \<Rightarrow> x # ring_queue N b)"
    "ring_taken (genericIntBufPutBack b) = None" "ring_inv N (genericIntBufPutBack b)"
proof -
  let ?b = "b\<lparr>iget := iputback b\<rparr>"
  show "ring_taken (genericIntBufPutBack b) = None" "ring_inv N (genericIntBufPutBack b)"
    using inv by (auto simp: ring_taken_def genericIntBufPutBack_def ring_inv_def)
  show "ring_queue N (genericIntBufPutBack b) =
      (case ring_taken b of None \<Rightarrow> ring_queue N b | Some x \<Rightarrow> x # ring_queue N b)"
  proof (cases "iputback b = iget b")
    case False
    with inv have st: "(iputback b + 1) mod N = iget b" "iput b \<noteq> iputback b"
      by (auto simp: ring_inv_def)
    then have len: "ring_len N ?b = Suc (ring_len N b)"
      using inv False cyclic_dist_get [of "iput b" N "iputback b"]
      by (simp add: ring_inv_def ring_len_def)
    have "(iputback b + Suc i) mod N = (iget b + i) mod N" for i
      using st(1) mod_add_left_eq [of "iputback b + 1" N i] by (simp add: add.assoc)
    then show ?thesis
      using inv False
      by (simp add: ring_queue_def ring_taken_def genericIntBufPutBack_def len map_upt_Suc
          ring_inv_def del: upt_Suc)
  qed (simp add: ring_taken_def genericIntBufPutBack_def)
qed

lemma num_entries_loop_eq:
  "ring_inv N (b\<lparr>iget := ig, iputback := ig\<rparr>) \<Longrightarrow>
   num_entries_loop b ig k = Some (k + ring_len N (b\<lparr>iget := ig\<rparr>))"
proof (induction "ring_len N (b\<lparr>iget := ig\<rparr>)" arbitrary: ig k)
  case 0
  then have "ig = iput b"
    by (auto simp: ring_inv_def ring_len_cases split: if_splits)
  with 0 show ?case by (simp add: num_entries_loop.simps)
next
  case (Suc n)
  let ?ig = "(ig + 1) mod N"
  from Suc.prems have neq: "ig \<noteq> iput b"
    using Suc.hyps(2) by (auto simp: ring_inv_def ring_len_cases)
  have inv': "ring_inv N (b\<lparr>iget := ?ig, iputback := ?ig\<rparr>)"
    using Suc.prems by (auto simp: ring_inv_def)
  have len: "ring_len N (b\<lparr>iget := ig\<rparr>) = Suc (ring_len N (b\<lparr>iget := ?ig\<rparr>))"
    using Suc.prems neq cyclic_dist_get [of "iput b" N ig] by (simp add: ring_inv_def ring_len_def)
  then have "num_entries_loop b ?ig (k + 1) = Some (k + 1 + ring_len N (b\<lparr>iget := ?ig\<rparr>))"
    using Suc.hyps inv' by simp
  moreover have "genericIntBufInc b ig = ?ig"
    using Suc.prems by (simp add: genericIntBufInc_def ring_inv_def)
  ultimately show ?case
    using neq len by (simp add: num_entries_loop.simps [of b ig])
qed

lemma ring_num_entries:
  "ring_inv N b \<Longrightarrow> genericIntBufNumEntries b = Some (length (ring_queue N b))"
  using num_entries_loop_eq [where N = N and b = b and ig = "iget b" and k = 0]
  by (simp add: genericIntBufNumEntries_def) (auto simp: ring_inv_def)

lemma ring_init:
  assumes "length (buffers b) = 2 ^ k" "1 \<le> k"
  shows "ring_inv (2 ^ k) (genericIntBufInit b (2 ^ k))"
    "ring_queue (2 ^ k) (genericIntBufInit b (2 ^ k)) = []"
    "ring_taken (genericIntBufInit b (2 ^ k)) = None"
proof -
  have "(2::nat) \<le> 2 ^ k"
    using assms(2) by (cases k) auto
  moreover have "x AND (2 ^ k - Suc 0) = x mod 2 ^ k" for x :: nat
    using nat_and_mask [of x k] by simp
  ultimately show "ring_inv (2 ^ k) (genericIntBufInit b (2 ^ k))"
    using assms(1) by (simp add: ring_inv_def genericIntBufInit_def)
qed (simp_all add: ring_queue_def ring_len_def ring_taken_def genericIntBufInit_def)

lemmas ring_ops = ring_get ring_get_empty ring_put ring_put_full ring_putback

section \<open>The interface: a bounded queue that remembers the last entry taken\<close>

text \<open>
  \<open>feed\<close> puts a list of entries, collecting the return codes; \<open>drain_n\<close> takes \<open>n\<close> entries.
\<close>

fun feed :: "('b \<Rightarrow> 'a \<Rightarrow> int \<times> 'b) \<Rightarrow> 'b \<Rightarrow> 'a list \<Rightarrow> int list \<times> 'b" where
  "feed put b [] = ([], b)"
| "feed put b (x # xs) =
     (let (r, b1) = put b x; (rs, b2) = feed put b1 xs in (r # rs, b2))"

fun drain_n :: "('b \<Rightarrow> 'a \<times> 'b) \<Rightarrow> nat \<Rightarrow> 'b \<Rightarrow> 'a list \<times> 'b" where
  "drain_n get 0 b = ([], b)"
| "drain_n get (Suc n) b =
     (let (x, b1) = get b; (xs, b2) = drain_n get n b1 in (x # xs, b2))"

locale putback_fifo =
  fixes put :: "'b \<Rightarrow> 'a \<Rightarrow> int \<times> 'b"
    and get :: "'b \<Rightarrow> 'a \<times> 'b"
    and putback :: "'b \<Rightarrow> 'b"
    and queue :: "'b \<Rightarrow> 'a list"
    and taken :: "'b \<Rightarrow> 'a option"
    and capacity :: nat
    and invalid :: 'a
    and invar :: "'b \<Rightarrow> bool"
  assumes used_bound: "invar b \<Longrightarrow> length (queue b) + (if taken b = None then 0 else 1) \<le> capacity"
    and put_room: "invar b \<Longrightarrow> length (queue b) + (if taken b = None then 0 else 1) < capacity \<Longrightarrow>
      fst (put b x) = 0 \<and> queue (snd (put b x)) = queue b @ [x] \<and>
      taken (snd (put b x)) = taken b \<and> invar (snd (put b x))"
    and put_full: "invar b \<Longrightarrow> length (queue b) + (if taken b = None then 0 else 1) = capacity \<Longrightarrow>
      put b x = (-1, b)"
    and get_cons: "invar b \<Longrightarrow> queue b = y # ys \<Longrightarrow>
      fst (get b) = y \<and> queue (snd (get b)) = ys \<and> taken (snd (get b)) = Some y \<and> invar (snd (get b))"
    and get_nil: "invar b \<Longrightarrow> queue b = [] \<Longrightarrow> get b = (invalid, b)"
    and putback_law: "invar b \<Longrightarrow> invar (putback b) \<and> taken (putback b) = None \<and>
      queue (putback b) = (case taken b of None \<Rightarrow> queue b | Some y \<Rightarrow> y # queue b)"
begin

lemma put_cases:
  assumes "invar b"
  shows "invar (snd (put b x))"
    and "fst (put b x) = 0 \<and> queue (snd (put b x)) = queue b @ [x] \<or>
         fst (put b x) = -1 \<and> snd (put b x) = b"
  using assms used_bound [of b] put_room [of b x] put_full [of b x]
  by (cases "length (queue b) + (if taken b = None then 0 else 1) < capacity"; fastforce)+

lemma get_invar: "invar b \<Longrightarrow> invar (snd (get b))"
  by (cases "queue b") (auto simp: get_nil get_cons)

lemma get_then_putback:
  assumes "invar b" "queue b = y # ys"
  shows "queue (putback (snd (get b))) = queue b"
  using assms get_cons [OF assms] putback_law [of "snd (get b)"] by simp

lemma feed_room:
  assumes "invar b" "length (queue b) + (if taken b = None then 0 else 1) + length xs \<le> capacity"
  shows "fst (feed put b xs) = replicate (length xs) 0 \<and>
    queue (snd (feed put b xs)) = queue b @ xs \<and> taken (snd (feed put b xs)) = taken b \<and>
    invar (snd (feed put b xs))"
  using assms
proof (induction xs arbitrary: b)
  case (Cons x xs)
  let ?b = "snd (put b x)"
  from Cons.prems put_room [of b x] have p: "fst (put b x) = 0" "queue ?b = queue b @ [x]"
    "taken ?b = taken b" "invar ?b"
    by auto
  with Cons.prems have "length (queue ?b) + (if taken ?b = None then 0 else 1) + length xs \<le> capacity"
    by simp
  from Cons.IH [OF p(4) this] p show ?case
    by (simp add: Let_def case_prod_unfold)
qed simp

lemma drain_queue:
  assumes "invar b" "n \<le> length (queue b)"
  shows "fst (drain_n get n b) = take n (queue b) \<and> queue (snd (drain_n get n b)) = drop n (queue b) \<and>
    invar (snd (drain_n get n b))"
  using assms
proof (induction n arbitrary: b)
  case (Suc n)
  then obtain y ys where q: "queue b = y # ys"
    by (cases "queue b") auto
  from get_cons [OF Suc.prems(1) q] have g: "fst (get b) = y" "queue (snd (get b)) = ys"
    "invar (snd (get b))"
    by auto
  with Suc.prems q Suc.IH [of "snd (get b)"] show ?case
    by (simp add: Let_def case_prod_unfold)
qed simp

lemma feed_then_drain:
  assumes "invar b" "length (queue b) + (if taken b = None then 0 else 1) + length xs \<le> capacity"
  shows "fst (feed put b xs) = replicate (length xs) 0 \<and>
    fst (drain_n get (length (queue b) + length xs) (snd (feed put b xs))) = queue b @ xs"
  using feed_room [OF assms] drain_queue [of "snd (feed put b xs)" "length (queue b) + length xs"]
  by simp

end

text \<open>Both rings implement the interface, with one slot of the array always free.\<close>

lemma ring_used:
  assumes "ring_inv N b"
  shows "length (ring_queue N b) + (if ring_taken b = None then 0 else 1) \<le> N - 1"
proof (cases "iputback b = iget b")
  case True
  then show ?thesis
    using assms ring_len_less [OF assms] by (simp add: ring_taken_def)
next
  case False
  let ?b = "genericIntBufPutBack b"
  have "ring_len N ?b < N" "ring_queue N ?b = buffers b ! iputback b # ring_queue N b"
    using ring_putback [OF assms] ring_len_less False by (auto simp: ring_taken_def)
  then have "Suc (length (ring_queue N b)) < N"
    by (metis length_Cons length_ring_queue)
  then show ?thesis by auto
qed

lemma ring_full_used:
  "ring_inv N b \<Longrightarrow>
   genericIntBufIsFull b \<longleftrightarrow> length (ring_queue N b) + (if ring_taken b = None then 0 else 1) = N - 1"
  using ring_full_iff [of N b] by (simp split: option.splits)

lemma ring_putback_fifo:
  "putback_fifo genericIntBufPut genericIntBufGet genericIntBufPutBack
     (ring_queue N) ring_taken (N - 1) STREAM_MFA_INVALID (ring_inv N)"
proof (unfold_locales, goal_cases)
  case (1 b) then show ?case by (rule ring_used)
next
  case (2 b x)
  then have "\<not> genericIntBufIsFull b" by (simp add: ring_full_used)
  with 2 show ?case by (simp add: ring_put)
next
  case (3 b x) then show ?case by (simp add: ring_full_used ring_put_full)
next
  case (4 b y ys) then show ?case by (simp add: ring_get)
next
  case (5 b) then show ?case by (rule ring_get_empty)
next
  case (6 b) then show ?case by (simp add: ring_putback)
qed

lemma ring_wrapper_eqs:
  "streamPut = genericIntBufPut" "streamGet = genericIntBufGet" "streamPutBack = genericIntBufPutBack"
  "statbufPut = genericIntBufPut" "statbufGet = genericIntBufGet"
  by (simp_all add: fun_eq_iff streamPut_def streamGet_def streamPutBack_def statbufPut_def
      statbufGet_def)

interpretation stream: putback_fifo streamPut streamGet streamPutBack
  "ring_queue NSTREAMBUF" ring_taken "NSTREAMBUF - 1" STREAM_MFA_INVALID "ring_inv NSTREAMBUF"
  unfolding ring_wrapper_eqs by (rule ring_putback_fifo)

interpretation stat: putback_fifo statbufPut statbufGet genericIntBufPutBack
  "ring_queue NSTATBUF" ring_taken "NSTATBUF - 1" STREAM_MFA_INVALID "ring_inv NSTATBUF"
  unfolding ring_wrapper_eqs by (rule ring_putback_fifo)

section \<open>Sequences of operations\<close>

text \<open>
  The interrupt handler puts, the tasklet gets, and the putback is open to any consumer: the
  operations of a whole run, and the abstract queue of the same run.
\<close>

datatype stream_op = Put u32 | Get | PutBack

fun stream_step :: "GenericIntBuf \<Rightarrow> stream_op \<Rightarrow> GenericIntBuf" where
  "stream_step b (Put x) = snd (streamPut b x)"
| "stream_step b Get = snd (streamGet b)"
| "stream_step b PutBack = streamPutBack b"

fun stream_run :: "GenericIntBuf \<Rightarrow> stream_op list \<Rightarrow> GenericIntBuf" where
  "stream_run b [] = b"
| "stream_run b (x # xs) = stream_run (stream_step b x) xs"

fun queue_step :: "u32 list \<times> u32 option \<Rightarrow> stream_op \<Rightarrow> u32 list \<times> u32 option" where
  "queue_step (q, t) (Put x) =
     (if length q + (if t = None then 0 else 1) < 127 then (q @ [x], t) else (q, t))"
| "queue_step (q, t) Get = (case q of [] \<Rightarrow> (q, t) | y # ys \<Rightarrow> (ys, Some y))"
| "queue_step (q, t) PutBack = (case t of None \<Rightarrow> q | Some y \<Rightarrow> y # q, None)"

fun queue_run :: "u32 list \<times> u32 option \<Rightarrow> stream_op list \<Rightarrow> u32 list \<times> u32 option" where
  "queue_run s [] = s"
| "queue_run s (x # xs) = queue_run (queue_step s x) xs"

abbreviation stream_abs :: "GenericIntBuf \<Rightarrow> u32 list \<times> u32 option" where
  "stream_abs b \<equiv> (ring_queue NSTREAMBUF b, ring_taken b)"

lemma stream_step_refines:
  assumes "ring_inv NSTREAMBUF b"
  shows "ring_inv NSTREAMBUF (stream_step b x) \<and> stream_abs (stream_step b x) = queue_step (stream_abs b) x"
proof (cases x)
  case (Put d)
  show ?thesis
  proof (cases "length (ring_queue NSTREAMBUF b) + (if ring_taken b = None then 0 else 1) < NSTREAMBUF - 1")
    case True
    with stream.put_room [OF assms True, of d] Put show ?thesis by (simp add: NSTREAMBUF_def)
  next
    case False
    with stream.used_bound [OF assms]
    have "length (ring_queue NSTREAMBUF b) + (if ring_taken b = None then 0 else 1) = NSTREAMBUF - 1"
      by simp
    from stream.put_full [OF assms this] False Put assms show ?thesis by (simp add: NSTREAMBUF_def)
  qed
next
  case Get
  with assms stream.get_cons [OF assms] stream.get_nil [OF assms] show ?thesis
    by (cases "ring_queue NSTREAMBUF b") simp_all
next
  case PutBack
  with stream.putback_law [OF assms] show ?thesis by simp
qed

lemma stream_run_refines:
  "ring_inv NSTREAMBUF b \<Longrightarrow>
   ring_inv NSTREAMBUF (stream_run b xs) \<and> stream_abs (stream_run b xs) = queue_run (stream_abs b) xs"
proof (induction xs arbitrary: b)
  case (Cons x xs)
  with stream_step_refines [OF Cons.prems, of x] show ?case by simp
qed simp

lemma stream_init:
  "length (buffers b) = NSTREAMBUF \<Longrightarrow>
   ring_inv NSTREAMBUF (streamBufInit b) \<and> stream_abs (streamBufInit b) = ([], None)"
  using ring_init [of b 7] by (simp add: streamBufInit_def NSTREAMBUF_def)

definition empty_ring :: GenericIntBuf where
  "empty_ring = \<lparr>buffer_mask = 0, iput = 0, iget = 0, iputback = 0, iswrapped = 0, nwrapped = 0,
     hitide = 0, qpresent = 0, buffers = replicate 128 0\<rparr>"

lemma length_empty_ring: "length (buffers empty_ring) = NSTREAMBUF"
  by (simp add: empty_ring_def NSTREAMBUF_def)

section \<open>Properties\<close>



text \<open>
  Entries come out of the ring in the order they went in: with room for \<open>xs\<close>, every put returns
  0 and taking as many entries as are then queued returns the old entries followed by \<open>xs\<close>.
\<close>

theorem stream_fifo_order:
  assumes "ring_inv NSTREAMBUF b"
    and "length (ring_queue NSTREAMBUF b) + (if ring_taken b = None then 0 else 1) + length xs \<le> 127"
  shows "fst (feed streamPut b xs) = replicate (length xs) 0 \<and>
    fst (drain_n streamGet (length (ring_queue NSTREAMBUF b) + length xs) (snd (feed streamPut b xs)))
      = ring_queue NSTREAMBUF b @ xs"
  by (rule stream.feed_then_drain) (use assms in \<open>simp_all add: NSTREAMBUF_def\<close>)

theorem stream_fifo_order_witness:
  "fst (drain_n streamGet (length [7, 8, 9 :: u32])
     (snd (feed streamPut (streamBufInit empty_ring) [7, 8, 9]))) = [7, 8, 9]"
proof -
  let ?b = "streamBufInit empty_ring"
  have i: "ring_inv NSTREAMBUF ?b" "ring_queue NSTREAMBUF ?b = []" "ring_taken ?b = None"
    using stream_init [OF length_empty_ring] by simp_all
  then have "length (ring_queue NSTREAMBUF ?b) + (if ring_taken ?b = None then 0 else 1)
      + length [7, 8, 9 :: u32] \<le> 127"
    by simp
  from stream_fifo_order [OF i(1) this] show ?thesis
    unfolding i(2) by (simp del: feed.simps drain_n.simps)
qed

text \<open>
  The unguarded counting loop of \<open>streamNumEntries\<close> ends in every reachable ring and returns the
  number of queued entries, which is at most 127.
\<close>

theorem stream_num_entries_terminates:
  assumes "ring_inv NSTREAMBUF b"
  shows "\<exists>n. streamNumEntries b = Some n \<and> n = length (ring_queue NSTREAMBUF b) \<and> n \<le> 127"
  using ring_num_entries [OF assms] ring_len_less [OF assms]
  by (simp add: streamNumEntries_def NSTREAMBUF_def)

theorem stream_num_entries_terminates_witness:
  "\<exists>n. streamNumEntries (stream_run (streamBufInit empty_ring) [Put 1, Put 2, Get]) = Some n \<and> n \<le> 127"
  using stream_num_entries_terminates
    [of "stream_run (streamBufInit empty_ring) [Put 1, Put 2, Get]"]
    stream_run_refines [of "streamBufInit empty_ring" "[Put 1, Put 2, Get]"]
    stream_init [OF length_empty_ring]
  by auto

end
