(* ===== verification/Io_Device.thy ===== *)
theory Io_Device
  imports Bus_Protocol Stream_Buffer
begin

text \<open>
  The structures of \<^verbatim>\<open>src/acq200.h\<close> the message transport works on: DMA buffers, I/O mappings, return
  command handlers, open paths and the device.  Objects the driver reaches through pointers (handlers,
  pool mappings, paths) are numbered and live in tables of the device, so that aliasing is explicit; a null
  pointer is \<open>None\<close>.
\<close>

definition NMAPPINGS :: nat where "NMAPPINGS = 4"
definition PAGE_SIZE :: int where "PAGE_SIZE = 4096"

record DmaBuf =
  order :: nat
  db_va :: int
  db_pa :: u32

definition ORDER2LEN :: "nat \<Rightarrow> int" where "ORDER2LEN n = 2 ^ n * PAGE_SIZE"

definition dma_buf_len :: "DmaBuf \<Rightarrow> int" where
  "dma_buf_len dma_buf = (if db_va dma_buf \<noteq> 0 then 2 ^ order dma_buf * PAGE_SIZE else 0)"

record IoMapping =
  io_va :: int
  io_pa :: ulong
  io_len :: int
  io_name :: string

definition copyDmaBuf2IoMapping :: "IoMapping \<Rightarrow> DmaBuf \<Rightarrow> IoMapping" where
  "copyDmaBuf2IoMapping mapping dma_buf =
     mapping\<lparr>io_va := db_va dma_buf, io_pa := ucast (db_pa dma_buf), io_len := dma_buf_len dma_buf\<rparr>"

definition PCI_WINDOW_MASK :: "DmaBuf \<Rightarrow> ulong" where
  "PCI_WINDOW_MASK dma_buf = word_of_int (dma_buf_len dma_buf - 1)"

definition MK_DMABUF_OFFSET :: "IoMapping \<Rightarrow> DmaBuf \<Rightarrow> ulong" where
  "MK_DMABUF_OFFSET kbuf dma_buf = io_pa kbuf AND PCI_WINDOW_MASK dma_buf"

section \<open>Return command handlers\<close>

text \<open>
  A handler's buffer is an entry of the mapping pool, one of the two mappings kept in a path, or a
  mapping on the stack of the caller.
\<close>

datatype kbuf_ptr = PoolMap nat | PathMap nat nat | StackMap IoMapping

record RchReturn =
  valid :: int
  start_id :: u32
  nbytes :: int
  kbuf :: "kbuf_ptr option"
  rr_flags :: u32

definition RCH_KB_POOL :: u32 where "RCH_KB_POOL = 1"

text \<open>The three functions the driver installs as handlers, by name.\<close>

datatype rch_handler = HandleReadMessageFile | RecycleRchWrapper | HandleLastMessage

text \<open>
  \<open>rch_device\<close> tells whether the device pointer has been set; there is one device.  The list node
  is the presence of the handler's number in the device's list.
\<close>

record ReturnCommandHandler =
  handler :: "rch_handler option"
  rch_path :: "nat option"
  rch_device :: bool
  command_id :: u16
  rchReturn :: RchReturn

definition zeroed_rch :: ReturnCommandHandler where
  "zeroed_rch = \<lparr>handler = None, rch_path = None, rch_device = False, command_id = 0,
     rchReturn = \<lparr>valid = 0, start_id = 0, nbytes = 0, kbuf = None, rr_flags = 0\<rparr>\<rparr>"

section \<open>Pools\<close>

text \<open>An item of a pool is a pointer into an array; here it is the index into that array.\<close>

record PoolEntry =
  reserved :: bool
  item :: nat

record Pool =
  max_entries :: nat
  entries :: "PoolEntry list"
  cursor :: nat
  pool_name :: string

record BigBufPool =
  mappings :: Pool
  handlers :: Pool
  io_mappings :: "IoMapping list"

end
