(* ===== verification/Printf.thy ===== *)
theory Printf
  imports Hostdrv_Prelude
begin

text \<open>
  The C library's conversions between numbers and text, as far as the driver and its clients use them: the formats
  \<^verbatim>\<open>%d\<close> and \<^verbatim>\<open>%08x\<close>, and \<open>atoi\<close> and \<open>strtoul\<close>.
\<close>

section \<open>Reading\<close>

definition is_space :: "char \<Rightarrow> bool" where
  "is_space c \<longleftrightarrow> c = CHR '' '' \<or> c = CHR 0x09 \<or> c = CHR 0x0A \<or> c = CHR 0x0B \<or> c = CHR 0x0C \<or> c = CHR 0x0D"

definition code :: "char \<Rightarrow> nat" where "code c = of_char c"

definition digit_val :: "nat \<Rightarrow> char \<Rightarrow> nat option" where
  "digit_val base c =
     (let v = (if code CHR ''0'' \<le> code c \<and> code c \<le> code CHR ''9'' then code c - code CHR ''0''
               else if code CHR ''a'' \<le> code c \<and> code c \<le> code CHR ''f'' then code c - code CHR ''a'' + 10
               else if code CHR ''A'' \<le> code c \<and> code c \<le> code CHR ''F'' then code c - code CHR ''A'' + 10
               else base)
      in if v < base then Some v else None)"

fun digits :: "nat \<Rightarrow> nat \<Rightarrow> string \<Rightarrow> nat" where
  "digits base acc [] = acc"
| "digits base acc (c # cs) =
     (case digit_val base c of None \<Rightarrow> acc | Some v \<Rightarrow> digits base (acc * base + v) cs)"

definition signed_digits :: "nat \<Rightarrow> string \<Rightarrow> int" where
  "signed_digits base s =
     (case s of
        c # cs \<Rightarrow> if c = CHR ''-'' then - int (digits base 0 cs) else if c = CHR ''+'' then int (digits base 0 cs)
                 else int (digits base 0 s)
      | [] \<Rightarrow> 0)"

definition atoi :: "string \<Rightarrow> int" where
  "atoi s = signed_digits 10 (dropWhile is_space s)"

text \<open>\<open>strtoul\<close> with base zero: the prefix selects hexadecimal, octal or decimal; assigned to an \<open>unsigned\<close>.\<close>

definition strtoul0 :: "string \<Rightarrow> u32" where
  "strtoul0 s =
     (let t = dropWhile is_space s in
      if take 2 t = ''0x'' \<or> take 2 t = ''0X'' then word_of_nat (digits 16 0 (drop 2 t))
      else if take 1 t = ''0'' then word_of_nat (digits 8 0 t)
      else word_of_int (signed_digits 10 t))"

section \<open>Printing\<close>

fun dec_nat :: "nat \<Rightarrow> string" where
  "dec_nat n = (if n < 10 then [char_of (48 + n)] else dec_nat (n div 10) @ [char_of (48 + n mod 10)])"

declare dec_nat.simps [simp del]

definition dec_str :: "int \<Rightarrow> string" where
  "dec_str i = (if i < 0 then CHR ''-'' # dec_nat (nat (- i)) else dec_nat (nat i))"

definition hex_digit :: "nat \<Rightarrow> char" where
  "hex_digit n = (if n < 10 then char_of (48 + n) else char_of (87 + n))"

text \<open>\<^verbatim>\<open>%08x\<close> of an \<open>unsigned\<close>.\<close>

definition hex8 :: "u32 \<Rightarrow> string" where
  "hex8 w = map (\<lambda>i. hex_digit (unat (drop_bit (4 * i) w AND 0xf))) (rev [0..<8])"

text \<open>\<^verbatim>\<open>%x\<close>: hexadecimal without leading zeros.\<close>

fun hex_nat :: "nat \<Rightarrow> string" where
  "hex_nat n = (if n < 16 then [hex_digit n] else hex_nat (n div 16) @ [hex_digit (n mod 16)])"

declare hex_nat.simps [simp del]

section \<open>Lengths\<close>

lemma length_dec_nat: "0 < k \<Longrightarrow> n < 10 ^ k \<Longrightarrow> length (dec_nat n) \<le> k"
proof (induction k arbitrary: n)
  case (Suc k)
  show ?case
  proof (cases "n < 10")
    case True
    then show ?thesis by (subst dec_nat.simps) simp
  next
    case False
    then have "0 < k" using Suc.prems(2) by (cases k) simp_all
    moreover have "n div 10 < 10 ^ k" using Suc.prems(2) by (simp add: less_mult_imp_div_less mult.commute)
    ultimately show ?thesis using Suc.IH [of "n div 10"] False by (subst dec_nat.simps) simp
  qed
qed simp

section \<open>Reading back\<close>

lemma code_digit: "n < 10 \<Longrightarrow> code (char_of (48 + n)) = 48 + n"
  by (simp add: code_def)

lemma digit_val_dec: "n < 10 \<Longrightarrow> digit_val 10 (char_of (48 + n)) = Some n"
  by (simp add: digit_val_def code_digit) (simp add: code_def)

lemma digits_append:
  "\<forall>c \<in> set s. digit_val base c \<noteq> None \<Longrightarrow> digits base acc (s @ t) = digits base (digits base acc s) t"
  by (induction s arbitrary: acc) auto

lemma dec_nat_digits: "c \<in> set (dec_nat n) \<Longrightarrow> \<exists>k < 10. c = char_of (48 + k :: nat)"
proof (induction n rule: dec_nat.induct)
  case (1 n)
  show ?case
  proof (cases "n < 10 \<or> c \<in> set (dec_nat (n div 10))")
    case True
    then show ?thesis using 1 dec_nat.simps [of n] by (auto split: if_splits)
  next
    case False
    then have "c = char_of (48 + n mod 10)" using 1(2) dec_nat.simps [of n] by (auto split: if_splits)
    moreover have "n mod 10 < 10" by simp
    ultimately show ?thesis by blast
  qed
qed

lemma digits_dec_nat: "digits 10 0 (dec_nat n) = n"
proof (induction n rule: dec_nat.induct)
  case (1 n)
  show ?case
  proof (cases "n < 10")
    case True
    then show ?thesis by (subst dec_nat.simps) (simp add: digit_val_dec)
  next
    case False
    have "\<forall>c \<in> set (dec_nat (n div 10)). digit_val 10 c \<noteq> None" using dec_nat_digits digit_val_dec by fastforce
    then have "digits 10 0 (dec_nat n) = n div 10 * 10 + n mod 10"
      using False 1 by (subst dec_nat.simps) (simp add: digits_append digit_val_dec)
    then show ?thesis by simp
  qed
qed

lemma dec_nat_Cons: "\<exists>k cs. k < 10 \<and> dec_nat n = char_of (48 + k :: nat) # cs"
proof -
  have "dec_nat n \<noteq> []" by (subst dec_nat.simps) simp
  then obtain c cs where d: "dec_nat n = c # cs" by (cases "dec_nat n") auto
  then obtain k :: nat where "k < 10" "c = char_of (48 + k)" using dec_nat_digits [of c n] by auto
  with d show ?thesis by blast
qed

lemma digits_end: "digit_val base c = None \<Longrightarrow> digits base acc (s @ c # t) = digits base acc s"
  by (induction s arbitrary: acc) (auto split: option.split)

text \<open>A number printed with \<^verbatim>\<open>%d\<close> is read back by \<open>atoi\<close>, also when a character that is no digit follows.\<close>

lemma atoi_dec_str_stop:
  assumes "digit_val 10 e = None"
  shows "atoi (dec_str i @ e # t) = i" "atoi (dec_str i) = i"
proof -
  have d: "digits 10 0 (dec_nat n @ e # t) = n" for n by (simp add: digits_end [OF assms] digits_dec_nat)
  obtain k :: nat and cs where k: "k < 10" "dec_nat (nat i) = char_of (48 + k) # cs" using dec_nat_Cons by blast
  let ?c = "char_of (48 + k) :: char"
  have "code ?c \<noteq> code CHR ''-''" "code ?c \<noteq> code CHR ''+''" "code ?c \<noteq> code CHR '' ''" "code ?c \<noteq> code CHR 0x09"
    "code ?c \<noteq> code CHR 0x0A" "code ?c \<noteq> code CHR 0x0B" "code ?c \<noteq> code CHR 0x0C" "code ?c \<noteq> code CHR 0x0D"
    unfolding code_digit [OF k(1)] by (simp_all add: code_def)
  then have c: "\<not> is_space ?c" "?c \<noteq> CHR ''-''" "?c \<noteq> CHR ''+''" by (auto simp: is_space_def)
  show "atoi (dec_str i @ e # t) = i" "atoi (dec_str i) = i"
    using d [of "nat i"] d [of "nat (- i)"] digits_dec_nat [of "nat i"] digits_dec_nat [of "nat (- i)"] c
    by (cases "i < 0"; simp add: atoi_def dec_str_def is_space_def signed_digits_def k(2))+
qed

end
