(* ===== verification/Buf_Pool.thy ===== *)
theory Buf_Pool
  imports Io_Device Printf
begin

text \<open>
  The pools of DMA mappings and return command handlers (\<^verbatim>\<open>src/acq200_bigbuf_alloc.c\<close>): creation, the
  round-robin allocator with its sleep, and release.

  An allocation that finds everything reserved sleeps.  What happens meanwhile is an argument: a list
  with one entry per sleep, \<open>None\<close> when the sleep times out and otherwise the actions of other
  processes that preceded the wake-up; when the list is used up the sleep times out.
\<close>

section \<open>Creation\<close>

definition MSG_MAPPING :: nat where "MSG_MAPPING = NMAPPINGS - 1"
definition NHANDLERS :: nat where "NHANDLERS = 16"

definition mapping_at :: "nat \<Rightarrow> DmaBuf \<Rightarrow> int \<Rightarrow> u32 \<Rightarrow> nat \<Rightarrow> IoMapping" where
  "mapping_at idx bb buflen offset ii =
     \<lparr>io_va = db_va bb + uint offset, io_pa = ucast (db_pa bb + offset), io_len = buflen,
      io_name = ''buf '' @ dec_nat idx @ ''.'' @ dec_nat ii\<rparr>"

text \<open>The loop of \<open>_create_mappings\<close> from entry \<open>ii\<close> on, \<open>k\<close> entries to go.\<close>

primrec create_mappings_loop :: "nat \<Rightarrow> DmaBuf \<Rightarrow> int \<Rightarrow> nat \<Rightarrow> nat \<Rightarrow> u32 \<Rightarrow> IoMapping list" where
  "create_mappings_loop idx bb buflen 0 ii offset = []"
| "create_mappings_loop idx bb buflen (Suc k) ii offset =
     mapping_at idx bb buflen offset ii #
     create_mappings_loop idx bb buflen k (Suc ii) (offset + word_of_int buflen)"

definition fresh_entries :: "nat \<Rightarrow> PoolEntry list" where
  "fresh_entries n = map (\<lambda>ii. \<lparr>reserved = False, item = ii\<rparr>) [0..<n]"

text \<open>\<open>entries_ok\<close> and \<open>items_ok\<close> tell whether the two allocations succeed; the code asserts both.\<close>

definition create_mappings :: "bool \<Rightarrow> bool \<Rightarrow> nat \<Rightarrow> DmaBuf \<Rightarrow> (Pool \<times> IoMapping list) option" where
  "create_mappings entries_ok items_ok idx bb =
     (if \<not> items_ok \<or> \<not> entries_ok then None
      else
        let buflen = dma_buf_len bb div int NMAPPINGS
        in Some (\<lparr>max_entries = NMAPPINGS, entries = fresh_entries NMAPPINGS, cursor = 0,
                  pool_name = ''mappings''\<rparr>,
                 create_mappings_loop idx bb buflen NMAPPINGS 0 0))"

definition rchInit :: "ReturnCommandHandler \<Rightarrow> ReturnCommandHandler" where
  "rchInit rch = rch\<lparr>handler := None\<rparr>"

definition create_handlers :: "bool \<Rightarrow> bool \<Rightarrow> (Pool \<times> ReturnCommandHandler list) option" where
  "create_handlers entries_ok items_ok =
     (if \<not> entries_ok \<or> \<not> items_ok then None
      else Some (\<lparr>max_entries = NHANDLERS, entries = fresh_entries NHANDLERS, cursor = 0,
                  pool_name = ''handlers''\<rparr>,
                 replicate NHANDLERS (rchInit zeroed_rch)))"

definition acq200_pool_create ::
  "bool list \<Rightarrow> nat \<Rightarrow> DmaBuf \<Rightarrow> (BigBufPool \<times> ReturnCommandHandler list) option" where
  "acq200_pool_create km idx bb =
     (if \<not> km ! 0 then None
      else do {
        (mp, maps) \<leftarrow> create_mappings (km ! 1) (km ! 2) idx bb;
        (hp, rchs) \<leftarrow> create_handlers (km ! 3) (km ! 4);
        Some (\<lparr>mappings = mp\<lparr>entries := (entries mp)[MSG_MAPPING := (entries mp ! MSG_MAPPING)\<lparr>reserved := True\<rparr>]\<rparr>,
               handlers = hp, io_mappings = maps\<rparr>, rchs) })"

text \<open>The five allocations of a pool, and the order in which they are released.\<close>

datatype pool_block = MappingItems | MappingEntries | HandlerItems | HandlerEntries | PoolBlock

definition delete_mappings :: "pool_block list" where
  "delete_mappings = [MappingItems, MappingEntries]"

definition delete_handlers :: "pool_block list" where
  "delete_handlers = [HandlerItems, HandlerEntries]"

definition acq200_pool_delete :: "BigBufPool option \<Rightarrow> pool_block list \<times> BigBufPool option" where
  "acq200_pool_delete pool =
     (case pool of
        Some p \<Rightarrow> (delete_mappings @ delete_handlers @ [PoolBlock], None)
      | None \<Rightarrow> ([], None))"

section \<open>Allocation and release\<close>

definition INCR :: "Pool \<Rightarrow> nat \<Rightarrow> nat" where
  "INCR p ibuf = (if max_entries p - 1 \<le> ibuf then 0 else ibuf + 1)"

definition set_reserved :: "bool \<Rightarrow> nat \<Rightarrow> Pool \<Rightarrow> Pool" where
  "set_reserved b k p = p\<lparr>entries := (entries p)[k := (entries p ! k)\<lparr>reserved := b\<rparr>]\<rparr>"

text \<open>The scan of \<open>_free\<close>; the flag tells whether the item was found (otherwise an error is logged).\<close>

primrec free_loop :: "Pool \<Rightarrow> nat \<Rightarrow> nat \<Rightarrow> nat \<Rightarrow> bool \<times> Pool" where
  "free_loop p it 0 ibuf = (False, p)"
| "free_loop p it (Suc k) ibuf =
     (if item (entries p ! ibuf) = it then (True, set_reserved False ibuf p)
      else free_loop p it k (Suc ibuf))"

definition pool_free :: "Pool \<Rightarrow> nat \<Rightarrow> bool \<times> Pool" where
  "pool_free p it = free_loop p it (max_entries p) 0"

text \<open>What other processes do to the pool: release an item, or complete an allocation of entry \<open>k\<close>.\<close>

datatype pool_act = Freed nat | Claimed nat

fun do_act :: "pool_act \<Rightarrow> Pool \<Rightarrow> Pool" where
  "do_act (Freed it) p = snd (pool_free p it)"
| "do_act (Claimed k) p =
     (if k < max_entries p \<and> \<not> reserved (entries p ! k) then (set_reserved True k p)\<lparr>cursor := k\<rparr> else p)"

type_synonym wakes = "pool_act list option list"

partial_function (option) alloc_loop :: "Pool \<Rightarrow> wakes \<Rightarrow> nat \<Rightarrow> (nat option \<times> Pool) option" where
  "alloc_loop p ws ibuf =
     (if length (entries p) \<le> ibuf then None
      else if reserved (entries p ! ibuf) then
        (if ibuf = cursor p then
           (case ws of
              Some acts # ws1 \<Rightarrow> let p1 = fold do_act acts p in alloc_loop p1 ws1 (INCR p1 ibuf)
            | _ \<Rightarrow> Some (None, p))
         else alloc_loop p ws (INCR p ibuf))
      else Some (Some (item (entries p ! ibuf)), set_reserved True ibuf (p\<lparr>cursor := ibuf\<rparr>)))"

definition pool_alloc :: "Pool \<Rightarrow> wakes \<Rightarrow> (nat option \<times> Pool) option" where
  "pool_alloc p ws = alloc_loop p ws (INCR p (cursor p))"

definition acq200_pool_alloc_mapping :: "BigBufPool \<Rightarrow> wakes \<Rightarrow> (nat option \<times> BigBufPool) option" where
  "acq200_pool_alloc_mapping pool ws =
     map_option (\<lambda>(r, p). (r, pool\<lparr>mappings := p\<rparr>)) (pool_alloc (mappings pool) ws)"

definition acq200_pool_free_mapping :: "BigBufPool \<Rightarrow> nat \<Rightarrow> BigBufPool" where
  "acq200_pool_free_mapping pool m = pool\<lparr>mappings := snd (pool_free (mappings pool) m)\<rparr>"

definition acq200_pool_alloc_rch :: "BigBufPool \<Rightarrow> wakes \<Rightarrow> (nat option \<times> BigBufPool) option" where
  "acq200_pool_alloc_rch pool ws =
     map_option (\<lambda>(r, p). (r, pool\<lparr>handlers := p\<rparr>)) (pool_alloc (handlers pool) ws)"

definition acq200_pool_free_rch :: "BigBufPool \<Rightarrow> nat \<Rightarrow> BigBufPool" where
  "acq200_pool_free_rch pool h = pool\<lparr>handlers := snd (pool_free (handlers pool) h)\<rparr>"

section \<open>Invariant and free set\<close>

definition pool_inv :: "Pool \<Rightarrow> bool" where
  "pool_inv p \<longleftrightarrow> 0 < max_entries p \<and> length (entries p) = max_entries p \<and> cursor p < max_entries p \<and>
     distinct (map item (entries p))"

definition pool_items :: "Pool \<Rightarrow> nat set" where
  "pool_items p = item ` set (entries p)"

definition pool_avail :: "Pool \<Rightarrow> nat set" where
  "pool_avail p = item ` {e \<in> set (entries p). \<not> reserved e}"

lemma INCR_less: "pool_inv p \<Longrightarrow> INCR p i < max_entries p"
  by (auto simp: INCR_def pool_inv_def)

lemma set_reserved_simps [simp]:
  "max_entries (set_reserved b k p) = max_entries p" "cursor (set_reserved b k p) = cursor p"
  "length (entries (set_reserved b k p)) = length (entries p)"
  "set_reserved b k (p\<lparr>cursor := c\<rparr>) = (set_reserved b k p)\<lparr>cursor := c\<rparr>"
  by (simp_all add: set_reserved_def)

lemma nth_set_reserved:
  "i < length (entries p) \<Longrightarrow> entries (set_reserved b k p) ! i =
     (if i = k then (entries p ! k)\<lparr>reserved := b\<rparr> else entries p ! i)"
  by (simp add: set_reserved_def)

lemma map_item_set_reserved [simp]: "map item (entries (set_reserved b k p)) = map item (entries p)"
  by (intro nth_equalityI) (auto simp: nth_set_reserved)

lemma pool_items_conv: "pool_items p = set (map item (entries p))"
  by (simp add: pool_items_def)

lemma pool_items_set_reserved [simp]: "pool_items (set_reserved b k p) = pool_items p"
  unfolding pool_items_conv map_item_set_reserved ..

lemma pool_inv_set_reserved [simp]: "pool_inv (set_reserved b k p) = pool_inv p"
  by (simp add: pool_inv_def)

lemma pool_cursor_update [simp]:
  "pool_items (p\<lparr>cursor := c\<rparr>) = pool_items p" "pool_avail (p\<lparr>cursor := c\<rparr>) = pool_avail p"
  "pool_inv p \<Longrightarrow> c < max_entries p \<Longrightarrow> pool_inv (p\<lparr>cursor := c\<rparr>)"
  by (auto simp: pool_items_def pool_avail_def pool_inv_def)

lemma pool_avail_conv: "pool_avail p = {item (entries p ! i) |i. i < length (entries p) \<and> \<not> reserved (entries p ! i)}"
  by (auto simp: pool_avail_def in_set_conv_nth image_iff)

lemma item_eq_iff:
  "pool_inv p \<Longrightarrow> i < max_entries p \<Longrightarrow> j < max_entries p \<Longrightarrow>
   item (entries p ! i) = item (entries p ! j) \<longleftrightarrow> i = j"
  using nth_eq_iff_index_eq [of "map item (entries p)" i j] by (auto simp: pool_inv_def)

lemma pool_avail_iff:
  assumes "pool_inv p"
  shows "x \<in> pool_avail p \<longleftrightarrow> (\<exists>i < max_entries p. x = item (entries p ! i) \<and> \<not> reserved (entries p ! i))"
  using assms by (auto simp: pool_avail_conv pool_inv_def)

lemma pool_avail_set_reserved:
  assumes "pool_inv p" "k < max_entries p"
  shows "pool_avail (set_reserved b k p) =
    (if b then pool_avail p - {item (entries p ! k)} else insert (item (entries p ! k)) (pool_avail p))"
proof -
  have len: "length (entries p) = max_entries p" using assms(1) by (simp add: pool_inv_def)
  have inv': "pool_inv (set_reserved b k p)" using assms(1) by simp
  show ?thesis
  proof (intro set_eqI)
    fix x
    have "x \<in> pool_avail (set_reserved b k p) \<longleftrightarrow>
      (\<exists>i < max_entries p. x = item (entries p ! i) \<and> (if i = k then \<not> b else \<not> reserved (entries p ! i)))"
      unfolding pool_avail_iff [OF inv'] set_reserved_simps by (rule ex_cong1) (auto simp: nth_set_reserved len)
    also have "\<dots> \<longleftrightarrow> x \<in> (if b then pool_avail p - {item (entries p ! k)} else insert (item (entries p ! k)) (pool_avail p))"
      using assms(2) by (cases b) (auto simp: pool_avail_iff [OF assms(1)] item_eq_iff [OF assms(1)])
    finally show "x \<in> pool_avail (set_reserved b k p) \<longleftrightarrow>
      x \<in> (if b then pool_avail p - {item (entries p ! k)} else insert (item (entries p ! k)) (pool_avail p))" .
  qed
qed

section \<open>Behaviour of the pool operations\<close>

lemma free_loop_spec:
  "ibuf + k = max_entries p \<Longrightarrow>
   free_loop p it k ibuf =
     (case filter (\<lambda>i. item (entries p ! i) = it) [ibuf..<max_entries p] of
        [] \<Rightarrow> (False, p) | i # _ \<Rightarrow> (True, set_reserved False i p))"
proof (induction k arbitrary: ibuf)
  case (Suc k)
  then have "[ibuf..<max_entries p] = ibuf # [Suc ibuf..<max_entries p]"
    by (simp add: upt_conv_Cons)
  with Suc show ?case by simp
qed simp

lemma pool_free_in:
  assumes "pool_inv p" "i < max_entries p"
  shows "pool_free p (item (entries p ! i)) = (True, set_reserved False i p)"
proof -
  let ?f = "filter (\<lambda>j. item (entries p ! j) = item (entries p ! i)) [0..<max_entries p]"
  have "set ?f = {i}" using item_eq_iff [OF assms(1)] assms(2) by auto
  moreover have "distinct ?f" by simp
  ultimately have "?f = [i]" by (rule distinct_set_single [rotated])
  then show ?thesis by (simp add: pool_free_def free_loop_spec)
qed

lemma pool_free_out:
  assumes "pool_inv p" "it \<notin> pool_items p"
  shows "pool_free p it = (False, p)"
proof -
  have "filter (\<lambda>j. item (entries p ! j) = it) [0..<max_entries p] = []"
    using assms by (auto simp: filter_empty_conv pool_items_def pool_inv_def)
  then show ?thesis by (simp add: pool_free_def free_loop_spec)
qed

lemma pool_item_index:
  "pool_inv p \<Longrightarrow> it \<in> pool_items p \<Longrightarrow> \<exists>i < max_entries p. it = item (entries p ! i)"
  by (auto simp: pool_items_def pool_inv_def in_set_conv_nth)

lemma pool_free_spec:
  assumes "pool_inv p"
  shows "pool_inv (snd (pool_free p it))" "pool_items (snd (pool_free p it)) = pool_items p"
    "pool_avail (snd (pool_free p it)) = pool_avail p \<union> ({it} \<inter> pool_items p)"
    "cursor (snd (pool_free p it)) = cursor p" "max_entries (snd (pool_free p it)) = max_entries p"
    "fst (pool_free p it) \<longleftrightarrow> it \<in> pool_items p"
  using assms pool_free_out [OF assms, of it] pool_item_index [OF assms, of it]
  by (cases "it \<in> pool_items p"; auto simp: pool_free_in pool_avail_set_reserved)+

lemma do_act_inv [hostdrv_inv]: "pool_inv p \<Longrightarrow> pool_inv (do_act a p)"
  by (cases a) (auto simp: pool_free_spec)

lemma do_act_items: "pool_inv p \<Longrightarrow> pool_items (do_act a p) = pool_items p"
  by (cases a) (auto simp: pool_free_spec)

lemma do_act_max: "pool_inv p \<Longrightarrow> max_entries (do_act a p) = max_entries p"
  by (cases a) (auto simp: pool_free_spec)

lemma do_acts:
  "pool_inv p \<Longrightarrow> pool_inv (fold do_act acts p) \<and> pool_items (fold do_act acts p) = pool_items p \<and>
     max_entries (fold do_act acts p) = max_entries p"
  by (induction acts arbitrary: p) (auto simp: do_act_inv do_act_items do_act_max)

subsection \<open>The round-robin scan\<close>

text \<open>How many steps \<open>INCR\<close> takes from \<open>i\<close> to the cursor.\<close>

definition dist :: "Pool \<Rightarrow> nat \<Rightarrow> nat" where
  "dist p i = (if i \<le> cursor p then cursor p - i else max_entries p - i + cursor p)"

lemma dist_0_iff: "i < max_entries p \<Longrightarrow> dist p i = 0 \<longleftrightarrow> i = cursor p"
  by (auto simp: dist_def)

lemma dist_INCR: "pool_inv p \<Longrightarrow> i < max_entries p \<Longrightarrow> i \<noteq> cursor p \<Longrightarrow> dist p i = Suc (dist p (INCR p i))"
  by (auto simp: dist_def INCR_def pool_inv_def)

lemma dist_start: "pool_inv p \<Longrightarrow> i < max_entries p \<Longrightarrow> dist p i \<le> dist p (INCR p (cursor p))"
  by (auto simp: dist_def INCR_def pool_inv_def)

lemma dist_inj:
  "i < max_entries p \<Longrightarrow> j < max_entries p \<Longrightarrow> cursor p < max_entries p \<Longrightarrow> dist p i = dist p j \<longleftrightarrow> i = j"
  by (auto simp: dist_def split: if_splits)

definition take_entry :: "nat \<Rightarrow> Pool \<Rightarrow> Pool" where
  "take_entry k p = set_reserved True k (p\<lparr>cursor := k\<rparr>)"

text \<open>\<open>next_free p i k\<close>: entry \<open>k\<close> is the first free one met from \<open>i\<close> on, up to the cursor.\<close>

definition next_free :: "Pool \<Rightarrow> nat \<Rightarrow> nat \<Rightarrow> bool" where
  "next_free p i k \<longleftrightarrow> k < max_entries p \<and> \<not> reserved (entries p ! k) \<and> dist p k \<le> dist p i \<and>
     (\<forall>j < max_entries p. \<not> reserved (entries p ! j) \<and> dist p j \<le> dist p i \<longrightarrow> dist p j \<le> dist p k)"

lemma alloc_scan:
  assumes "pool_inv p"
  shows "i < max_entries p \<Longrightarrow>
    (if \<exists>j < max_entries p. \<not> reserved (entries p ! j) \<and> dist p j \<le> dist p i
     then \<exists>k. next_free p i k \<and> alloc_loop p ws i = Some (Some (item (entries p ! k)), take_entry k p)
     else alloc_loop p ws i =
       (case ws of
          Some acts # ws1 \<Rightarrow> let p1 = fold do_act acts p in alloc_loop p1 ws1 (INCR p1 (cursor p))
        | _ \<Rightarrow> Some (None, p)))"
proof (induction "dist p i" arbitrary: i rule: less_induct)
  case less
  have len: "length (entries p) = max_entries p" and c: "cursor p < max_entries p"
    using assms by (auto simp: pool_inv_def)
  show ?case
  proof (cases "reserved (entries p ! i)")
    case False
    then have "next_free p i i" using less.prems by (auto simp: next_free_def)
    moreover have "alloc_loop p ws i = Some (Some (item (entries p ! i)), take_entry i p)"
      using False less.prems len by (subst alloc_loop.simps) (simp add: take_entry_def)
    ultimately show ?thesis using False less.prems by auto
  next
    case True
    show ?thesis
    proof (cases "i = cursor p")
      case True
      have "dist p j \<le> dist p i \<longleftrightarrow> j = i" if "j < max_entries p" for j
        using that True dist_0_iff [of j p] c dist_0_iff [of i p] by auto
      with \<open>reserved (entries p ! i)\<close> True len c show ?thesis
        by (subst (2) alloc_loop.simps) auto
    next
      case False
      let ?i = "INCR p i"
      have d: "dist p i = Suc (dist p ?i)" using dist_INCR [OF assms less.prems False] .
      have same: "\<not> reserved (entries p ! j) \<and> dist p j \<le> dist p i \<longleftrightarrow>
          \<not> reserved (entries p ! j) \<and> dist p j \<le> dist p ?i" if "j < max_entries p" for j
        using that d True dist_inj [OF that less.prems c] by (auto simp: le_Suc_eq)
      have n: "next_free p i k \<longleftrightarrow> next_free p ?i k" for k
        unfolding next_free_def using same by blast
      have l: "alloc_loop p ws i = alloc_loop p ws ?i"
        using True False less.prems len by (subst alloc_loop.simps) simp
      have ex: "(\<exists>j < max_entries p. \<not> reserved (entries p ! j) \<and> dist p j \<le> dist p i) \<longleftrightarrow>
          (\<exists>j < max_entries p. \<not> reserved (entries p ! j) \<and> dist p j \<le> dist p ?i)"
        using same by blast
      have "dist p ?i < dist p i" using d by simp
      from less.hyps [OF this INCR_less [OF assms]] show ?thesis unfolding ex n l .
    qed
  qed
qed

lemma alloc_now:
  assumes "pool_inv p" "pool_avail p \<noteq> {}"
  shows "\<exists>k. next_free p (INCR p (cursor p)) k \<and> pool_alloc p ws = Some (Some (item (entries p ! k)), take_entry k p)"
proof -
  from assms obtain j where "j < max_entries p" "\<not> reserved (entries p ! j)"
    using pool_avail_iff [OF assms(1)] by blast
  with dist_start [OF assms(1)] have "\<exists>j < max_entries p. \<not> reserved (entries p ! j) \<and> dist p j \<le> dist p (INCR p (cursor p))"
    by blast
  with alloc_scan [OF assms(1) INCR_less [OF assms(1)], of "cursor p" ws] show ?thesis
    by (simp add: pool_alloc_def)
qed

lemma take_entry_spec:
  assumes "pool_inv p" "k < max_entries p" "\<not> reserved (entries p ! k)"
  shows "pool_inv (take_entry k p)" "pool_items (take_entry k p) = pool_items p"
    "pool_avail (take_entry k p) = pool_avail p - {item (entries p ! k)}" "item (entries p ! k) \<in> pool_avail p"
  using assms by (auto simp: take_entry_def pool_avail_set_reserved pool_avail_iff)

text \<open>Every allocation returns: it is a sequence of actions of others followed by a timeout or a grant.\<close>

definition alloc_result :: "Pool \<Rightarrow> nat option \<Rightarrow> Pool \<Rightarrow> bool" where
  "alloc_result q r p' \<longleftrightarrow>
     (case r of None \<Rightarrow> p' = q
      | Some x \<Rightarrow> \<exists>k < max_entries q. x = item (entries q ! k) \<and> \<not> reserved (entries q ! k) \<and> p' = take_entry k q)"

lemma alloc_loop_returns:
  "pool_inv p \<Longrightarrow> i < max_entries p \<Longrightarrow>
   \<exists>acts r p'. alloc_loop p ws i = Some (r, p') \<and> alloc_result (fold do_act acts p) r p'"
proof (induction "length ws" arbitrary: ws p i rule: less_induct)
  case less
  note scan = alloc_scan [OF less.prems, of ws]
  show ?case
  proof (cases "\<exists>j < max_entries p. \<not> reserved (entries p ! j) \<and> dist p j \<le> dist p i")
    case True
    with scan obtain k where "next_free p i k"
      "alloc_loop p ws i = Some (Some (item (entries p ! k)), take_entry k p)" by auto
    then show ?thesis
      by (intro exI [of _ "[]"] exI [of _ "Some (item (entries p ! k))"] exI [of _ "take_entry k p"])
        (auto simp: next_free_def alloc_result_def)
  next
    case False
    with scan have l: "alloc_loop p ws i = (case ws of
          Some acts # ws1 \<Rightarrow> let p1 = fold do_act acts p in alloc_loop p1 ws1 (INCR p1 (cursor p))
        | _ \<Rightarrow> Some (None, p))" by simp
    show ?thesis
    proof (cases "\<exists>acts ws1. ws = Some acts # ws1")
      case True
      then obtain acts ws1 where ws: "ws = Some acts # ws1" by blast
      let ?p = "fold do_act acts p"
      have inv: "pool_inv ?p" "max_entries ?p = max_entries p" using do_acts [OF less.prems(1)] by auto
      have "length ws1 < length ws" using ws by simp
      from less.hyps [OF this inv(1) INCR_less [OF inv(1)]] obtain acts2 r p' where
        "alloc_loop ?p ws1 (INCR ?p (cursor p)) = Some (r, p')" "alloc_result (fold do_act acts2 ?p) r p'"
        by blast
      with l ws show ?thesis
        by (intro exI [of _ "acts @ acts2"] exI [of _ r] exI [of _ p']) auto
    next
      case False
      with l show ?thesis
        by (intro exI [of _ "[]"] exI [of _ None] exI [of _ p]) (auto simp: alloc_result_def split: list.splits option.splits)
    qed
  qed
qed

section \<open>The interface of a pool and its clients\<close>

text \<open>
  What the message transport relies on: an allocation always returns, hands out a free item if there is
  one and reports failure only when there is none; a release makes an item of the pool free again.
\<close>

datatype 'i pool_use = Take | Give 'i

text \<open>A client takes items and gives back items it holds.\<close>

fun use_run ::
  "('p \<Rightarrow> ('i option \<times> 'p) option) \<Rightarrow> ('p \<Rightarrow> 'i \<Rightarrow> 'p) \<Rightarrow> 'p \<Rightarrow> 'i list \<Rightarrow> 'i pool_use list \<Rightarrow> ('p \<times> 'i list) option"
where
  "use_run alloc release p held [] = Some (p, held)"
| "use_run alloc release p held (Take # us) =
     (case alloc p of
        None \<Rightarrow> None
      | Some (None, p1) \<Rightarrow> use_run alloc release p1 held us
      | Some (Some x, p1) \<Rightarrow> use_run alloc release p1 (x # held) us)"
| "use_run alloc release p held (Give x # us) =
     (if x \<in> set held then use_run alloc release (release p x) (remove1 x held) us
      else use_run alloc release p held us)"

locale item_pool =
  fixes inv :: "'p \<Rightarrow> bool"
    and items :: "'p \<Rightarrow> 'i set"
    and avail :: "'p \<Rightarrow> 'i set"
    and alloc :: "'p \<Rightarrow> ('i option \<times> 'p) option"
    and release :: "'p \<Rightarrow> 'i \<Rightarrow> 'p"
  assumes avail_items: "inv p \<Longrightarrow> avail p \<subseteq> items p"
    and alloc_law: "inv p \<Longrightarrow> \<exists>r p'. alloc p = Some (r, p') \<and> inv p' \<and> items p' = items p \<and>
      (case r of None \<Rightarrow> avail p = {} \<and> avail p' = {} | Some x \<Rightarrow> x \<in> avail p \<and> avail p' = avail p - {x})"
    and release_law: "inv p \<Longrightarrow> inv (release p x) \<and> items (release p x) = items p \<and>
      avail (release p x) = avail p \<union> ({x} \<inter> items p)"
begin

lemma take_free:
  assumes "inv p" "avail p \<noteq> {}"
  shows "\<exists>x p'. alloc p = Some (Some x, p') \<and> x \<in> avail p \<and> inv p' \<and> avail p' = avail p - {x} \<and> items p' = items p"
  using alloc_law [OF assms(1)] assms(2) by (auto split: option.splits)

lemma take_give:
  assumes "inv p" "alloc p = Some (Some x, p')"
  shows "inv (release p' x) \<and> avail (release p' x) = avail p"
  using alloc_law [OF assms(1)] release_law [of p' x] avail_items [OF assms(1)] assms(2) by auto

lemma run_owned:
  "inv p \<Longrightarrow> distinct held \<Longrightarrow> set held \<inter> avail p = {} \<Longrightarrow> set held \<subseteq> items p \<Longrightarrow>
   \<exists>p' held'. use_run alloc release p held us = Some (p', held') \<and> inv p' \<and> items p' = items p \<and>
     distinct held' \<and> set held' \<inter> avail p' = {} \<and> set held' \<union> avail p' = set held \<union> avail p"
proof (induction us arbitrary: p held)
  case Nil
  then show ?case by auto
next
  case (Cons u us)
  show ?case
  proof (cases u)
    case Take
    from alloc_law [OF Cons.prems(1)] obtain r p1 where a: "alloc p = Some (r, p1)" "inv p1"
      "items p1 = items p" "case r of None \<Rightarrow> avail p = {} \<and> avail p1 = {}
        | Some x \<Rightarrow> x \<in> avail p \<and> avail p1 = avail p - {x}" by blast
    let ?held = "case r of None \<Rightarrow> held | Some x \<Rightarrow> x # held"
    have "distinct ?held" "set ?held \<inter> avail p1 = {}" "set ?held \<subseteq> items p1"
      and u: "set ?held \<union> avail p1 = set held \<union> avail p"
      using a Cons.prems avail_items [OF Cons.prems(1)] by (auto split: option.splits)
    from Cons.IH [OF a(2) this(1-3)] u a Take show ?thesis
      by (auto split: option.splits)
  next
    case (Give x)
    show ?thesis
    proof (cases "x \<in> set held")
      case True
      note r = release_law [OF Cons.prems(1), of x]
      have "distinct (remove1 x held)" "set (remove1 x held) \<inter> avail (release p x) = {}"
        "set (remove1 x held) \<subseteq> items (release p x)"
        and u: "set (remove1 x held) \<union> avail (release p x) = set held \<union> avail p"
        using r Cons.prems True by auto
      from Cons.IH [OF _ this(1-3)] u r Give True show ?thesis by auto
    qed (use Cons Give in auto)
  qed
qed

end

lemma pool_alloc_nowait:
  assumes "pool_inv p"
  shows "\<exists>r p'. pool_alloc p [] = Some (r, p') \<and> pool_inv p' \<and> pool_items p' = pool_items p \<and>
    (case r of None \<Rightarrow> pool_avail p = {} \<and> pool_avail p' = {}
     | Some x \<Rightarrow> x \<in> pool_avail p \<and> pool_avail p' = pool_avail p - {x})"
proof (cases "pool_avail p = {}")
  case True
  then have "\<not> (\<exists>j < max_entries p. \<not> reserved (entries p ! j) \<and> dist p j \<le> dist p (INCR p (cursor p)))"
    using pool_avail_iff [OF assms] by blast
  with alloc_scan [OF assms INCR_less [OF assms], of "cursor p" "[]"] True assms show ?thesis
    by (simp add: pool_alloc_def)
next
  case False
  from alloc_now [OF assms False, of "[]"] obtain k where
    "next_free p (INCR p (cursor p)) k" "pool_alloc p [] = Some (Some (item (entries p ! k)), take_entry k p)"
    by blast
  with take_entry_spec [OF assms, of k] show ?thesis by (auto simp: next_free_def)
qed

lemma pool_avail_subset: "pool_avail p \<subseteq> pool_items p"
  by (auto simp: pool_avail_def pool_items_def)

interpretation mapping_pool:
  item_pool "\<lambda>b. pool_inv (mappings b)" "\<lambda>b. pool_items (mappings b)" "\<lambda>b. pool_avail (mappings b)"
    "\<lambda>b. acq200_pool_alloc_mapping b []" acq200_pool_free_mapping
proof (unfold_locales, goal_cases)
  case (2 p)
  from pool_alloc_nowait [OF this] obtain r q where
    "pool_alloc (mappings p) [] = Some (r, q)" "pool_inv q" "pool_items q = pool_items (mappings p)"
    "case r of None \<Rightarrow> pool_avail (mappings p) = {} \<and> pool_avail q = {}
     | Some x \<Rightarrow> x \<in> pool_avail (mappings p) \<and> pool_avail q = pool_avail (mappings p) - {x}" by blast
  then show ?case
    by (intro exI [of _ r] exI [of _ "p\<lparr>mappings := q\<rparr>"]) (auto simp: acq200_pool_alloc_mapping_def split: option.split)
qed (auto simp: pool_avail_subset acq200_pool_free_mapping_def pool_free_spec)

interpretation handler_pool:
  item_pool "\<lambda>b. pool_inv (handlers b)" "\<lambda>b. pool_items (handlers b)" "\<lambda>b. pool_avail (handlers b)"
    "\<lambda>b. acq200_pool_alloc_rch b []" acq200_pool_free_rch
proof (unfold_locales, goal_cases)
  case (2 p)
  from pool_alloc_nowait [OF this] obtain r q where
    "pool_alloc (handlers p) [] = Some (r, q)" "pool_inv q" "pool_items q = pool_items (handlers p)"
    "case r of None \<Rightarrow> pool_avail (handlers p) = {} \<and> pool_avail q = {}
     | Some x \<Rightarrow> x \<in> pool_avail (handlers p) \<and> pool_avail q = pool_avail (handlers p) - {x}" by blast
  then show ?case
    by (intro exI [of _ r] exI [of _ "p\<lparr>handlers := q\<rparr>"]) (auto simp: acq200_pool_alloc_rch_def split: option.split)
qed (auto simp: pool_avail_subset acq200_pool_free_rch_def pool_free_spec)

section \<open>A fresh pool\<close>

lemma length_fresh [simp]: "length (fresh_entries n) = n"
  by (simp add: fresh_entries_def)

lemma nth_fresh [simp]: "i < n \<Longrightarrow> fresh_entries n ! i = \<lparr>reserved = False, item = i\<rparr>"
  by (simp add: fresh_entries_def)

lemma fresh_pool:
  assumes "entries p = fresh_entries n" "max_entries p = n" "cursor p = 0" "0 < n"
  shows "pool_inv p" "pool_items p = {0..<n}" "pool_avail p = {0..<n}"
proof -
  have m: "map item (entries p) = [0..<n]" by (simp add: assms fresh_entries_def comp_def)
  then show inv: "pool_inv p" using assms by (simp add: pool_inv_def)
  show "pool_items p = {0..<n}" unfolding pool_items_conv m by simp
  show "pool_avail p = {0..<n}" using assms by (force simp: pool_avail_iff [OF inv])
qed

lemma pool_create_mappings:
  assumes "acq200_pool_create km idx bb = Some (b, rchs)"
  shows "pool_inv (mappings b)" "pool_items (mappings b) = {0..<NMAPPINGS}"
    "pool_avail (mappings b) = {0..<NMAPPINGS} - {MSG_MAPPING}"
    "pool_inv (handlers b)" "pool_items (handlers b) = {0..<NHANDLERS}" "pool_avail (handlers b) = {0..<NHANDLERS}"
    "io_mappings b = create_mappings_loop idx bb (dma_buf_len bb div int NMAPPINGS) NMAPPINGS 0 0"
    "rchs = replicate NHANDLERS zeroed_rch"
proof -
  define mp where "mp = \<lparr>max_entries = NMAPPINGS, entries = fresh_entries NMAPPINGS, cursor = 0, pool_name = ''mappings''\<rparr>"
  define hp where "hp = \<lparr>max_entries = NHANDLERS, entries = fresh_entries NHANDLERS, cursor = 0, pool_name = ''handlers''\<rparr>"
  have b: "b = \<lparr>mappings = set_reserved True MSG_MAPPING mp, handlers = hp,
      io_mappings = create_mappings_loop idx bb (dma_buf_len bb div int NMAPPINGS) NMAPPINGS 0 0\<rparr>"
    "rchs = replicate NHANDLERS (rchInit zeroed_rch)"
    using assms by (auto simp: acq200_pool_create_def create_mappings_def create_handlers_def mp_def hp_def
        set_reserved_def Let_def split: if_splits)
  have m: "pool_inv mp" "pool_items mp = {0..<NMAPPINGS}" "pool_avail mp = {0..<NMAPPINGS}"
    using fresh_pool [of mp NMAPPINGS] by (simp_all add: mp_def NMAPPINGS_def)
  have h: "pool_inv hp" "pool_items hp = {0..<NHANDLERS}" "pool_avail hp = {0..<NHANDLERS}"
    using fresh_pool [of hp NHANDLERS] by (simp_all add: hp_def NHANDLERS_def)
  have k: "MSG_MAPPING < max_entries mp" "item (entries mp ! MSG_MAPPING) = MSG_MAPPING"
    by (simp_all add: mp_def MSG_MAPPING_def NMAPPINGS_def)
  show "pool_inv (mappings b)" "pool_items (mappings b) = {0..<NMAPPINGS}"
    "pool_avail (mappings b) = {0..<NMAPPINGS} - {MSG_MAPPING}"
    using m k by (simp_all add: b pool_avail_set_reserved)
  show "pool_inv (handlers b)" "pool_items (handlers b) = {0..<NHANDLERS}" "pool_avail (handlers b) = {0..<NHANDLERS}"
    "io_mappings b = create_mappings_loop idx bb (dma_buf_len bb div int NMAPPINGS) NMAPPINGS 0 0"
    "rchs = replicate NHANDLERS zeroed_rch"
    using h by (simp_all add: b rchInit_def zeroed_rch_def)
qed

section \<open>Where the mappings lie\<close>

lemma create_mappings_loop_nth:
  "i < k \<Longrightarrow> create_mappings_loop idx bb buflen k ii offset ! i =
     mapping_at idx bb buflen (offset + of_nat i * word_of_int buflen) (ii + i)"
proof (induction k arbitrary: ii offset i)
  case (Suc k)
  then show ?case by (cases i) (auto simp: algebra_simps)
qed simp

lemma length_create_mappings_loop [simp]: "length (create_mappings_loop idx bb buflen k ii offset) = k"
  by (induction k arbitrary: ii offset) auto

text \<open>
  A DMA buffer as the page allocator returns it: not null, aligned to its own size and inside the 32-bit
  bus space.
\<close>

definition dma_buf_ok :: "DmaBuf \<Rightarrow> bool" where
  "dma_buf_ok bb \<longleftrightarrow> db_va bb \<noteq> 0 \<and> order bb \<le> 18 \<and> 2 ^ (order bb + 12) dvd unat (db_pa bb) \<and>
     unat (db_pa bb) + 2 ^ (order bb + 12) \<le> 2 ^ 32"

lemma dma_buf_ok_len:
  assumes "dma_buf_ok bb"
  shows "dma_buf_len bb = 2 ^ (order bb + 12)" "dma_buf_len bb div int NMAPPINGS = 2 ^ (order bb + 10)"
proof -
  show l: "dma_buf_len bb = 2 ^ (order bb + 12)"
    using assms by (simp add: dma_buf_ok_def dma_buf_len_def PAGE_SIZE_def power_add)
  show "dma_buf_len bb div int NMAPPINGS = 2 ^ (order bb + 10)"
    unfolding l by (simp add: NMAPPINGS_def power_add)
qed

lemma mapping_pa:
  assumes "dma_buf_ok bb" "ii < NMAPPINGS"
  shows "unat (db_pa bb + of_nat ii * word_of_int (2 ^ (order bb + 10))) =
    unat (db_pa bb) + ii * 2 ^ (order bb + 10)"
    "uint (of_nat ii * word_of_int (2 ^ (order bb + 10)) :: u32) = int ii * 2 ^ (order bb + 10)"
proof -
  have o: "(word_of_int (2 ^ (order bb + 10)) :: u32) = of_nat (2 ^ (order bb + 10))"
    by simp
  have lt: "ii * 2 ^ (order bb + 10) < 2 ^ (order bb + 12)"
    using assms(2) by (simp add: NMAPPINGS_def power_add)
  also have "\<dots> \<le> 2 ^ 30" using assms(1) by (intro power_increasing) (auto simp: dma_buf_ok_def)
  finally have small: "ii * 2 ^ (order bb + 10) < 2 ^ 30" .
  have w: "(of_nat ii * word_of_int (2 ^ (order bb + 10)) :: u32) = of_nat (ii * 2 ^ (order bb + 10))"
    by simp
  have u: "unat (of_nat (ii * 2 ^ (order bb + 10)) :: u32) = ii * 2 ^ (order bb + 10)"
    using small by (subst unat_of_nat) (rule mod_less, simp)
  show "unat (db_pa bb + of_nat ii * word_of_int (2 ^ (order bb + 10))) =
    unat (db_pa bb) + ii * 2 ^ (order bb + 10)"
    unfolding w using u lt assms(1) by (simp add: unat_word_ariths dma_buf_ok_def)
  show "uint (of_nat ii * word_of_int (2 ^ (order bb + 10)) :: u32) = int ii * 2 ^ (order bb + 10)"
    unfolding w uint_nat u by simp
qed

lemma dmabuf_offset:
  assumes "dma_buf_ok bb" "ii < NMAPPINGS" "io_pa m = ucast (db_pa bb + of_nat ii * word_of_int (2 ^ (order bb + 10)))"
  shows "unat (MK_DMABUF_OFFSET m bb) = ii * 2 ^ (order bb + 10)"
proof -
  have "PCI_WINDOW_MASK bb = mask (order bb + 12)"
    by (simp add: PCI_WINDOW_MASK_def dma_buf_ok_len [OF assms(1)] mask_eq_exp_minus_1)
  then have "MK_DMABUF_OFFSET m bb = take_bit (order bb + 12) (io_pa m)"
    by (simp add: MK_DMABUF_OFFSET_def take_bit_eq_mask)
  then have "unat (MK_DMABUF_OFFSET m bb) = unat (io_pa m) mod 2 ^ (order bb + 12)"
    using unsigned_take_bit_eq [of "order bb + 12" "io_pa m", where ?'a = nat] by (simp only: take_bit_eq_mod [where ?'a = nat])
  also have "unat (io_pa m) = unat (db_pa bb) + ii * 2 ^ (order bb + 10)"
    unfolding assms(3) unat_ucast_32_64 by (rule mapping_pa(1) [OF assms(1,2)])
  also have "\<dots> mod 2 ^ (order bb + 12) = ii * 2 ^ (order bb + 10)"
  proof -
    have "ii * 2 ^ (order bb + 10) < 2 ^ (order bb + 12)"
      using assms(2) by (simp add: NMAPPINGS_def power_add)
    moreover have "2 ^ (order bb + 12) dvd unat (db_pa bb)" using assms(1) by (simp add: dma_buf_ok_def)
    ultimately show ?thesis by (simp add: mod_add_left_eq [symmetric] dvd_imp_mod_0)
  qed
  finally show ?thesis .
qed

section \<open>Properties\<close>

lemma alloc_result_spec:
  assumes "pool_inv q" "pool_items q = pool_items p" "alloc_result q r p'"
  shows "pool_inv p' \<and> pool_items p' = pool_items p \<and>
    (case r of None \<Rightarrow> p' = q | Some x \<Rightarrow> x \<in> pool_avail q \<and> pool_avail p' = pool_avail q - {x})"
proof (cases r)
  case None
  with assms show ?thesis by (simp add: alloc_result_def)
next
  case (Some x)
  with assms(3) obtain k where k: "k < max_entries q" "x = item (entries q ! k)" "\<not> reserved (entries q ! k)"
    "p' = take_entry k q" by (auto simp: alloc_result_def)
  from take_entry_spec [OF assms(1) k(1,3)] assms(2) Some k show ?thesis by simp
qed


definition example_pool :: Pool where
  "example_pool = \<lparr>max_entries = 2, entries = [\<lparr>reserved = True, item = 0\<rparr>, \<lparr>reserved = True, item = 1\<rparr>],
     cursor = 0, pool_name = ''mappings''\<rparr>"


text \<open>
  Round robin.  While an item is free the allocation does not sleep: it grants the first free entry
  met after the last one granted, going round once, and moves the cursor there.
\<close>

theorem pool_alloc_round_robin:
  assumes "pool_inv p" "pool_avail p \<noteq> {}"
  shows "\<exists>k < max_entries p. \<not> reserved (entries p ! k) \<and>
    (\<forall>j < max_entries p. reserved (entries p ! j) \<or>
       (k + max_entries p - cursor p - 1) mod max_entries p \<le> (j + max_entries p - cursor p - 1) mod max_entries p) \<and>
    pool_alloc p ws = Some (Some (item (entries p ! k)), (set_reserved True k p)\<lparr>cursor := k\<rparr>)"
proof -
  from alloc_now [OF assms, of ws] obtain k where k: "next_free p (INCR p (cursor p)) k"
    "pool_alloc p ws = Some (Some (item (entries p ! k)), take_entry k p)" by blast
  have c: "cursor p < max_entries p" using assms(1) by (simp add: pool_inv_def)
  have d: "(j + max_entries p - cursor p - 1) mod max_entries p = max_entries p - 1 - dist p j"
    if "j < max_entries p" for j
  proof (cases "j \<le> cursor p")
    case True
    with that c show ?thesis by (simp add: dist_def)
  next
    case False
    then have "j + max_entries p - cursor p - 1 = (j - cursor p - 1) + max_entries p" using c by simp
    then show ?thesis using that False c unfolding dist_def by (simp only: mod_add_self2) simp
  qed
  have "k < max_entries p" "\<not> reserved (entries p ! k)" using k(1) by (auto simp: next_free_def)
  moreover have "reserved (entries p ! j) \<or>
      (k + max_entries p - cursor p - 1) mod max_entries p \<le> (j + max_entries p - cursor p - 1) mod max_entries p"
    if "j < max_entries p" for j
    using k(1) that dist_start [OF assms(1) that] unfolding d [OF that] d [OF \<open>k < max_entries p\<close>]
    by (auto simp: next_free_def intro: diff_le_mono2)
  ultimately show ?thesis using k(2) by (auto simp: take_entry_def)
qed

definition example_pool_free :: Pool where
  "example_pool_free = \<lparr>max_entries = 2, entries = [\<lparr>reserved = False, item = 0\<rparr>, \<lparr>reserved = False, item = 1\<rparr>],
     cursor = 0, pool_name = ''mappings''\<rparr>"

theorem pool_alloc_round_robin_witness:
  "\<exists>k < max_entries example_pool_free. \<not> reserved (entries example_pool_free ! k) \<and>
    (\<forall>j < max_entries example_pool_free. reserved (entries example_pool_free ! j) \<or>
       (k + max_entries example_pool_free - cursor example_pool_free - 1) mod max_entries example_pool_free \<le>
       (j + max_entries example_pool_free - cursor example_pool_free - 1) mod max_entries example_pool_free) \<and>
    pool_alloc example_pool_free [] =
      Some (Some (item (entries example_pool_free ! k)), (set_reserved True k example_pool_free)\<lparr>cursor := k\<rparr>)"
  by (rule pool_alloc_round_robin) (simp_all add: example_pool_free_def pool_inv_def pool_avail_def Collect_disj_eq conj_disj_distribR)

text \<open>
  C3. Ownership of mappings.  From a freshly created pool on, whatever sequence of allocations and releases
  a client makes (it releases what it holds), no mapping is held twice, none that is held is free, every
  mapping is held or free, and the mapping reserved for messages is never handed out.
\<close>

theorem mapping_ownership:
  assumes "acq200_pool_create km idx bb = Some (b, rchs)"
  shows "\<exists>b' held. use_run (\<lambda>b. acq200_pool_alloc_mapping b []) acq200_pool_free_mapping b [] us = Some (b', held) \<and>
    distinct held \<and> set held \<inter> pool_avail (mappings b') = {} \<and>
    set held \<union> pool_avail (mappings b') = {0..<NMAPPINGS} - {MSG_MAPPING}"
  using mapping_pool.run_owned [of b "[]" us] pool_create_mappings [OF assms] by auto

definition example_dma_buf :: DmaBuf where
  "example_dma_buf = \<lparr>order = 8, db_va = 0xc0000000, db_pa = 0x10000000\<rparr>"

definition example_pools :: "BigBufPool \<times> ReturnCommandHandler list" where
  "example_pools = the (acq200_pool_create (replicate 5 True) 1 example_dma_buf)"

lemma example_pools: "acq200_pool_create (replicate 5 True) 1 example_dma_buf = Some (fst example_pools, snd example_pools)"
  by (simp add: example_pools_def acq200_pool_create_def create_mappings_def create_handlers_def Let_def)

theorem mapping_ownership_witness:
  "\<exists>b' held. use_run (\<lambda>b. acq200_pool_alloc_mapping b []) acq200_pool_free_mapping (fst example_pools) []
      [Take, Take, Give 1, Take] = Some (b', held) \<and>
    distinct held \<and> set held \<inter> pool_avail (mappings b') = {} \<and>
    set held \<union> pool_avail (mappings b') = {0..<NMAPPINGS} - {MSG_MAPPING}"
  by (rule mapping_ownership [OF example_pools])

text \<open>
  C14. Ownership of return command handlers: the same accounting for the sixteen handlers, which are all
  free and cleared in a fresh pool.
\<close>

theorem handler_ownership:
  assumes "acq200_pool_create km idx bb = Some (b, rchs)"
  shows "rchs = replicate NHANDLERS zeroed_rch \<and>
    (\<exists>b' held. use_run (\<lambda>b. acq200_pool_alloc_rch b []) acq200_pool_free_rch b [] us = Some (b', held) \<and>
      distinct held \<and> set held \<inter> pool_avail (handlers b') = {} \<and>
      set held \<union> pool_avail (handlers b') = {0..<NHANDLERS})"
  using handler_pool.run_owned [of b "[]" us] pool_create_mappings [OF assms] by auto

theorem handler_ownership_witness:
  "snd example_pools = replicate NHANDLERS zeroed_rch \<and>
    (\<exists>b' held. use_run (\<lambda>b. acq200_pool_alloc_rch b []) acq200_pool_free_rch (fst example_pools) []
        [Take, Take, Give 2] = Some (b', held) \<and>
      distinct held \<and> set held \<inter> pool_avail (handlers b') = {} \<and>
      set held \<union> pool_avail (handlers b') = {0..<NHANDLERS})"
  by (rule handler_ownership [OF example_pools])

text \<open>
  Layout of the mappings.  In an aligned DMA buffer the four mappings are consecutive, equally long
  and fill the buffer exactly, and the offset sent to the card for mapping \<open>ii\<close> is \<open>ii\<close> times their
  length.
\<close>

theorem mappings_tile_buffer:
  assumes "dma_buf_ok bb" "acq200_pool_create km idx bb = Some (b, rchs)" "ii < NMAPPINGS"
  shows "let m = io_mappings b ! ii; len = 2 ^ (order bb + 10) in
    length (io_mappings b) = NMAPPINGS \<and> int NMAPPINGS * len = dma_buf_len bb \<and>
    io_len m = len \<and> io_va m = db_va bb + int ii * len \<and>
    unat (io_pa m) = unat (db_pa bb) + ii * 2 ^ (order bb + 10) \<and>
    unat (MK_DMABUF_OFFSET m bb) = ii * 2 ^ (order bb + 10)"
proof -
  let ?off = "of_nat ii * word_of_int (2 ^ (order bb + 10)) :: u32"
  have m: "io_mappings b ! ii = mapping_at idx bb (2 ^ (order bb + 10)) ?off ii"
    unfolding pool_create_mappings(7) [OF assms(2)] dma_buf_ok_len(2) [OF assms(1)]
      create_mappings_loop_nth [OF assms(3)] by simp
  have pa: "io_pa (io_mappings b ! ii) = ucast (db_pa bb + ?off)" unfolding m by (simp add: mapping_at_def)
  have "unat (io_pa (io_mappings b ! ii)) = unat (db_pa bb) + ii * 2 ^ (order bb + 10)"
    unfolding pa unat_ucast_32_64 by (rule mapping_pa(1) [OF assms(1,3)])
  moreover have "int NMAPPINGS * 2 ^ (order bb + 10) = dma_buf_len bb"
    unfolding dma_buf_ok_len(1) [OF assms(1)] by (simp add: NMAPPINGS_def power_add)
  moreover have "length (io_mappings b) = NMAPPINGS" by (simp add: pool_create_mappings [OF assms(2)])
  ultimately show ?thesis
    using dmabuf_offset [OF assms(1,3) pa] mapping_pa(2) [OF assms(1,3)]
    by (simp add: Let_def m mapping_at_def)
qed

theorem mappings_tile_buffer_witness:
  "let m = io_mappings (fst example_pools) ! 2; len = 2 ^ (order example_dma_buf + 10) in
    length (io_mappings (fst example_pools)) = NMAPPINGS \<and> int NMAPPINGS * len = dma_buf_len example_dma_buf \<and>
    io_len m = len \<and> io_va m = db_va example_dma_buf + int 2 * len \<and>
    unat (io_pa m) = unat (db_pa example_dma_buf) + 2 * 2 ^ (order example_dma_buf + 10) \<and>
    unat (MK_DMABUF_OFFSET m example_dma_buf) = 2 * 2 ^ (order example_dma_buf + 10)"
  by (rule mappings_tile_buffer [OF _ example_pools])
    (simp_all add: dma_buf_ok_def example_dma_buf_def NMAPPINGS_def)

end
