(* ===== verification/I2o_Core.thy ===== *)
theory I2o_Core
  imports Buf_Pool
begin

text \<open>
  The core of the message transport (\<^verbatim>\<open>src/acq200_i2o.c\<close> up to the bottom half, and \<^verbatim>\<open>src/rch.h\<close>): building and
  sending request messages, the list of return command handlers, the handlers themselves, and the path
  of an incoming message frame from the interrupt to its handler and back to the card.

  Hardware is explicit: \<open>iqp\<close> is the card's list of free inbound frames (reading the port pops it, and
  reads all ones when it is empty), \<open>sent\<close> the frames posted with the message copied into them, \<open>oqp\<close>
  the frames handed back.  The contents of an incoming frame are an argument \<open>msg_at\<close>, a function of its
  offset in the DMA buffer.  Wake-ups of a path are recorded in \<open>wakeups\<close>.  An operation that would run
  into a kernel oops is \<open>None\<close>.
\<close>

section \<open>State\<close>

record Acq200Path =
  minor :: u32
  last_direction_hack :: int
  rchAB :: "nat option list"
  bufferMappings :: "IoMapping list"
  ab_next :: nat
  sid :: ulong
  scratch :: MESSAGE

record i2o_dev =
  dma_buf :: DmaBuf
  AB :: "DmaBuf list"
  pool :: BigBufPool
  rchs :: "ReturnCommandHandler list"
  rch_list :: "nat list"
  i2o_packets_incoming :: int
  i2o_packets_returned :: int
  i2o_packets_discarded :: int
  i2o_last_in :: u32
  i2o_packets_outgoing :: int
  i2o_last_id_out :: u16
  aux_mfa :: u32
  aux_task_waiting :: bool
  bad_mfa_count :: u32
  streambuf :: GenericIntBuf
  tasklet :: bool
  paths :: "nat \<Rightarrow> Acq200Path option"
  iqp :: "u32 list"
  sent :: "(u32 \<times> MESSAGE) list"
  oqp :: "u32 list"
  wakeups :: "nat list"

definition LDH_OUTBOUND :: int where "LDH_OUTBOUND = 1"
definition LDH_INBOUND :: int where "LDH_INBOUND = -1"
definition LDH_NONE :: int where "LDH_NONE = 0"
definition EACQ32_NO_INCOMING_I2O :: int where "EACQ32_NO_INCOMING_I2O = 3200"
definition PCI_I2O_INVALID_MFA :: u32 where "PCI_I2O_INVALID_MFA = 0xffffffff"
definition MFA_MASK :: u32 where "MFA_MASK = 0x00ffffff"
definition ACQ200_PCIWINSZ :: u32 where "ACQ200_PCIWINSZ = 0x01000000"
definition ACQ200_PCIWINMSK :: u32 where "ACQ200_PCIWINMSK = ACQ200_PCIWINSZ - 1"

lemmas ldh_defs = LDH_OUTBOUND_def LDH_INBOUND_def LDH_NONE_def

section \<open>Building messages\<close>

definition CHAN :: "Acq200Path \<Rightarrow> u16" where "CHAN path = ucast (minor path AND 0x00ff)"

definition zero_hrdr :: HOST_REQUEST_DATA_RECORD where
  "zero_hrdr = \<lparr>hrd_pci = 0, hrd_start = 0, hrd_nsamples = 0, hrd_chan = 0, hrd_stride = 0\<rparr>"

definition build_hrd_message ::
  "Acq200Path \<Rightarrow> u32 \<Rightarrow> u32 \<Rightarrow> u32 \<Rightarrow> u32 \<Rightarrow> int \<Rightarrow> u16 \<Rightarrow> Acq200Path" where
  "build_hrd_message path pa start len stride outbound cflags =
     (let type = (if outbound = 1 \<or> outbound = -1
                  then MAKE_MT_COMMAND (mtc_val (if 0 < outbound then MTC_HOST_REQUEST_DATA_ACQBOUND
                                                 else MTC_HOST_REQUEST_DATA_HOSTBOUND))
                  else word_of_int outbound);
          hdr = (m_header (scratch path))\<lparr>mh_type := type, mh_length := of_nat (2 * HRDR_SZ)\<rparr>;
          h0 = \<lparr>hrd_pci = pa, hrd_start = start, hrd_nsamples = len, hrd_chan = CHAN path OR cflags,
                hrd_stride = ucast stride\<rparr>
      in path\<lparr>scratch := \<lparr>m_header = hdr, m_hrdr0 = h0, m_hrdr1 = zero_hrdr\<rparr>,
              last_direction_hack := outbound\<rparr>)"

definition build_outgoing_raw_message :: "Acq200Path \<Rightarrow> u32 \<Rightarrow> u32 \<Rightarrow> u32 \<Rightarrow> u16 \<Rightarrow> Acq200Path" where
  "build_outgoing_raw_message path pa start_byte nb cflags =
     build_hrd_message path pa (start_byte div 2) (nb div 2) 1 LDH_OUTBOUND cflags"

definition build_incoming_raw_message :: "Acq200Path \<Rightarrow> u32 \<Rightarrow> u32 \<Rightarrow> u32 \<Rightarrow> u16 \<Rightarrow> Acq200Path" where
  "build_incoming_raw_message path pa start_byte nb cflags =
     build_hrd_message path pa (start_byte div 2) (nb div 2) 1 LDH_INBOUND cflags"

section \<open>Return command handlers\<close>

definition rch_update :: "nat \<Rightarrow> (ReturnCommandHandler \<Rightarrow> ReturnCommandHandler) \<Rightarrow> i2o_dev \<Rightarrow> i2o_dev" where
  "rch_update r f d = d\<lparr>rchs := (rchs d)[r := f (rchs d ! r)]\<rparr>"

text \<open>The id a message sent next will carry.\<close>

definition next_id :: "i2o_dev \<Rightarrow> u16" where
  "next_id d = word_of_int (MAKE_ID_DTACQ (sint (i2o_last_id_out d) + 1))"

definition buildRch :: "nat \<Rightarrow> rch_handler \<Rightarrow> nat \<Rightarrow> kbuf_ptr option \<Rightarrow> u32 \<Rightarrow> i2o_dev \<Rightarrow> i2o_dev" where
  "buildRch r h path kb flags d =
     rch_update r (\<lambda>rch. rch\<lparr>handler := Some h, rch_path := Some path, rch_device := True,
       command_id := next_id d,
       rchReturn := (rchReturn rch)\<lparr>valid := 0, nbytes := 0, kbuf := kb, rr_flags := flags\<rparr>\<rparr>) d"

definition rchInsert :: "nat \<Rightarrow> i2o_dev \<Rightarrow> i2o_dev" where
  "rchInsert r d = d\<lparr>rch_list := r # rch_list d\<rparr>"

definition rchAppend :: "nat \<Rightarrow> i2o_dev \<Rightarrow> i2o_dev" where
  "rchAppend r d = d\<lparr>rch_list := list_add_tail r (rch_list d)\<rparr>"

definition rchRemove :: "nat \<Rightarrow> i2o_dev \<Rightarrow> i2o_dev option" where
  "rchRemove r d =
     do { l \<leftarrow> list_del r (rch_list d);
          Some (rch_update r (\<lambda>rch. rch\<lparr>rch_path := None, handler := None\<rparr>) (d\<lparr>rch_list := l\<rparr>)) }"

definition rchRemoveIfNotValid :: "nat \<Rightarrow> i2o_dev \<Rightarrow> (int \<times> i2o_dev) option" where
  "rchRemoveIfNotValid r d =
     (let v = valid (rchReturn (rchs d ! r)) in
      if v \<noteq> 1 then
        do { l \<leftarrow> (if v < 0 then list_del r (rch_list d) else Some (rch_list d));
             Some (v, rch_update r (\<lambda>rch. rch\<lparr>handler := None\<rparr>) (d\<lparr>rch_list := l\<rparr>)) }
      else Some (v, d))"

definition rchSetSamplesAndGetPath :: "nat \<Rightarrow> u32 \<Rightarrow> u32 \<Rightarrow> i2o_dev \<Rightarrow> nat option \<times> i2o_dev" where
  "rchSetSamplesAndGetPath r rid nsamples d =
     (let d1 = rch_update r (\<lambda>rch. rch\<lparr>rchReturn :=
            (if nsamples = 0xffffffff then (rchReturn rch)\<lparr>valid := -1\<rparr>
             else (rchReturn rch)\<lparr>start_id := rid, nbytes := sint (nsamples * 2), valid := 1\<rparr>)\<rparr>) d
      in (rch_path (rchs d1 ! r), d1))"

section \<open>Sending\<close>

definition path_update :: "nat \<Rightarrow> (Acq200Path \<Rightarrow> Acq200Path) \<Rightarrow> i2o_dev \<Rightarrow> i2o_dev" where
  "path_update p f d = d\<lparr>paths := (paths d)(p := map_option f (paths d p))\<rparr>"

definition set_msg_id :: "u16 \<Rightarrow> MESSAGE \<Rightarrow> MESSAGE" where
  "set_msg_id i msg = msg\<lparr>m_header := (m_header msg)\<lparr>mh_id := i\<rparr>\<rparr>"

text \<open>The message is the one built in the path's scratch area.\<close>

definition acq200_sendI2O_kbuf :: "nat \<Rightarrow> i2o_dev \<Rightarrow> (int \<times> i2o_dev) option" where
  "acq200_sendI2O_kbuf p d =
     (case paths d p of
        None \<Rightarrow> None
      | Some path \<Rightarrow>
          (case iqp d of
             [] \<Rightarrow> Some (- EACQ32_NO_INCOMING_I2O, d)
           | mfa # rest \<Rightarrow>
               if mfa = PCI_I2O_INVALID_MFA then Some (- EACQ32_NO_INCOMING_I2O, d\<lparr>iqp := rest\<rparr>)
               else
                 let msg = set_msg_id (next_id d) (scratch path)
                 in Some (0, (path_update p (\<lambda>q. q\<lparr>scratch := msg\<rparr>) d)
                      \<lparr>iqp := rest, i2o_last_id_out := i2o_last_id_out d + 1,
                       sent := sent d @ [(mfa AND MFA_MASK, msg)],
                       i2o_packets_outgoing := i2o_packets_outgoing d + 1\<rparr>)))"

section \<open>Recycling and the handlers\<close>

definition i2o_recycleRch :: "nat \<Rightarrow> i2o_dev \<Rightarrow> i2o_dev option" where
  "i2o_recycleRch r d =
     do { d1 \<leftarrow> (if rch_path (rchs d ! r) \<noteq> None then rchRemove r d else Some d);
          let rch = rchs d1 ! r;
          d2 \<leftarrow> (case kbuf (rchReturn rch) of
                   Some kb \<Rightarrow>
                     if rr_flags (rchReturn rch) AND RCH_KB_POOL \<noteq> 0 then
                       if rch_device rch then
                         Some (case kb of
                                 PoolMap m \<Rightarrow> d1\<lparr>pool := acq200_pool_free_mapping (pool d1) m\<rparr>
                               | _ \<Rightarrow> d1)
                       else None
                     else Some d1
                 | None \<Rightarrow> Some d1);
          if rch_device rch then Some (d2\<lparr>pool := acq200_pool_free_rch (pool d2) r\<rparr>) else None }"

definition wake_up :: "nat \<Rightarrow> i2o_dev \<Rightarrow> i2o_dev" where
  "wake_up p d = d\<lparr>wakeups := wakeups d @ [p]\<rparr>"

definition i2o_recycleRchWrapper :: "nat \<Rightarrow> MESSAGE \<Rightarrow> i2o_dev \<Rightarrow> i2o_dev option" where
  "i2o_recycleRchWrapper r unused d = i2o_recycleRch r d"

definition i2o_handleReadMessageFile :: "nat \<Rightarrow> MESSAGE \<Rightarrow> i2o_dev \<Rightarrow> i2o_dev option" where
  "i2o_handleReadMessageFile r response d =
     (let (path, d1) = rchSetSamplesAndGetPath r (hrd_start (m_hrdr0 response)) (hrd_nsamples (m_hrdr0 response)) d
      in case path of Some p \<Rightarrow> Some (wake_up p d1) | None \<Rightarrow> i2o_recycleRch r d1)"

definition i2o_handleLastMessage :: "nat \<Rightarrow> MESSAGE \<Rightarrow> i2o_dev \<Rightarrow> i2o_dev option" where
  "i2o_handleLastMessage r response d =
     (let d1 = rch_update r (\<lambda>rch. rch\<lparr>rchReturn := (rchReturn rch)\<lparr>valid := 1\<rparr>\<rparr>) d
      in case rch_path (rchs d1 ! r) of
           None \<Rightarrow> None
         | Some p \<Rightarrow> i2o_recycleRch r (wake_up p d1))"

fun call_handler :: "rch_handler \<Rightarrow> nat \<Rightarrow> MESSAGE \<Rightarrow> i2o_dev \<Rightarrow> i2o_dev option" where
  "call_handler HandleReadMessageFile = i2o_handleReadMessageFile"
| "call_handler RecycleRchWrapper = i2o_recycleRchWrapper"
| "call_handler HandleLastMessage = i2o_handleLastMessage"

section \<open>Incoming frames\<close>

definition acq200_dev_i2o_return_mfa :: "u32 \<Rightarrow> i2o_dev \<Rightarrow> i2o_dev" where
  "acq200_dev_i2o_return_mfa mfa d = d\<lparr>oqp := oqp d @ [mfa]\<rparr>"

definition acq200_dev_i2o_mfa2va :: "u32 \<Rightarrow> u32" where
  "acq200_dev_i2o_mfa2va mfa = mfa AND ACQ200_PCIWINMSK"

definition i2o_return_message :: "u32 \<Rightarrow> i2o_dev \<Rightarrow> i2o_dev" where
  "i2o_return_message mfa d =
     (acq200_dev_i2o_return_mfa mfa d)\<lparr>i2o_packets_returned := i2o_packets_returned d + 1\<rparr>"

text \<open>The first handler in the list whose id is the message's; both are compared as C \<open>int\<close>s.\<close>

definition find_rch :: "i2o_dev \<Rightarrow> u16 \<Rightarrow> nat option" where
  "find_rch d mid = find (\<lambda>r. sint (command_id (rchs d ! r)) = uint mid) (rch_list d)"

definition acq200_processCommandMessageReturn :: "MESSAGE \<Rightarrow> i2o_dev \<Rightarrow> i2o_dev option" where
  "acq200_processCommandMessageReturn message d =
     (case find_rch d (mh_id (m_header message)) of
        Some r \<Rightarrow>
          (case handler (rchs d ! r) of
             Some h \<Rightarrow> call_handler h r message d
           | None \<Rightarrow>
               map_option (\<lambda>d1. d1\<lparr>i2o_packets_discarded := i2o_packets_discarded d1 + 1\<rparr>) (i2o_recycleRch r d))
      | None \<Rightarrow> Some d)"

partial_function (option) acq200_streaming_isr_bh :: "int \<Rightarrow> (u32 \<Rightarrow> MESSAGE) \<Rightarrow> i2o_dev \<Rightarrow> i2o_dev option" where
  "acq200_streaming_isr_bh debug msg_at d =
     (let (mfa, sb) = streamGet (streambuf d); d1 = d\<lparr>streambuf := sb\<rparr> in
      if mfa = STREAM_MFA_INVALID then Some d1
      else
        let message = msg_at (acq200_dev_i2o_mfa2va mfa) in
        if debug = 7 then acq200_streaming_isr_bh debug msg_at (i2o_return_message mfa d1)
        else if MT_ID (mh_type (m_header message)) = MT_COMMAND_PACKET then
          Option.bind (acq200_processCommandMessageReturn message d1)
            (\<lambda>d2. acq200_streaming_isr_bh debug msg_at (i2o_return_message mfa d2))
        else if aux_task_waiting d1 then Some (d1\<lparr>aux_mfa := mfa, aux_task_waiting := False\<rparr>)
        else acq200_streaming_isr_bh debug msg_at
               (i2o_return_message mfa (d1\<lparr>i2o_packets_discarded := i2o_packets_discarded d1 + 1\<rparr>)))"

definition acq200_consume_i2o :: "int \<Rightarrow> u32 \<Rightarrow> i2o_dev \<Rightarrow> i2o_dev" where
  "acq200_consume_i2o debug mfa d =
     (let d0 = d\<lparr>i2o_packets_incoming := i2o_packets_incoming d + 1\<rparr> in
      if debug = 8 then i2o_return_message mfa d0
      else
        let (rc, sb) = streamPut (streambuf d0) mfa; d1 = d0\<lparr>streambuf := sb\<rparr> in
        if rc < 0 then
          (let d2 = i2o_return_message mfa d1 in d2\<lparr>i2o_packets_discarded := i2o_packets_discarded d2 + 1\<rparr>)
        else d1\<lparr>i2o_last_in := mfa, tasklet := True\<rparr>)"

end
