(* ===== verification/I2o_Inv.thy ===== *)
theory I2o_Inv
  imports I2o_Core
begin

text \<open>
  The invariant of the message transport and the bottom half: every listed handler is reserved, belongs
  to a path and owns its mapping alone; incoming frames are processed without an oops whatever the card
  sends, and every frame goes back to the card or to the auxiliary task.
\<close>

section \<open>Invariant\<close>

text \<open>The pool mapping a handler gives back when it is recycled.\<close>

definition held_map :: "ReturnCommandHandler \<Rightarrow> nat option" where
  "held_map rch = (case kbuf (rchReturn rch) of
     Some (PoolMap m) \<Rightarrow> if rr_flags (rchReturn rch) AND RCH_KB_POOL \<noteq> 0 then Some m else None
   | _ \<Rightarrow> None)"

lemma held_map_cong:
  "kbuf (rchReturn a) = kbuf (rchReturn b) \<Longrightarrow> rr_flags (rchReturn a) = rr_flags (rchReturn b) \<Longrightarrow> held_map a = held_map b"
  by (simp only: held_map_def)

definition linked_ok :: "BigBufPool \<Rightarrow> ReturnCommandHandler list \<Rightarrow> nat \<Rightarrow> bool" where
  "linked_ok P R r \<longleftrightarrow> r < length R \<and> r \<notin> pool_avail (handlers P) \<and> rch_path (R ! r) \<noteq> None \<and> rch_device (R ! r) \<and>
     (\<forall>m. held_map (R ! r) = Some m \<longrightarrow> m \<in> pool_items (mappings P) \<and> m \<notin> pool_avail (mappings P))"

definition rch_inv :: "BigBufPool \<Rightarrow> ReturnCommandHandler list \<Rightarrow> nat list \<Rightarrow> bool" where
  "rch_inv P R L \<longleftrightarrow> pool_inv (mappings P) \<and> pool_inv (handlers P) \<and> pool_items (handlers P) = {0..<length R} \<and>
     distinct L \<and> (\<forall>r \<in> set L. linked_ok P R r) \<and>
     (\<forall>r \<in> set L. \<forall>s \<in> set L. \<forall>m. held_map (R ! r) = Some m \<and> held_map (R ! s) = Some m \<longrightarrow> r = s)"

definition stream_ok :: "GenericIntBuf \<Rightarrow> bool" where
  "stream_ok b \<longleftrightarrow> ring_inv NSTREAMBUF b \<and> STREAM_MFA_INVALID \<notin> set (ring_queue NSTREAMBUF b)"

definition i2o_inv :: "i2o_dev \<Rightarrow> bool" where
  "i2o_inv d \<longleftrightarrow> rch_inv (pool d) (rchs d) (rch_list d) \<and> stream_ok (streambuf d)"

lemma rch_inv_linked: "rch_inv P R L \<Longrightarrow> r \<in> set L \<Longrightarrow> linked_ok P R r"
  by (simp add: rch_inv_def)

text \<open>Updating a handler without touching its links and its buffer keeps the invariant.\<close>

lemma rch_inv_update:
  assumes "rch_inv P R L" "rch_path (f (R ! r)) = rch_path (R ! r)" "rch_device (f (R ! r)) = rch_device (R ! r)"
    "held_map (f (R ! r)) = held_map (R ! r)"
  shows "rch_inv P (R[r := f (R ! r)]) L"
proof -
  have eq: "rch_path (R[r := f (R ! r)] ! s) = rch_path (R ! s)" "rch_device (R[r := f (R ! r)] ! s) = rch_device (R ! s)"
    "held_map (R[r := f (R ! r)] ! s) = held_map (R ! s)" if "s < length R" for s
    using assms that by (cases "s = r"; simp)+
  have l: "s < length R" if "s \<in> set L" for s using rch_inv_linked [OF assms(1) that] by (simp add: linked_ok_def)
  from assms(1) show ?thesis
    unfolding rch_inv_def using l by (auto simp: linked_ok_def eq)
qed

section \<open>Recycling a listed handler\<close>

text \<open>The pools after handler \<open>r\<close> and its mapping went back.\<close>

definition give_back :: "nat \<Rightarrow> ReturnCommandHandler \<Rightarrow> BigBufPool \<Rightarrow> BigBufPool" where
  "give_back r rch P =
     acq200_pool_free_rch (case held_map rch of Some m \<Rightarrow> acq200_pool_free_mapping P m | None \<Rightarrow> P) r"

lemma recycle_eq:
  assumes "rch_inv (pool d) (rchs d) (rch_list d)" "r \<in> set (rch_list d)"
  shows "i2o_recycleRch r d = Some (d\<lparr>rch_list := remove1 r (rch_list d),
    rchs := (rchs d)[r := (rchs d ! r)\<lparr>rch_path := None, handler := None\<rparr>],
    pool := give_back r (rchs d ! r) (pool d)\<rparr>)"
proof -
  from rch_inv_linked [OF assms] have "r < length (rchs d)" "rch_path (rchs d ! r) \<noteq> None" "rch_device (rchs d ! r)"
    by (auto simp: linked_ok_def)
  with assms(2) show ?thesis
    by (auto simp: i2o_recycleRch_def rchRemove_def list_del_def rch_update_def give_back_def held_map_def Let_def
        split: option.split kbuf_ptr.split)
qed

lemma give_back_pools:
  assumes "pool_inv (mappings P)" "pool_inv (handlers P)"
  shows "pool_inv (mappings (give_back r rch P))" "pool_inv (handlers (give_back r rch P))"
    "pool_items (mappings (give_back r rch P)) = pool_items (mappings P)"
    "pool_items (handlers (give_back r rch P)) = pool_items (handlers P)"
    "pool_avail (handlers (give_back r rch P)) = pool_avail (handlers P) \<union> ({r} \<inter> pool_items (handlers P))"
    "pool_avail (mappings (give_back r rch P)) =
       (case held_map rch of None \<Rightarrow> pool_avail (mappings P)
        | Some m \<Rightarrow> pool_avail (mappings P) \<union> ({m} \<inter> pool_items (mappings P)))"
  using assms
  by (auto simp: give_back_def acq200_pool_free_rch_def acq200_pool_free_mapping_def pool_free_spec split: option.split)

lemma recycle_inv:
  assumes "rch_inv P R L" "r \<in> set L"
  shows "rch_inv (give_back r (R ! r) P) (R[r := (R ! r)\<lparr>rch_path := None, handler := None\<rparr>]) (remove1 r L)"
proof -
  let ?P = "give_back r (R ! r) P" and ?R = "R[r := (R ! r)\<lparr>rch_path := None, handler := None\<rparr>]"
  from assms(1) have pm: "pool_inv (mappings P)" and ph: "pool_inv (handlers P)"
    and it: "pool_items (handlers P) = {0..<length R}" and dl: "distinct L"
    and lk: "\<And>s. s \<in> set L \<Longrightarrow> linked_ok P R s"
    and ex: "\<And>s t m. s \<in> set L \<Longrightarrow> t \<in> set L \<Longrightarrow> held_map (R ! s) = Some m \<Longrightarrow> held_map (R ! t) = Some m \<Longrightarrow> s = t"
    unfolding rch_inv_def by blast+
  note gb = give_back_pools [OF pm ph, of r "R ! r"]
  have L: "set (remove1 r L) = set L - {r}" using dl by simp
  have k: "linked_ok ?P ?R s" if s: "s \<in> set L" "s \<noteq> r" for s
  proof -
    have ok: "linked_ok P R s" by (rule lk [OF s(1)])
    have "m \<in> pool_items (mappings ?P) \<and> m \<notin> pool_avail (mappings ?P)" if m: "held_map (R ! s) = Some m" for m
    proof -
      from m ok have "m \<in> pool_items (mappings P)" "m \<notin> pool_avail (mappings P)" by (simp_all add: linked_ok_def)
      moreover have "held_map (R ! r) \<noteq> Some m" using ex [OF assms(2) s(1)] m s(2) by auto
      ultimately show ?thesis unfolding gb by (auto split: option.split)
    qed
    with ok s show ?thesis unfolding linked_ok_def gb by auto
  qed
  have h: "held_map (?R ! s) = held_map (R ! s)" if "s \<noteq> r" for s using that by simp
  have "s = t" if "s \<in> set L - {r}" "t \<in> set L - {r}" "held_map (?R ! s) = Some m" "held_map (?R ! t) = Some m" for s t m
    using ex [of s t m] that h by auto
  moreover have "pool_items (handlers P) = {0..<length ?R}" "distinct (remove1 r L)" using it dl by simp_all
  ultimately show ?thesis
    unfolding rch_inv_def L gb(4) using k gb(1,2) by blast
qed

text \<open>What the processing of a message leaves alone.\<close>

definition keeps_io :: "i2o_dev \<Rightarrow> i2o_dev \<Rightarrow> bool" where
  "keeps_io d d' \<longleftrightarrow> streambuf d' = streambuf d \<and> oqp d' = oqp d \<and> i2o_packets_returned d' = i2o_packets_returned d \<and>
     i2o_packets_incoming d' = i2o_packets_incoming d \<and> aux_task_waiting d' = aux_task_waiting d \<and> aux_mfa d' = aux_mfa d \<and>
     iqp d' = iqp d \<and> sent d' = sent d \<and> paths d' = paths d"

lemma recycle_ok:
  assumes "i2o_inv d" "r \<in> set (rch_list d)"
  shows "\<exists>d'. i2o_recycleRch r d = Some d' \<and> i2o_inv d' \<and> keeps_io d d'"
  using recycle_eq [of d r] recycle_inv [of "pool d" "rchs d" "rch_list d" r] assms
  by (simp add: i2o_inv_def keeps_io_def)

lemma recycle_frees:
  assumes "i2o_inv f" "r \<in> set (rch_list f)"
  obtains d' where "i2o_recycleRch r f = Some d'" "i2o_inv d'" "keeps_io f d'" "rch_list d' = remove1 r (rch_list f)"
    "pool_avail (handlers (pool d')) = insert r (pool_avail (handlers (pool f)))"
    "pool_avail (mappings (pool d')) = pool_avail (mappings (pool f)) \<union> set_option (held_map (rchs f ! r))"
    "\<And>s. s \<noteq> r \<Longrightarrow> rchs d' ! s = rchs f ! s"
proof -
  have inv: "rch_inv (pool f) (rchs f) (rch_list f)" using assms(1) by (simp add: i2o_inv_def)
  from rch_inv_linked [OF inv assms(2)] have r: "r < length (rchs f)"
    "\<And>m. held_map (rchs f ! r) = Some m \<Longrightarrow> m \<in> pool_items (mappings (pool f))" by (auto simp: linked_ok_def)
  have p: "pool_inv (mappings (pool f))" "pool_inv (handlers (pool f))" "pool_items (handlers (pool f)) = {0..<length (rchs f)}"
    using inv by (simp_all add: rch_inv_def)
  note g = give_back_pools [OF p(1,2), of r "rchs f ! r"]
  show thesis
    by (rule that [OF recycle_eq [OF inv assms(2)]])
      (use recycle_inv [OF inv assms(2)] assms(1) r g(5,6) p(3) in \<open>auto simp: i2o_inv_def keeps_io_def split: option.split\<close>)
qed

section \<open>Handlers and the bottom half\<close>

lemma rch_update_inv:
  assumes "i2o_inv d" "\<And>rch. rch_path (f rch) = rch_path rch" "\<And>rch. rch_device (f rch) = rch_device rch"
    "\<And>rch. held_map (f rch) = held_map rch"
  shows "i2o_inv (rch_update r f d)" "keeps_io d (rch_update r f d)" "rch_list (rch_update r f d) = rch_list d"
  using assms rch_inv_update [of "pool d" "rchs d" "rch_list d" f r] by (simp_all add: i2o_inv_def rch_update_def keeps_io_def)

lemma wake_up_inv [simp]:
  "i2o_inv (wake_up p d) = i2o_inv d" "rch_list (wake_up p d) = rch_list d" "keeps_io d (wake_up p d') = keeps_io d d'"
  "keeps_io (wake_up p d) d' = keeps_io d d'"
  by (simp_all add: wake_up_def i2o_inv_def keeps_io_def)

lemma keeps_io_trans: "keeps_io a b \<Longrightarrow> keeps_io b c \<Longrightarrow> keeps_io a c"
  by (simp add: keeps_io_def)

lemma linked_path: "i2o_inv d \<Longrightarrow> r \<in> set (rch_list d) \<Longrightarrow> \<exists>p. rch_path (rchs d ! r) = Some p"
  by (auto simp: i2o_inv_def linked_ok_def dest: rch_inv_linked)

lemma handler_ok:
  assumes "i2o_inv d" "r \<in> set (rch_list d)"
  shows "\<exists>d'. call_handler h r msg d = Some d' \<and> i2o_inv d' \<and> keeps_io d d'"
proof (cases h)
  case HandleReadMessageFile
  let ?f = "\<lambda>rch. rch\<lparr>rchReturn := (if hrd_nsamples (m_hrdr0 msg) = 0xffffffff then (rchReturn rch)\<lparr>valid := -1\<rparr>
     else (rchReturn rch)\<lparr>start_id := hrd_start (m_hrdr0 msg), nbytes := sint (hrd_nsamples (m_hrdr0 msg) * 2), valid := 1\<rparr>)\<rparr>"
  have u: "i2o_inv (rch_update r ?f d)" "keeps_io d (rch_update r ?f d)" "rch_list (rch_update r ?f d) = rch_list d"
    by (rule rch_update_inv; (rule held_map_cong)?; simp add: assms)+
  moreover obtain p where "rch_path (rchs (rch_update r ?f d) ! r) = Some p"
    using linked_path [OF u(1), of r] assms(2) u(3) by auto
  ultimately show ?thesis
    using HandleReadMessageFile by (simp add: i2o_handleReadMessageFile_def rchSetSamplesAndGetPath_def Let_def)
next
  case RecycleRchWrapper
  with recycle_ok [OF assms] show ?thesis by (simp add: i2o_recycleRchWrapper_def)
next
  case HandleLastMessage
  let ?f = "\<lambda>rch. rch\<lparr>rchReturn := (rchReturn rch)\<lparr>valid := 1\<rparr>\<rparr>"
  have u: "i2o_inv (rch_update r ?f d)" "keeps_io d (rch_update r ?f d)" "rch_list (rch_update r ?f d) = rch_list d"
    by (rule rch_update_inv; (rule held_map_cong)?; simp add: assms)+
  obtain p where p: "rch_path (rchs (rch_update r ?f d) ! r) = Some p"
    using linked_path [OF u(1), of r] assms(2) u(3) by auto
  from recycle_ok [of "wake_up p (rch_update r ?f d)" r] u assms(2) obtain d' where
    "i2o_recycleRch r (wake_up p (rch_update r ?f d)) = Some d'" "i2o_inv d'" "keeps_io (wake_up p (rch_update r ?f d)) d'"
    by auto
  with HandleLastMessage p u(2) show ?thesis
    by (auto simp: i2o_handleLastMessage_def Let_def intro: keeps_io_trans)
qed

lemma process_ok:
  assumes "i2o_inv d"
  shows "\<exists>d'. acq200_processCommandMessageReturn msg d = Some d' \<and> i2o_inv d' \<and> keeps_io d d'"
proof (cases "find_rch d (mh_id (m_header msg))")
  case None
  then show ?thesis using assms by (simp add: acq200_processCommandMessageReturn_def keeps_io_def)
next
  case (Some r)
  then have r: "r \<in> set (rch_list d)" by (auto simp: find_rch_def find_Some_iff in_set_conv_nth)
  show ?thesis
  proof (cases "handler (rchs d ! r)")
    case None
    from recycle_ok [OF assms r] Some None show ?thesis
      by (auto simp: acq200_processCommandMessageReturn_def i2o_inv_def keeps_io_def)
  next
    case (Some h)
    with \<open>find_rch d (mh_id (m_header msg)) = Some r\<close> handler_ok [OF assms r, of h msg] show ?thesis
      by (simp add: acq200_processCommandMessageReturn_def)
  qed
qed

lemma return_message_inv [simp]:
  "i2o_inv (i2o_return_message mfa d) = i2o_inv d" "streambuf (i2o_return_message mfa d) = streambuf d"
  "oqp (i2o_return_message mfa d) = oqp d @ [mfa]" "i2o_packets_returned (i2o_return_message mfa d) = i2o_packets_returned d + 1"
  "i2o_packets_incoming (i2o_return_message mfa d) = i2o_packets_incoming d"
  "aux_task_waiting (i2o_return_message mfa d) = aux_task_waiting d" "aux_mfa (i2o_return_message mfa d) = aux_mfa d"
  by (simp_all add: i2o_return_message_def acq200_dev_i2o_return_mfa_def i2o_inv_def)

text \<open>
  What the bottom half does to the frames: it returns all queued frames, or those up to the first one the
  auxiliary task waits for, which it hands over.
\<close>

definition bh_frames :: "i2o_dev \<Rightarrow> i2o_dev \<Rightarrow> bool" where
  "bh_frames d d' \<longleftrightarrow>
     (\<exists>xs. oqp d' = oqp d @ xs \<and> i2o_packets_returned d' = i2o_packets_returned d + int (length xs) \<and>
        i2o_packets_incoming d' = i2o_packets_incoming d \<and>
        (ring_queue NSTREAMBUF (streambuf d) = xs \<and> ring_queue NSTREAMBUF (streambuf d') = [] \<and>
           aux_task_waiting d' = aux_task_waiting d \<and> aux_mfa d' = aux_mfa d \<or>
         aux_task_waiting d \<and> \<not> aux_task_waiting d' \<and>
           ring_queue NSTREAMBUF (streambuf d) = xs @ aux_mfa d' # ring_queue NSTREAMBUF (streambuf d')))"

lemma bh_frames_step:
  assumes "bh_frames e d'" "ring_queue NSTREAMBUF (streambuf d) = x # ring_queue NSTREAMBUF (streambuf e)"
    "oqp e = oqp d @ [x]" "i2o_packets_returned e = i2o_packets_returned d + 1"
    "i2o_packets_incoming e = i2o_packets_incoming d" "aux_task_waiting e = aux_task_waiting d" "aux_mfa e = aux_mfa d"
  shows "bh_frames d d'"
proof -
  from assms(1) obtain xs where x: "oqp d' = oqp e @ xs" "i2o_packets_returned d' = i2o_packets_returned e + int (length xs)"
    "i2o_packets_incoming d' = i2o_packets_incoming e"
    "ring_queue NSTREAMBUF (streambuf e) = xs \<and> ring_queue NSTREAMBUF (streambuf d') = [] \<and>
       aux_task_waiting d' = aux_task_waiting e \<and> aux_mfa d' = aux_mfa e \<or>
     aux_task_waiting e \<and> \<not> aux_task_waiting d' \<and>
       ring_queue NSTREAMBUF (streambuf e) = xs @ aux_mfa d' # ring_queue NSTREAMBUF (streambuf d')"
    unfolding bh_frames_def by blast
  show ?thesis
    unfolding bh_frames_def using x assms(2-) by (intro exI [of _ "x # xs"]) auto
qed

text \<open>One turn of the loop: either it ends by handing the frame to the auxiliary task, or it goes on with the frame returned.\<close>

lemma bh_turn:
  assumes "i2o_inv d" "ring_queue NSTREAMBUF (streambuf d) = x # xs"
  obtains (handed) d' where "acq200_streaming_isr_bh debug msg_at d = Some d'" "i2o_inv d'" "bh_frames d d'"
  | (returned) sb e where "acq200_streaming_isr_bh debug msg_at d = acq200_streaming_isr_bh debug msg_at (i2o_return_message x e)"
      "i2o_inv e" "keeps_io (d\<lparr>streambuf := sb\<rparr>) e" "ring_queue NSTREAMBUF sb = xs"
proof -
  obtain sb where g: "streamGet (streambuf d) = (x, sb)" "ring_queue NSTREAMBUF sb = xs" "ring_inv NSTREAMBUF sb"
    using stream.get_cons [OF _ assms(2)] assms(1) by (cases "streamGet (streambuf d)") (auto simp: i2o_inv_def stream_ok_def)
  have xv: "x \<noteq> STREAM_MFA_INVALID" using assms by (auto simp: i2o_inv_def stream_ok_def)
  let ?d = "d\<lparr>streambuf := sb\<rparr>" and ?msg = "msg_at (acq200_dev_i2o_mfa2va x)"
  have inv: "i2o_inv ?d" using assms g by (simp add: i2o_inv_def stream_ok_def)
  note step = acq200_streaming_isr_bh.simps [of debug msg_at d, unfolded g(1) Let_def prod.case, simplified xv if_False]
  consider "debug = 7" | (cmd) "debug \<noteq> 7" "MT_ID (mh_type (m_header ?msg)) = MT_COMMAND_PACKET"
    | (aux) "debug \<noteq> 7" "MT_ID (mh_type (m_header ?msg)) \<noteq> MT_COMMAND_PACKET" "aux_task_waiting d"
    | (other) "debug \<noteq> 7" "MT_ID (mh_type (m_header ?msg)) \<noteq> MT_COMMAND_PACKET" "\<not> aux_task_waiting d" by blast
  then show thesis
  proof cases
    case 1
    with step show thesis by (intro returned [of ?d sb] inv g) (simp_all add: keeps_io_def)
  next
    case cmd
    from process_ok [OF inv, of ?msg] obtain e where
      "acq200_processCommandMessageReturn ?msg ?d = Some e" "i2o_inv e" "keeps_io ?d e" by blast
    with step cmd show thesis by (intro returned [of e sb] g) simp_all
  next
    case aux
    with step inv show thesis using assms(2) g(2) 
      by (intro handed [of "?d\<lparr>aux_mfa := x, aux_task_waiting := False\<rparr>"]) (simp_all add: bh_frames_def i2o_inv_def)
  next
    case other
    with step inv show thesis
      by (intro returned [of "?d\<lparr>i2o_packets_discarded := i2o_packets_discarded ?d + 1\<rparr>" sb] g) (simp_all add: keeps_io_def i2o_inv_def)
  qed
qed

lemma bh_ok:
  "i2o_inv d \<Longrightarrow> \<exists>d'. acq200_streaming_isr_bh debug msg_at d = Some d' \<and> i2o_inv d' \<and> bh_frames d d'"
proof (induction "length (ring_queue NSTREAMBUF (streambuf d))" arbitrary: d)
  case 0
  then have q: "ring_queue NSTREAMBUF (streambuf d) = []" by (metis length_0_conv)
  with 0 have "streamGet (streambuf d) = (STREAM_MFA_INVALID, streambuf d)"
    using stream.get_nil [of "streambuf d"] by (simp add: i2o_inv_def stream_ok_def)
  then have "acq200_streaming_isr_bh debug msg_at d = Some d"
    by (subst acq200_streaming_isr_bh.simps) simp
  with 0 q show ?case by (simp add: bh_frames_def)
next
  case (Suc n)
  then obtain x xs where q: "ring_queue NSTREAMBUF (streambuf d) = x # xs" by (cases "ring_queue NSTREAMBUF (streambuf d)") auto
  show ?case
  proof (cases rule: bh_turn [OF Suc.prems q, of debug msg_at, case_names handed returned])
    case (returned sb e)
    have "n = length (ring_queue NSTREAMBUF (streambuf (i2o_return_message x e)))"
      using Suc.hyps(2) q returned(3,4) by (simp add: keeps_io_def)
    from Suc.hyps(1) [OF this] returned(2) obtain d' where
      d': "acq200_streaming_isr_bh debug msg_at (i2o_return_message x e) = Some d'" "i2o_inv d'" "bh_frames (i2o_return_message x e) d'" by auto
    have "bh_frames d d'" by (rule bh_frames_step [OF d'(3)]) (use q returned(3,4) in \<open>simp_all add: keeps_io_def\<close>)
    with d' returned(1) show ?thesis by simp
  qed blast
qed

section \<open>Properties\<close>

definition example_path :: Acq200Path where
  "example_path = \<lparr>minor = 3, last_direction_hack = 0, rchAB = [None, None], bufferMappings = [], ab_next = 0, sid = 0,
     scratch = \<lparr>m_header = \<lparr>mh_id = 0, mh_length = 0, mh_type = 0\<rparr>, m_hrdr0 = zero_hrdr, m_hrdr1 = zero_hrdr\<rparr>\<rparr>"

definition example_dev :: i2o_dev where
  "example_dev = \<lparr>dma_buf = example_dma_buf, AB = [], pool = fst example_pools, rchs = snd example_pools, rch_list = [],
     i2o_packets_incoming = 0, i2o_packets_returned = 0, i2o_packets_discarded = 0, i2o_last_in = 0,
     i2o_packets_outgoing = 0, i2o_last_id_out = 0, aux_mfa = 0, aux_task_waiting = False, bad_mfa_count = 0,
     streambuf = streamBufInit empty_ring, tasklet = False, paths = (\<lambda>p. if p = 0 then Some example_path else None),
     iqp = [0x100, 0x500], sent = [], oqp = [], wakeups = []\<rparr>"

lemma example_dev_inv: "i2o_inv example_dev" "ring_queue NSTREAMBUF (streambuf example_dev) = []"
proof -
  have r: "ring_inv NSTREAMBUF (streambuf example_dev)" "ring_queue NSTREAMBUF (streambuf example_dev) = []"
    using ring_init [of empty_ring 7] length_empty_ring
    by (simp_all add: example_dev_def streamBufInit_def NSTREAMBUF_def)
  show "ring_queue NSTREAMBUF (streambuf example_dev) = []" by (rule r)
  show "i2o_inv example_dev"
    using r pool_create_mappings [OF example_pools]
    by (auto simp: i2o_inv_def stream_ok_def rch_inv_def example_dev_def)
qed

text \<open>
  C8. The bottom half.  Whatever the card put into the queued frames, the bottom half ends without an oops
  and keeps the invariant; it hands every queued frame back to the card in order, unless the auxiliary task
  waits: then it stops at the first frame meant for that task, hands that one over and leaves the rest
  queued.
\<close>

theorem bottom_half_total:
  assumes "i2o_inv d"
  shows "\<exists>d' xs. acq200_streaming_isr_bh debug msg_at d = Some d' \<and> i2o_inv d' \<and>
    oqp d' = oqp d @ xs \<and> i2o_packets_returned d' = i2o_packets_returned d + int (length xs) \<and>
    (ring_queue NSTREAMBUF (streambuf d) = xs \<and> ring_queue NSTREAMBUF (streambuf d') = [] \<or>
     aux_task_waiting d \<and> \<not> aux_task_waiting d' \<and>
       ring_queue NSTREAMBUF (streambuf d) = xs @ aux_mfa d' # ring_queue NSTREAMBUF (streambuf d'))"
proof -
  from bh_ok [OF assms, of debug msg_at] obtain d' where
    "acq200_streaming_isr_bh debug msg_at d = Some d'" "i2o_inv d'" "bh_frames d d'" by blast
  then show ?thesis unfolding bh_frames_def by blast
qed

theorem bottom_half_total_witness:
  "\<exists>d' xs. acq200_streaming_isr_bh 0 (\<lambda>_. scratch example_path) example_dev = Some d' \<and> i2o_inv d' \<and>
    oqp d' = oqp example_dev @ xs \<and> i2o_packets_returned d' = i2o_packets_returned example_dev + int (length xs) \<and>
    (ring_queue NSTREAMBUF (streambuf example_dev) = xs \<and> ring_queue NSTREAMBUF (streambuf d') = [] \<or>
     aux_task_waiting example_dev \<and> \<not> aux_task_waiting d' \<and>
       ring_queue NSTREAMBUF (streambuf example_dev) = xs @ aux_mfa d' # ring_queue NSTREAMBUF (streambuf d'))"
  by (rule bottom_half_total) (rule example_dev_inv(1))

text \<open>
  Recycling a listed handler.  The handler leaves the list, and exactly it and the pool mapping it
  holds become free again; no other handler is touched and the invariant is kept.
\<close>

theorem recycle_returns_resources:
  assumes "i2o_inv d" "r \<in> set (rch_list d)"
  shows "\<exists>d'. i2o_recycleRch r d = Some d' \<and> i2o_inv d' \<and> rch_list d' = remove1 r (rch_list d) \<and>
    pool_avail (handlers (pool d')) = insert r (pool_avail (handlers (pool d))) \<and>
    pool_avail (mappings (pool d')) = pool_avail (mappings (pool d)) \<union> set_option (held_map (rchs d ! r)) \<and>
    (\<forall>s. s \<noteq> r \<longrightarrow> rchs d' ! s = rchs d ! s)"
  by (rule recycle_frees [OF assms]) blast

definition example_listed :: i2o_dev where
  "example_listed = rchAppend 1 (buildRch 1 HandleReadMessageFile 0 (Some (PoolMap 1)) RCH_KB_POOL
     (example_dev\<lparr>pool := \<lparr>mappings = take_entry 1 (mappings (fst example_pools)),
       handlers = take_entry 1 (handlers (fst example_pools)), io_mappings = io_mappings (fst example_pools)\<rparr>\<rparr>))"

lemma example_listed_inv: "i2o_inv example_listed" "rch_list example_listed = [1]"
proof -
  note p = pool_create_mappings [OF example_pools]
  have e: "entries (mappings (fst example_pools)) ! 1 = \<lparr>reserved = False, item = 1\<rparr>" "max_entries (mappings (fst example_pools)) = 4"
    "entries (handlers (fst example_pools)) ! 1 = \<lparr>reserved = False, item = 1\<rparr>" "max_entries (handlers (fst example_pools)) = 16"
    by (simp_all add: example_pools_def acq200_pool_create_def create_mappings_def create_handlers_def Let_def
        MSG_MAPPING_def NMAPPINGS_def NHANDLERS_def)
  have tm: "pool_inv (take_entry 1 (mappings (fst example_pools)))"
    "pool_items (take_entry 1 (mappings (fst example_pools))) = {0..<4}"
    "pool_avail (take_entry 1 (mappings (fst example_pools))) = {0, 2}"
    using take_entry_spec [OF p(1), of 1] e p(2,3) by (auto simp: NMAPPINGS_def MSG_MAPPING_def)
  have th: "pool_inv (take_entry 1 (handlers (fst example_pools)))"
    "pool_items (take_entry 1 (handlers (fst example_pools))) = {0..<16}"
    "1 \<notin> pool_avail (take_entry 1 (handlers (fst example_pools)))"
    using take_entry_spec [OF p(4), of 1] e p(5,6) by (auto simp: NHANDLERS_def)
  show "rch_list example_listed = [1]"
    by (simp add: example_listed_def rchAppend_def list_add_tail_def buildRch_def rch_update_def example_dev_def)
  show "i2o_inv example_listed"
    using tm th example_dev_inv p(8)
    by (simp add: example_listed_def rchAppend_def list_add_tail_def buildRch_def rch_update_def example_dev_def
        i2o_inv_def rch_inv_def linked_ok_def held_map_def RCH_KB_POOL_def NHANDLERS_def)
qed

theorem recycle_returns_resources_witness:
  "\<exists>d'. i2o_recycleRch 1 example_listed = Some d' \<and> i2o_inv d' \<and> rch_list d' = remove1 1 (rch_list example_listed) \<and>
    pool_avail (handlers (pool d')) = insert 1 (pool_avail (handlers (pool example_listed))) \<and>
    pool_avail (mappings (pool d')) = pool_avail (mappings (pool example_listed)) \<union> set_option (held_map (rchs example_listed ! 1)) \<and>
    (\<forall>s. s \<noteq> 1 \<longrightarrow> rchs d' ! s = rchs example_listed ! s)"
  by (rule recycle_returns_resources) (simp_all add: example_listed_inv)

end
