(* ===== verification/I2o_Bridge.thy ===== *)
theory I2o_Bridge
  imports I2o_Inv
begin

text \<open>
  The file operations of the message bridge (\<^verbatim>\<open>src/acq200_i2o.c\<close>): read, write, the swinging buffers A and B,
  and release.  A process that sleeps gives way to the interrupt side and to other processes: what they do
  is the argument \<open>sleep\<close> (and \<open>ws\<close>, \<open>wm\<close> for the sleeps of the pool allocators).  Copies between user
  space and the DMA buffers are results: the buffer and the number of bytes.  \<open>None\<close> is an oops, or a call
  that never returns.
\<close>

section \<open>Parameters and buffers\<close>

definition BUFFERA :: nat where "BUFFERA = 0"
definition BUFFERB :: nat where "BUFFERB = 1"
definition BUFFER_A_FLAG :: u32 where "BUFFER_A_FLAG = 1"
definition BUFFER_B_FLAG :: u32 where "BUFFER_B_FLAG = 2"
definition BUFFER_FLAG_LUT :: "u32 list" where "BUFFER_FLAG_LUT = [1, 2]"
definition FULL_EOF :: u32 where "FULL_EOF = 0x80000000"

record BufferAB_Ops =
  ci_recycle :: u32
  ci_timeout :: u32
  ds_full :: u32
  ds_sid :: "u32 list"
  ds_len :: "u32 list"

definition mapping_of :: "i2o_dev \<Rightarrow> kbuf_ptr \<Rightarrow> IoMapping" where
  "mapping_of d kb = (case kb of
     PoolMap m \<Rightarrow> io_mappings (pool d) ! m
   | PathMap p i \<Rightarrow> bufferMappings (the (paths d p)) ! i
   | StackMap m \<Rightarrow> m)"

definition free_kbuf :: "kbuf_ptr \<Rightarrow> i2o_dev \<Rightarrow> i2o_dev" where
  "free_kbuf kb d = (case kb of PoolMap m \<Rightarrow> d\<lparr>pool := acq200_pool_free_mapping (pool d) m\<rparr> | _ \<Rightarrow> d)"

type_synonym copies = "(kbuf_ptr \<times> int) list"

definition alloc_rch :: "wakes \<Rightarrow> i2o_dev \<Rightarrow> (nat option \<times> i2o_dev) option" where
  "alloc_rch ws d = map_option (\<lambda>(r, P). (r, d\<lparr>pool := P\<rparr>)) (acq200_pool_alloc_rch (pool d) ws)"

definition alloc_mapping :: "wakes \<Rightarrow> i2o_dev \<Rightarrow> (nat option \<times> i2o_dev) option" where
  "alloc_mapping ws d = map_option (\<lambda>(r, P). (r, d\<lparr>pool := P\<rparr>)) (acq200_pool_alloc_mapping (pool d) ws)"

section \<open>Read\<close>

text \<open>From the building of the message to the sleep: \<open>pam\<close> is the address sent to the card.\<close>

definition post_read :: "nat \<Rightarrow> int \<Rightarrow> int \<Rightarrow> u16 \<Rightarrow> kbuf_ptr \<Rightarrow> u32 \<Rightarrow> u32 \<Rightarrow> nat \<Rightarrow> i2o_dev \<Rightarrow> i2o_dev option" where
  "post_read p count posp hrd_code kb pam flags r d =
     (let d1 = path_update p (\<lambda>path. build_incoming_raw_message path pam (word_of_int posp) (word_of_int count) hrd_code) d;
          d2 = rchAppend r (buildRch r HandleReadMessageFile p (Some kb) flags d1)
      in map_option snd (acq200_sendI2O_kbuf p d2))"

text \<open>From the sleep on.\<close>

definition finish_read :: "int \<Rightarrow> nat \<Rightarrow> i2o_dev \<Rightarrow> (int \<times> int \<times> copies \<times> i2o_dev) option" where
  "finish_read posp r d =
     do { (v, d1) \<leftarrow> rchRemoveIfNotValid r d;
          if v = 1 then
            let count = nbytes (rchReturn (rchs d1 ! r)) in
            (case kbuf (rchReturn (rchs d1 ! r)) of
               None \<Rightarrow> None
             | Some kb \<Rightarrow> do { d2 \<leftarrow> i2o_recycleRch r d1; Some (count, posp + count, [(kb, count)], d2) })
          else if v = 0 then Some (- EINTR, posp, [], d1)
          else do { d2 \<leftarrow> i2o_recycleRch r d1; Some (- EFAULT, posp, [], d2) } }"

definition acq200_bridge_read_generic ::
  "nat \<Rightarrow> int \<Rightarrow> int \<Rightarrow> u16 \<Rightarrow> IoMapping option \<Rightarrow> wakes \<Rightarrow> wakes \<Rightarrow> (i2o_dev \<Rightarrow> i2o_dev) \<Rightarrow> i2o_dev \<Rightarrow>
   (int \<times> int \<times> copies \<times> i2o_dev) option" where
  "acq200_bridge_read_generic p count posp hrd_code mapping ws wm sleep d =
     do { (r0, d1) \<leftarrow> alloc_rch ws d;
          case r0 of
            None \<Rightarrow> Some (- ETIMEDOUT, posp, [], d1)
          | Some r \<Rightarrow>
              do { (k0, d2) \<leftarrow> (case mapping of
                       Some m \<Rightarrow> Some (Some (StackMap m), d1)
                     | None \<Rightarrow> map_option (\<lambda>(k, e). (map_option PoolMap k, e)) (alloc_mapping wm d1));
                   case k0 of
                     None \<Rightarrow> do { d3 \<leftarrow> i2o_recycleRch r d2; Some (- ETIMEDOUT, posp, [], d3) }
                   | Some kb \<Rightarrow>
                       let m = mapping_of d2 kb;
                           pam = (if mapping = None then ucast (MK_DMABUF_OFFSET m (dma_buf d2)) else ucast (io_pa m));
                           flags = (if mapping = None then RCH_KB_POOL else 0) in
                       if io_len m = 0 then
                         do { d3 \<leftarrow> i2o_recycleRch r d2; Some (- ENOMEM, posp, [], free_kbuf kb d3) }
                       else
                         do { d3 \<leftarrow> post_read p (min count (io_len m)) posp hrd_code kb pam flags r d2;
                              finish_read posp r (sleep d3) } } }"

definition acq200_bridge_read ::
  "nat \<Rightarrow> int \<Rightarrow> int \<Rightarrow> wakes \<Rightarrow> wakes \<Rightarrow> (i2o_dev \<Rightarrow> i2o_dev) \<Rightarrow> i2o_dev \<Rightarrow> (int \<times> int \<times> copies \<times> i2o_dev) option" where
  "acq200_bridge_read p count posp ws wm sleep d =
     acq200_bridge_read_generic p count posp HRD_CHAN_IS_FILE None ws wm sleep d"

definition acq200_bridge_readAB ::
  "int \<Rightarrow> nat \<Rightarrow> int \<Rightarrow> int \<Rightarrow> wakes \<Rightarrow> wakes \<Rightarrow> (i2o_dev \<Rightarrow> i2o_dev) \<Rightarrow> i2o_dev \<Rightarrow> (int \<times> int \<times> copies \<times> i2o_dev) option"
where
  "acq200_bridge_readAB user_max_buf p count posp ws wm sleep d =
     (let b = AB d ! 0;
          m = \<lparr>io_va = db_va b, io_pa = ucast (db_pa b), io_len = min (dma_buf_len b) user_max_buf, io_name = ''''\<rparr>
      in acq200_bridge_read_generic p count posp (HRD_CHAN_IS_FILE OR HRD_ABS_PCI) (Some m) ws wm sleep d)"

section \<open>Write\<close>

definition acq200_bridge_write_generic ::
  "nat \<Rightarrow> int \<Rightarrow> int \<Rightarrow> u16 \<Rightarrow> wakes \<Rightarrow> wakes \<Rightarrow> i2o_dev \<Rightarrow> (int \<times> int \<times> copies \<times> i2o_dev) option" where
  "acq200_bridge_write_generic p count posp hrd_code ws wm d =
     do { (r0, d1) \<leftarrow> alloc_rch ws d;
          case r0 of
            None \<Rightarrow> Some (- ETIMEDOUT, posp, [], d1)
          | Some r \<Rightarrow>
              do { (k0, d2) \<leftarrow> alloc_mapping wm d1;
                   case k0 of
                     None \<Rightarrow> do { d3 \<leftarrow> i2o_recycleRch r d2; Some (- ETIMEDOUT, posp, [], d3) }
                   | Some k \<Rightarrow>
                       let m = mapping_of d2 (PoolMap k);
                           pam = ucast (MK_DMABUF_OFFSET m (dma_buf d2));
                           count1 = min count (io_len m) in
                       if count1 = 0 then Some (- ENOMEM, posp, [], d2)
                       else
                         let d3 = path_update p (\<lambda>path. build_outgoing_raw_message path pam (word_of_int posp)
                                    (word_of_int count1) hrd_code) d2;
                             d4 = rchAppend r (buildRch r RecycleRchWrapper p (Some (PoolMap k)) RCH_KB_POOL d3)
                         in do { (rc, d5) \<leftarrow> acq200_sendI2O_kbuf p d4;
                                 Some (count1, posp + count1, [(PoolMap k, count1)], d5) } } }"

definition acq200_bridge_write ::
  "nat \<Rightarrow> int \<Rightarrow> int \<Rightarrow> wakes \<Rightarrow> wakes \<Rightarrow> i2o_dev \<Rightarrow> (int \<times> int \<times> copies \<times> i2o_dev) option" where
  "acq200_bridge_write p count posp ws wm d =
     acq200_bridge_write_generic p count posp HRD_CHAN_IS_FILE ws wm d"

section \<open>Buffers A and B\<close>

definition recycle_AB :: "nat \<Rightarrow> nat \<Rightarrow> i2o_dev \<Rightarrow> i2o_dev option" where
  "recycle_AB p ibuf d =
     do { path \<leftarrow> paths d p;
          case rchAB path ! ibuf of
            None \<Rightarrow> Some d
          | Some r \<Rightarrow>
              do { d1 \<leftarrow> i2o_recycleRch r d;
                   Some (path_update p (\<lambda>q. q\<lparr>rchAB := (rchAB q)[ibuf := None]\<rparr>) d1) } }"

definition acq200_bufferABrecycle :: "nat \<Rightarrow> BufferAB_Ops \<Rightarrow> i2o_dev \<Rightarrow> i2o_dev option" where
  "acq200_bufferABrecycle p ops d =
     do { d1 \<leftarrow> (if ci_recycle ops AND BUFFER_A_FLAG \<noteq> 0 then recycle_AB p BUFFERA d else Some d);
          (if ci_recycle ops AND BUFFER_B_FLAG \<noteq> 0 then recycle_AB p BUFFERB d1 else Some d1) }"

definition fillDeviceStatus :: "nat \<Rightarrow> BufferAB_Ops \<Rightarrow> i2o_dev \<Rightarrow> (int \<times> BufferAB_Ops \<times> i2o_dev) option" where
  "fillDeviceStatus p ops d =
     do { path \<leftarrow> paths d p;
          let buffer = ab_next path;
          r \<leftarrow> rchAB path ! buffer;
          let rr = rchReturn (rchs d ! r);
          if valid rr \<noteq> 0 then
            (let full1 = ds_full ops OR BUFFER_FLAG_LUT ! buffer;
                 full2 = (if nbytes rr = 0 then full1 OR FULL_EOF else full1)
             in Some (1, ops\<lparr>ds_full := full2, ds_sid := (ds_sid ops)[buffer := start_id rr],
                         ds_len := (ds_len ops)[buffer := word_of_int (nbytes rr)]\<rparr>,
                      path_update p (\<lambda>q. q\<lparr>ab_next := (if buffer = BUFFERA then BUFFERB else BUFFERA)\<rparr>) d))
          else Some (0, ops, d) }"

definition acq200_bufferAB_queue :: "int \<Rightarrow> nat \<Rightarrow> nat \<Rightarrow> wakes \<Rightarrow> i2o_dev \<Rightarrow> i2o_dev option" where
  "acq200_bufferAB_queue user_max_buf p buffer ws d =
     do { (r0, d1) \<leftarrow> alloc_rch ws d;
          path \<leftarrow> paths d1 p;
          r \<leftarrow> r0;
          let b = AB d1 ! buffer;
          let len = min (dma_buf_len b) user_max_buf;
          let d2 = path_update p (\<lambda>q. (build_hrd_message (q\<lparr>rchAB := (rchAB q)[buffer := Some r]\<rparr>) (db_pa b)
                     (ucast (sid q)) (word_of_int (len div 2)) 1 LDH_INBOUND
                     (HRD_CHAN_IS_FILE OR HRD_ABS_PCI OR HRD_READ_NEXT))\<lparr>sid := sid q + 1\<rparr>) d1;
          let d3 = rchAppend r (buildRch r HandleReadMessageFile p (Some (PathMap p buffer)) 0 d2);
          (rc, d4) \<leftarrow> acq200_sendI2O_kbuf p d3;
          Some d4 }"

text \<open>\<open>wait\<close> is the timed wait: its result and what happened meanwhile.\<close>

definition acq200_bufferABaction ::
  "int \<Rightarrow> nat \<Rightarrow> BufferAB_Ops \<Rightarrow> wakes \<Rightarrow> wakes \<Rightarrow> (i2o_dev \<Rightarrow> int \<times> i2o_dev) \<Rightarrow> i2o_dev \<Rightarrow>
   (int \<times> BufferAB_Ops \<times> i2o_dev) option" where
  "acq200_bufferABaction user_max_buf p ops wsA wsB wait d =
     do { d1 \<leftarrow> acq200_bufferABrecycle p ops d;
          path1 \<leftarrow> paths d1 p;
          d2 \<leftarrow> (if rchAB path1 ! BUFFERA = None then acq200_bufferAB_queue user_max_buf p BUFFERA wsA d1 else Some d1);
          path2 \<leftarrow> paths d2 p;
          d3 \<leftarrow> (if rchAB path2 ! BUFFERB = None then acq200_bufferAB_queue user_max_buf p BUFFERB wsB d2 else Some d2);
          let (rc, d4) = wait d3;
          if rc = 0 then Some (- ETIMEDOUT, ops, d4)
          else if rc < 0 then Some (rc, ops, d4)
          else
            do { (got, ops1, d5) \<leftarrow> fillDeviceStatus p (ops\<lparr>ds_full := 0\<rparr>) d4;
                 (if got \<noteq> 0 then do { (got2, ops2, d6) \<leftarrow> fillDeviceStatus p ops1 d5; Some (0, ops2, d6) }
                  else Some (0, ops1, d5)) } }"

section \<open>Release\<close>

text \<open>Recycling from the head of the list as long as a handler of the path is found.\<close>

partial_function (option) cleanup_on_bridge_release :: "nat \<Rightarrow> i2o_dev \<Rightarrow> i2o_dev option" where
  "cleanup_on_bridge_release p d =
     (case find (\<lambda>r. rch_path (rchs d ! r) = Some p) (rch_list d) of
        None \<Rightarrow> Some d
      | Some r \<Rightarrow> Option.bind (i2o_recycleRch r d) (\<lambda>d1. cleanup_on_bridge_release p d1))"

text \<open>The allocation is retried until it succeeds, one list of wake-ups per attempt.\<close>

fun alloc_rch_retry :: "wakes list \<Rightarrow> i2o_dev \<Rightarrow> (nat \<times> i2o_dev) option" where
  "alloc_rch_retry [] d = None"
| "alloc_rch_retry (ws # wss) d =
     (case alloc_rch ws d of
        None \<Rightarrow> None
      | Some (Some r, d1) \<Rightarrow> Some (r, d1)
      | Some (None, d1) \<Rightarrow> alloc_rch_retry wss d1)"

definition acq200_deletePath :: "nat \<Rightarrow> i2o_dev \<Rightarrow> i2o_dev" where
  "acq200_deletePath p d = d\<lparr>paths := (paths d)(p := None)\<rparr>"

text \<open>The message is in the path's scratch area; the path is deleted by the final \<open>acq200_release\<close>.\<close>

definition acq200_bridge_release_message ::
  "nat \<Rightarrow> wakes list \<Rightarrow> (i2o_dev \<Rightarrow> i2o_dev) \<Rightarrow> i2o_dev \<Rightarrow> (int \<times> i2o_dev) option" where
  "acq200_bridge_release_message p wss sleep d =
     do { (r, d1) \<leftarrow> alloc_rch_retry wss d;
          let d2 = rchAppend r (buildRch r HandleLastMessage p None RCH_KB_POOL d1);
          (rc, d3) \<leftarrow> acq200_sendI2O_kbuf p d2;
          let d4 = sleep d3;
          d5 \<leftarrow> (if valid (rchReturn (rchs d4 ! r)) = 1 then i2o_recycleRch r d4 else Some d4);
          d6 \<leftarrow> cleanup_on_bridge_release p d5;
          Some (0, acq200_deletePath p d6) }"

definition acq200_bridge_release_generic ::
  "nat \<Rightarrow> u16 \<Rightarrow> wakes list \<Rightarrow> (i2o_dev \<Rightarrow> i2o_dev) \<Rightarrow> i2o_dev \<Rightarrow> (int \<times> i2o_dev) option" where
  "acq200_bridge_release_generic p hrd_code wss sleep d =
     do { path \<leftarrow> paths d p;
          if last_direction_hack path = LDH_OUTBOUND then
            acq200_bridge_release_message p wss sleep
              (path_update p (\<lambda>q. build_outgoing_raw_message q 0 0 0 (hrd_code OR HRD_CHAN_EOF)) d)
          else if last_direction_hack path = LDH_INBOUND then
            acq200_bridge_release_message p wss sleep
              (path_update p (\<lambda>q. build_incoming_raw_message q 0 0 0 (hrd_code OR HRD_CHAN_EOF)) d)
          else do { d1 \<leftarrow> cleanup_on_bridge_release p d; Some (0, acq200_deletePath p d1) } }"

definition acq200_bridge_release :: "nat \<Rightarrow> wakes list \<Rightarrow> (i2o_dev \<Rightarrow> i2o_dev) \<Rightarrow> i2o_dev \<Rightarrow> (int \<times> i2o_dev) option" where
  "acq200_bridge_release p wss sleep d = acq200_bridge_release_generic p HRD_CHAN_IS_FILE wss sleep d"

section \<open>Taking resources\<close>

lemma next_id_value: "sint (next_id d) = uint (next_id d)"
  by (simp add: next_id_def make_id_signed_unsigned)

lemma linked_not_avail: "rch_inv P R L \<Longrightarrow> r \<in> set L \<Longrightarrow> r \<notin> pool_avail (handlers P)"
  by (auto simp: linked_ok_def dest: rch_inv_linked)

text \<open>Reserving free entries keeps the invariant.\<close>

lemma rch_inv_take_handler:
  assumes "rch_inv P R L" "pool_inv Q" "pool_items Q = pool_items (handlers P)" "pool_avail Q \<subseteq> pool_avail (handlers P)"
  shows "rch_inv (P\<lparr>handlers := Q\<rparr>) R L"
proof -
  have "linked_ok (P\<lparr>handlers := Q\<rparr>) R r" if "r \<in> set L" for r
    using rch_inv_linked [OF assms(1) that] assms(4) by (auto simp: linked_ok_def)
  then show ?thesis using assms by (simp add: rch_inv_def)
qed

lemma rch_inv_take_mapping:
  assumes "rch_inv P R L" "pool_inv Q" "pool_items Q = pool_items (mappings P)" "pool_avail Q \<subseteq> pool_avail (mappings P)"
  shows "rch_inv (P\<lparr>mappings := Q\<rparr>) R L"
proof -
  have "linked_ok (P\<lparr>mappings := Q\<rparr>) R r" if "r \<in> set L" for r
    using rch_inv_linked [OF assms(1) that] assms(3,4) by (auto simp: linked_ok_def)
  then show ?thesis using assms by (simp add: rch_inv_def)
qed

lemma pool_alloc_now:
  assumes "pool_inv p" "pool_avail p \<noteq> {}"
  shows "\<exists>k q. pool_alloc p ws = Some (Some k, q) \<and> k \<in> pool_avail p \<and> pool_inv q \<and> pool_items q = pool_items p \<and>
    pool_avail q = pool_avail p - {k}"
proof -
  from alloc_now [OF assms, of ws] obtain i where
    "next_free p (INCR p (cursor p)) i" "pool_alloc p ws = Some (Some (item (entries p ! i)), take_entry i p)" by blast
  with take_entry_spec [OF assms(1), of i] show ?thesis by (auto simp: next_free_def)
qed

lemma alloc_rch_now:
  assumes "i2o_inv d" "pool_avail (handlers (pool d)) \<noteq> {}"
  obtains r Q where "alloc_rch ws d = Some (Some r, d\<lparr>pool := (pool d)\<lparr>handlers := Q\<rparr>\<rparr>)"
    "r \<in> pool_avail (handlers (pool d))" "r < length (rchs d)" "r \<notin> set (rch_list d)"
    "pool_inv Q" "pool_items Q = pool_items (handlers (pool d))" "pool_avail Q = pool_avail (handlers (pool d)) - {r}"
    "i2o_inv (d\<lparr>pool := (pool d)\<lparr>handlers := Q\<rparr>\<rparr>)"
proof -
  have inv: "rch_inv (pool d) (rchs d) (rch_list d)" "pool_inv (handlers (pool d))"
    "pool_items (handlers (pool d)) = {0..<length (rchs d)}"
    using assms(1) by (simp_all add: i2o_inv_def rch_inv_def)
  from pool_alloc_now [OF inv(2) assms(2), of ws] obtain r Q where
    q: "pool_alloc (handlers (pool d)) ws = Some (Some r, Q)" "r \<in> pool_avail (handlers (pool d))" "pool_inv Q"
    "pool_items Q = pool_items (handlers (pool d))" "pool_avail Q = pool_avail (handlers (pool d)) - {r}" by blast
  have "r < length (rchs d)" using q(2) pool_avail_subset [of "handlers (pool d)"] inv(3) by auto
  moreover have "r \<notin> set (rch_list d)" using linked_not_avail [OF inv(1)] q(2) by blast
  moreover have "i2o_inv (d\<lparr>pool := (pool d)\<lparr>handlers := Q\<rparr>\<rparr>)"
    using rch_inv_take_handler [OF inv(1) q(3,4)] q(5) assms(1) by (auto simp: i2o_inv_def)
  ultimately show ?thesis
    using q that [of r Q] by (simp add: alloc_rch_def acq200_pool_alloc_rch_def)
qed

lemma alloc_mapping_now:
  assumes "i2o_inv d" "pool_avail (mappings (pool d)) \<noteq> {}"
  obtains k Q where "alloc_mapping ws d = Some (Some k, d\<lparr>pool := (pool d)\<lparr>mappings := Q\<rparr>\<rparr>)"
    "k \<in> pool_avail (mappings (pool d))"
    "pool_inv Q" "pool_items Q = pool_items (mappings (pool d))" "pool_avail Q = pool_avail (mappings (pool d)) - {k}"
    "i2o_inv (d\<lparr>pool := (pool d)\<lparr>mappings := Q\<rparr>\<rparr>)"
proof -
  have inv: "rch_inv (pool d) (rchs d) (rch_list d)" "pool_inv (mappings (pool d))"
    using assms(1) by (simp_all add: i2o_inv_def rch_inv_def)
  from pool_alloc_now [OF inv(2) assms(2), of ws] obtain k Q where
    q: "pool_alloc (mappings (pool d)) ws = Some (Some k, Q)" "k \<in> pool_avail (mappings (pool d))" "pool_inv Q"
    "pool_items Q = pool_items (mappings (pool d))" "pool_avail Q = pool_avail (mappings (pool d)) - {k}" by blast
  have "i2o_inv (d\<lparr>pool := (pool d)\<lparr>mappings := Q\<rparr>\<rparr>)"
    using rch_inv_take_mapping [OF inv(1) q(3,4)] q(5) assms(1) by (auto simp: i2o_inv_def)
  with q that [of k Q] show ?thesis by (simp add: alloc_mapping_def acq200_pool_alloc_mapping_def)
qed

section \<open>Listing a handler\<close>

lemma rch_inv_append:
  assumes "rch_inv P R L" "r < length R" "r \<notin> pool_avail (handlers P)" "r \<notin> set L"
    "rch_path rch \<noteq> None" "rch_device rch"
    "\<And>m. held_map rch = Some m \<Longrightarrow> m \<in> pool_items (mappings P) \<and> m \<notin> pool_avail (mappings P) \<and>
       (\<forall>s \<in> set L. held_map (R ! s) \<noteq> Some m)"
  shows "rch_inv P (R[r := rch]) (L @ [r])"
proof -
  from assms(1) have pl: "pool_inv (mappings P)" "pool_inv (handlers P)" "pool_items (handlers P) = {0..<length R}"
    and dl: "distinct L" and lk: "\<And>s. s \<in> set L \<Longrightarrow> linked_ok P R s"
    and ex: "\<And>s t m. s \<in> set L \<Longrightarrow> t \<in> set L \<Longrightarrow> held_map (R ! s) = Some m \<Longrightarrow> held_map (R ! t) = Some m \<Longrightarrow> s = t"
    unfolding rch_inv_def by blast+
  have same: "R[r := rch] ! s = R ! s" if "s \<in> set L" for s using that assms(4) by (metis nth_list_update_neq)
  have "linked_ok P (R[r := rch]) s" if "s \<in> set (L @ [r])" for s
  proof (cases "s = r")
    case True
    then show ?thesis using assms by (simp add: linked_ok_def)
  next
    case False
    with that have s: "s \<in> set L" by simp
    from lk [OF s] show ?thesis unfolding linked_ok_def same [OF s] by simp
  qed
  moreover have "s = t" if "s \<in> set (L @ [r])" "t \<in> set (L @ [r])" "held_map (R[r := rch] ! s) = Some m"
    "held_map (R[r := rch] ! t) = Some m" for s t m
  proof -
    have "s \<in> set L \<Longrightarrow> t \<in> set L \<Longrightarrow> s = t" using ex [of s t m] that same by simp
    moreover have False if "s = r" "t \<in> set L"
      using assms(7) [of m] \<open>held_map (R[r := rch] ! s) = Some m\<close> \<open>held_map (R[r := rch] ! t) = Some m\<close> that assms(2) same by auto
    moreover have False if "t = r" "s \<in> set L"
      using assms(7) [of m] \<open>held_map (R[r := rch] ! s) = Some m\<close> \<open>held_map (R[r := rch] ! t) = Some m\<close> that assms(2) same by auto
    ultimately show ?thesis using that(1,2) by auto
  qed
  ultimately show ?thesis
    unfolding rch_inv_def using pl dl assms(4) by (simp del: set_append)
qed

text \<open>A send touches neither the handlers nor the pools.\<close>

lemma send_frame:
  assumes "acq200_sendI2O_kbuf p d = Some (rc, d')"
  shows "pool d' = pool d" "rchs d' = rchs d" "rch_list d' = rch_list d" "streambuf d' = streambuf d" "oqp d' = oqp d"
    "dma_buf d' = dma_buf d" "AB d' = AB d"
  using assms by (auto simp: acq200_sendI2O_kbuf_def path_update_def Let_def split: option.splits list.splits if_splits)

lemma send_path: "paths d p = Some path \<Longrightarrow> \<exists>rc d'. acq200_sendI2O_kbuf p d = Some (rc, d')"
  by (auto simp: acq200_sendI2O_kbuf_def Let_def split: list.split)

definition listed_rch :: "i2o_dev \<Rightarrow> nat \<Rightarrow> rch_handler \<Rightarrow> nat \<Rightarrow> kbuf_ptr option \<Rightarrow> u32 \<Rightarrow> ReturnCommandHandler" where
  "listed_rch d r h p kb flags = (rchs d ! r)\<lparr>handler := Some h, rch_path := Some p, rch_device := True,
     command_id := next_id d,
     rchReturn := (rchReturn (rchs d ! r))\<lparr>valid := 0, nbytes := 0, kbuf := kb, rr_flags := flags\<rparr>\<rparr>"

lemma list_and_send:
  assumes "i2o_inv d" "r < length (rchs d)" "r \<notin> pool_avail (handlers (pool d))" "r \<notin> set (rch_list d)"
    "paths d p = Some path"
    "\<And>m. held_map (listed_rch d r h p kb flags) = Some m \<Longrightarrow> m \<in> pool_items (mappings (pool d)) \<and>
       m \<notin> pool_avail (mappings (pool d)) \<and> (\<forall>s \<in> set (rch_list d). held_map (rchs d ! s) \<noteq> Some m)"
  obtains rc d' where "acq200_sendI2O_kbuf p (rchAppend r (buildRch r h p kb flags d)) = Some (rc, d')"
    "i2o_inv d'" "rch_list d' = rch_list d @ [r]" "rchs d' = (rchs d)[r := listed_rch d r h p kb flags]"
    "pool d' = pool d" "streambuf d' = streambuf d" "oqp d' = oqp d"
    "\<And>mfa rest. iqp d = mfa # rest \<Longrightarrow> mfa \<noteq> PCI_I2O_INVALID_MFA \<Longrightarrow>
       rc = 0 \<and> sent d' = sent d @ [(mfa AND MFA_MASK, set_msg_id (next_id d) (scratch path))] \<and>
       i2o_last_id_out d' = i2o_last_id_out d + 1"
    "iqp d = [] \<Longrightarrow> sent d' = sent d \<and> i2o_last_id_out d' = i2o_last_id_out d"
proof -
  let ?e = "rchAppend r (buildRch r h p kb flags d)"
  have e: "rchs ?e = (rchs d)[r := listed_rch d r h p kb flags]" "rch_list ?e = rch_list d @ [r]" "pool ?e = pool d"
    "streambuf ?e = streambuf d" "oqp ?e = oqp d" "paths ?e p = Some path" "iqp ?e = iqp d" "sent ?e = sent d"
    "next_id ?e = next_id d" "i2o_last_id_out ?e = i2o_last_id_out d"
    using assms(5)
    by (simp_all add: rchAppend_def list_add_tail_def buildRch_def rch_update_def listed_rch_def next_id_def)
  from send_path [OF e(6)] obtain rc d' where s: "acq200_sendI2O_kbuf p ?e = Some (rc, d')" by blast
  have "i2o_inv d'"
    using rch_inv_append [of "pool d" "rchs d" "rch_list d" r "listed_rch d r h p kb flags"] assms send_frame [OF s]
    by (simp add: i2o_inv_def e) (simp add: listed_rch_def)
  moreover have "rc = 0 \<and> sent d' = sent d @ [(mfa AND MFA_MASK, set_msg_id (next_id d) (scratch path))] \<and>
      i2o_last_id_out d' = i2o_last_id_out d + 1" if "iqp d = mfa # rest" "mfa \<noteq> PCI_I2O_INVALID_MFA" for mfa rest
    using s that by (auto simp: acq200_sendI2O_kbuf_def e Let_def)
  moreover have "sent d' = sent d \<and> i2o_last_id_out d' = i2o_last_id_out d" if "iqp d = []"
    using s that e by (auto simp: acq200_sendI2O_kbuf_def)
  ultimately show ?thesis
    using that [OF s] send_frame [OF s] e by auto
qed

section \<open>A reply finds its handler\<close>

lemma find_rch_last:
  assumes "rch_list d = L @ [r]" "\<And>s. s \<in> set L \<Longrightarrow> command_id (rchs d ! s) \<noteq> i"
    "command_id (rchs d ! r) = i" "sint i = uint i"
  shows "find_rch d i = Some r"
proof -
  have ne: "sint (command_id (rchs d ! s)) \<noteq> uint i" if "s \<in> set L" for s
    using assms(2) [OF that] assms(4) by (metis signed_word_eqI)
  then have "find (\<lambda>s. sint (command_id (rchs d ! s)) = uint i) L = None"
    by (simp add: find_None_iff)
  then have "find (\<lambda>s. sint (command_id (rchs d ! s)) = uint i) (L @ [r]) = Some r"
    using assms(3,4) by (induction L) auto
  then show ?thesis by (simp add: find_rch_def assms(1))
qed

text \<open>The device after the reply to a read has been delivered to handler \<open>r\<close> of path \<open>p\<close>.\<close>

definition replied :: "nat \<Rightarrow> nat \<Rightarrow> MESSAGE \<Rightarrow> i2o_dev \<Rightarrow> i2o_dev" where
  "replied r p reply e = wake_up p (rch_update r (\<lambda>rch. rch\<lparr>rchReturn := (rchReturn rch)
     \<lparr>start_id := hrd_start (m_hrdr0 reply), nbytes := sint (hrd_nsamples (m_hrdr0 reply) * 2), valid := 1\<rparr>\<rparr>) e)"

lemma deliver_read_reply:
  assumes "i2o_inv e" "find_rch e (mh_id (m_header reply)) = Some r" "handler (rchs e ! r) = Some HandleReadMessageFile"
    "rch_path (rchs e ! r) = Some p" "hrd_nsamples (m_hrdr0 reply) \<noteq> 0xffffffff" "r < length (rchs e)"
  shows "acq200_processCommandMessageReturn reply e = Some (replied r p reply e)"
  using assms
  by (simp add: acq200_processCommandMessageReturn_def i2o_handleReadMessageFile_def rchSetSamplesAndGetPath_def
      rch_update_def replied_def Let_def)

lemma replied_inv:
  assumes "i2o_inv e"
  shows "i2o_inv (replied r p reply e)" "rch_list (replied r p reply e) = rch_list e" "pool (replied r p reply e) = pool e"
    "sent (replied r p reply e) = sent e" "held_map (rchs (replied r p reply e) ! r) = held_map (rchs e ! r)"
    "streambuf (replied r p reply e) = streambuf e" "oqp (replied r p reply e) = oqp e"
proof -
  show "i2o_inv (replied r p reply e)"
    unfolding replied_def wake_up_inv by (rule rch_update_inv(1); (rule held_map_cong)?; simp add: assms)
  show "held_map (rchs (replied r p reply e) ! r) = held_map (rchs e ! r)"
    by (cases "r < length (rchs e)"; rule held_map_cong) (simp_all add: replied_def wake_up_def rch_update_def list_update_beyond)
qed (simp_all add: replied_def wake_up_def rch_update_def)

lemma finish_read_answered:
  assumes "i2o_inv f" "r \<in> set (rch_list f)" "valid (rchReturn (rchs f ! r)) = 1" "nbytes (rchReturn (rchs f ! r)) = c"
    "kbuf (rchReturn (rchs f ! r)) = Some kb"
  obtains d' where "finish_read posp r f = Some (c, posp + c, [(kb, c)], d')" "i2o_inv d'" "keeps_io f d'"
    "rch_list d' = remove1 r (rch_list f)" "pool_avail (handlers (pool d')) = insert r (pool_avail (handlers (pool f)))"
    "pool_avail (mappings (pool d')) = pool_avail (mappings (pool f)) \<union> set_option (held_map (rchs f ! r))"
proof (rule recycle_frees [OF assms(1,2)])
  fix d'
  assume d': "i2o_recycleRch r f = Some d'" "i2o_inv d'" "keeps_io f d'" "rch_list d' = remove1 r (rch_list f)"
    "pool_avail (handlers (pool d')) = insert r (pool_avail (handlers (pool f)))"
    "pool_avail (mappings (pool d')) = pool_avail (mappings (pool f)) \<union> set_option (held_map (rchs f ! r))"
  show thesis
    by (rule that [of d']) (use d' assms(3-5) in \<open>simp_all add: finish_read_def rchRemoveIfNotValid_def Let_def\<close>)
qed

section \<open>Properties\<close>

text \<open>The ids of the listed handlers all differ from the id the next message will carry.\<close>

definition fresh_id :: "i2o_dev \<Rightarrow> bool" where
  "fresh_id d \<longleftrightarrow> (\<forall>r \<in> set (rch_list d). command_id (rchs d ! r) \<noteq> next_id d)"

definition mappings_nonempty :: "i2o_dev \<Rightarrow> bool" where
  "mappings_nonempty d \<longleftrightarrow> (\<forall>m \<in> pool_items (mappings (pool d)). 0 < io_len (io_mappings (pool d) ! m))"

text \<open>The steps of a read up to its sleep, when both pools have a free entry.\<close>

text \<open>The common start of a read and a write: a handler and a mapping are reserved, a message about the mapping is built in the path's scratch
area, and the handler is listed before the message is sent.\<close>

lemma reserve_and_send:
  fixes bld :: "nat \<Rightarrow> Acq200Path \<Rightarrow> Acq200Path"
  assumes "i2o_inv d" "paths d p = Some path" "pool_avail (handlers (pool d)) \<noteq> {}" "pool_avail (mappings (pool d)) \<noteq> {}"
  obtains r k d1 d2 rc e where "alloc_rch ws d = Some (Some r, d1)" "alloc_mapping wm d1 = Some (Some k, d2)"
    "acq200_sendI2O_kbuf p (rchAppend r (buildRch r h p (Some (PoolMap k)) RCH_KB_POOL (path_update p (bld k) d2))) = Some (rc, e)"
    "io_mappings (pool d2) = io_mappings (pool d)" "dma_buf d2 = dma_buf d" "k \<in> pool_items (mappings (pool d))"
    "r \<in> pool_avail (handlers (pool d))" "k \<in> pool_avail (mappings (pool d))" "r < length (rchs d)"
    "i2o_inv e" "rch_list e = rch_list d @ [r]" "rchs e = (rchs d)[r := listed_rch d r h p (Some (PoolMap k)) RCH_KB_POOL]"
    "pool_avail (handlers (pool e)) = pool_avail (handlers (pool d)) - {r}"
    "pool_avail (mappings (pool e)) = pool_avail (mappings (pool d)) - {k}" "streambuf e = streambuf d" "oqp e = oqp d"
    "\<And>mfa rest. iqp d = mfa # rest \<Longrightarrow> mfa \<noteq> PCI_I2O_INVALID_MFA \<Longrightarrow>
       sent e = sent d @ [(mfa AND MFA_MASK, set_msg_id (next_id d) (scratch (bld k path)))]"
    "iqp d = [] \<Longrightarrow> sent e = sent d \<and> i2o_last_id_out e = i2o_last_id_out d"
proof -
  obtain r Q where a: "alloc_rch ws d = Some (Some r, d\<lparr>pool := (pool d)\<lparr>handlers := Q\<rparr>\<rparr>)"
    "r \<in> pool_avail (handlers (pool d))" "r < length (rchs d)" "r \<notin> set (rch_list d)"
    "pool_inv Q" "pool_items Q = pool_items (handlers (pool d))" "pool_avail Q = pool_avail (handlers (pool d)) - {r}"
    "i2o_inv (d\<lparr>pool := (pool d)\<lparr>handlers := Q\<rparr>\<rparr>)"
    by (rule alloc_rch_now [OF assms(1,3), of ws]) (rule that; assumption)
  let ?d1 = "d\<lparr>pool := (pool d)\<lparr>handlers := Q\<rparr>\<rparr>"
  have av: "pool_avail (mappings (pool ?d1)) \<noteq> {}" using assms(4) by simp
  obtain k M where b: "alloc_mapping wm ?d1 = Some (Some k, ?d1\<lparr>pool := (pool ?d1)\<lparr>mappings := M\<rparr>\<rparr>)"
    "k \<in> pool_avail (mappings (pool ?d1))" "pool_items M = pool_items (mappings (pool ?d1))"
    "pool_avail M = pool_avail (mappings (pool ?d1)) - {k}" "i2o_inv (?d1\<lparr>pool := (pool ?d1)\<lparr>mappings := M\<rparr>\<rparr>)"
    by (rule alloc_mapping_now [OF a(8) av, of wm]) (rule that; assumption)
  define d2 where "d2 = ?d1\<lparr>pool := (pool ?d1)\<lparr>mappings := M\<rparr>\<rparr>"
  have d2: "alloc_mapping wm ?d1 = Some (Some k, d2)" "io_mappings (pool d2) = io_mappings (pool d)" "dma_buf d2 = dma_buf d"
    using b(1) by (simp_all add: d2_def)
  define d3 where "d3 = path_update p (bld k) d2"
  have d3: "i2o_inv d3" "rchs d3 = rchs d" "rch_list d3 = rch_list d" "mappings (pool d3) = M" "handlers (pool d3) = Q"
    "paths d3 p = Some (bld k path)" "next_id d3 = next_id d" "iqp d3 = iqp d" "sent d3 = sent d" "streambuf d3 = streambuf d"
    "oqp d3 = oqp d" "i2o_last_id_out d3 = i2o_last_id_out d"
    using b(5) assms(2) by (simp_all add: d3_def d2_def path_update_def i2o_inv_def next_id_def)
  have kp: "k \<in> pool_items (mappings (pool d))" using b(2) pool_avail_subset by auto
  have nl: "held_map (rchs d ! s) \<noteq> Some k" if "s \<in> set (rch_list d)" for s
    using rch_inv_linked [of "pool d" "rchs d" "rch_list d" s] that assms(1) b(2) by (auto simp: i2o_inv_def linked_ok_def)
  have l: "listed_rch d3 r h p kb flags = listed_rch d r h p kb flags" for kb flags by (simp only: listed_rch_def d3)
  have hm: "held_map (listed_rch d r h p (Some (PoolMap k)) RCH_KB_POOL) = Some k"
    by (simp add: held_map_def listed_rch_def RCH_KB_POOL_def)
  have pre: "r < length (rchs d3)" "r \<notin> pool_avail (handlers (pool d3))" "r \<notin> set (rch_list d3)"
    "\<And>m. held_map (listed_rch d3 r h p (Some (PoolMap k)) RCH_KB_POOL) = Some m \<Longrightarrow> m \<in> pool_items (mappings (pool d3)) \<and>
       m \<notin> pool_avail (mappings (pool d3)) \<and> (\<forall>s \<in> set (rch_list d3). held_map (rchs d3 ! s) \<noteq> Some m)"
    using a b(3,4) kp nl by (auto simp: l hm d3)
  show thesis
  proof (rule list_and_send [OF d3(1) pre(1-3) d3(6) pre(4)])
    fix rc e
    assume "acq200_sendI2O_kbuf p (rchAppend r (buildRch r h p (Some (PoolMap k)) RCH_KB_POOL d3)) = Some (rc, e)"
      and e: "i2o_inv e" "rch_list e = rch_list d3 @ [r]" "rchs e = (rchs d3)[r := listed_rch d3 r h p (Some (PoolMap k)) RCH_KB_POOL]"
      "pool e = pool d3" "streambuf e = streambuf d3" "oqp e = oqp d3"
      "\<And>mfa rest. iqp d3 = mfa # rest \<Longrightarrow> mfa \<noteq> PCI_I2O_INVALID_MFA \<Longrightarrow>
         rc = 0 \<and> sent e = sent d3 @ [(mfa AND MFA_MASK, set_msg_id (next_id d3) (scratch (bld k path)))] \<and>
         i2o_last_id_out e = i2o_last_id_out d3 + 1"
      "iqp d3 = [] \<Longrightarrow> sent e = sent d3 \<and> i2o_last_id_out e = i2o_last_id_out d3"
    note s = this(1) [unfolded d3_def]
    show thesis
      by (rule that [OF a(1) d2(1) s d2(2,3) kp a(2) _ a(3) e(1)]) (use e a b in \<open>simp_all add: l d3\<close>)
  qed
qed

lemma read_posts:
  assumes "i2o_inv d" "paths d p = Some path" "pool_avail (handlers (pool d)) \<noteq> {}" "pool_avail (mappings (pool d)) \<noteq> {}"
    "mappings_nonempty d"
  obtains r k e where "r \<in> pool_avail (handlers (pool d))" "k \<in> pool_avail (mappings (pool d))"
    "\<And>sleep. acq200_bridge_read p count posp ws wm sleep d = finish_read posp r (sleep e)"
    "i2o_inv e" "rch_list e = rch_list d @ [r]" "r < length (rchs d)"
    "rchs e = (rchs d)[r := listed_rch d r HandleReadMessageFile p (Some (PoolMap k)) RCH_KB_POOL]"
    "pool_avail (handlers (pool e)) = pool_avail (handlers (pool d)) - {r}"
    "pool_avail (mappings (pool e)) = pool_avail (mappings (pool d)) - {k}"
    "streambuf e = streambuf d" "oqp e = oqp d"
    "\<And>mfa rest. iqp d = mfa # rest \<Longrightarrow> mfa \<noteq> PCI_I2O_INVALID_MFA \<Longrightarrow>
       sent e = sent d @ [(mfa AND MFA_MASK, set_msg_id (next_id d) (scratch (build_incoming_raw_message path
         (ucast (MK_DMABUF_OFFSET (io_mappings (pool d) ! k) (dma_buf d))) (word_of_int posp)
         (word_of_int (min count (io_len (io_mappings (pool d) ! k)))) HRD_CHAN_IS_FILE)))]"
proof -
  let ?bld = "\<lambda>k q. build_incoming_raw_message q (ucast (MK_DMABUF_OFFSET (io_mappings (pool d) ! k) (dma_buf d))) (word_of_int posp)
    (word_of_int (min count (io_len (io_mappings (pool d) ! k)))) HRD_CHAN_IS_FILE"
  show thesis
  proof (rule reserve_and_send [OF assms(1-4), of ws wm HandleReadMessageFile ?bld])
    fix r k d1 d2 rc e
    assume a: "alloc_rch ws d = Some (Some r, d1)" "alloc_mapping wm d1 = Some (Some k, d2)"
      and e: "acq200_sendI2O_kbuf p (rchAppend r (buildRch r HandleReadMessageFile p (Some (PoolMap k)) RCH_KB_POOL (path_update p (?bld k) d2))) = Some (rc, e)"
      and d2: "io_mappings (pool d2) = io_mappings (pool d)" "dma_buf d2 = dma_buf d" "k \<in> pool_items (mappings (pool d))"
      and f: "r \<in> pool_avail (handlers (pool d))" "k \<in> pool_avail (mappings (pool d))" "r < length (rchs d)"
      "i2o_inv e" "rch_list e = rch_list d @ [r]" "rchs e = (rchs d)[r := listed_rch d r HandleReadMessageFile p (Some (PoolMap k)) RCH_KB_POOL]"
      "pool_avail (handlers (pool e)) = pool_avail (handlers (pool d)) - {r}"
      "pool_avail (mappings (pool e)) = pool_avail (mappings (pool d)) - {k}" "streambuf e = streambuf d" "oqp e = oqp d"
      "\<And>mfa rest. iqp d = mfa # rest \<Longrightarrow> mfa \<noteq> PCI_I2O_INVALID_MFA \<Longrightarrow>
         sent e = sent d @ [(mfa AND MFA_MASK, set_msg_id (next_id d) (scratch (?bld k path)))]"
    have "io_len (io_mappings (pool d) ! k) \<noteq> 0" using assms(5) d2(3) by (auto simp: mappings_nonempty_def)
    then have "acq200_bridge_read p count posp ws wm sleep d = finish_read posp r (sleep e)" for sleep
      using a e d2 by (simp add: acq200_bridge_read_def acq200_bridge_read_generic_def mapping_of_def post_read_def)
    then show thesis by (intro that [of r k e] f) simp_all
  qed
qed

lemma listed_found:
  assumes "fresh_id d" "rch_list e = rch_list d @ [r]" "r < length (rchs d)" "r \<notin> set (rch_list d)"
    "rchs e = (rchs d)[r := rch]" "command_id rch = next_id d"
  shows "find_rch e (next_id d) = Some r"
proof (rule find_rch_last [OF assms(2)])
  fix s assume s: "s \<in> set (rch_list d)"
  with assms(4) have "rchs e ! s = rchs d ! s" unfolding assms(5) by (metis nth_list_update_neq)
  with s assms(1) show "command_id (rchs e ! s) \<noteq> next_id d" by (auto simp: fresh_id_def)
qed (use assms next_id_value in auto)

text \<open>The end of a read whose sleep left its answer in the handler, and whatever it did to the frames.\<close>

lemma read_answered:
  assumes r: "r \<in> pool_avail (handlers (pool d))" "r < length (rchs d)" "r \<notin> set (rch_list d)" "k \<in> pool_avail (mappings (pool d))"
    and e: "rch_list e = rch_list d @ [r]" "rchs e = (rchs d)[r := listed_rch d r HandleReadMessageFile p (Some (PoolMap k)) RCH_KB_POOL]"
    "pool_avail (handlers (pool e)) = pool_avail (handlers (pool d)) - {r}"
    "pool_avail (mappings (pool e)) = pool_avail (mappings (pool d)) - {k}"
    and f: "i2o_inv f" "rch_list f = rch_list e" "pool f = pool e" "rchs f = rchs (replied r p reply e)"
  obtains d' where "finish_read posp r f = Some (sint (hrd_nsamples (m_hrdr0 reply) * 2), posp + sint (hrd_nsamples (m_hrdr0 reply) * 2),
        [(PoolMap k, sint (hrd_nsamples (m_hrdr0 reply) * 2))], d')" "i2o_inv d'" "keeps_io f d'"
    "rch_list d' = rch_list d" "pool_avail (handlers (pool d')) = pool_avail (handlers (pool d))"
    "pool_avail (mappings (pool d')) = pool_avail (mappings (pool d))"
proof -
  have m: "r \<in> set (rch_list f)" "remove1 r (rch_list f) = rch_list d" using f(2) e(1) r(3) by (simp_all add: remove1_append)
  have rch: "rchs f ! r = (listed_rch d r HandleReadMessageFile p (Some (PoolMap k)) RCH_KB_POOL)\<lparr>rchReturn :=
      (rchReturn (listed_rch d r HandleReadMessageFile p (Some (PoolMap k)) RCH_KB_POOL))
      \<lparr>start_id := hrd_start (m_hrdr0 reply), nbytes := sint (hrd_nsamples (m_hrdr0 reply) * 2), valid := 1\<rparr>\<rparr>"
    using r(2) by (simp add: f(4) e(2) replied_def wake_up_def rch_update_def)
  have hm: "held_map (rchs f ! r) = Some k" by (simp add: rch held_map_def listed_rch_def RCH_KB_POOL_def)
  have v: "valid (rchReturn (rchs f ! r)) = 1" "nbytes (rchReturn (rchs f ! r)) = sint (hrd_nsamples (m_hrdr0 reply) * 2)"
    "kbuf (rchReturn (rchs f ! r)) = Some (PoolMap k)" by (simp_all add: rch listed_rch_def)
  show thesis
    by (rule finish_read_answered [OF f(1) m(1) v, of posp]; rule that)
      (assumption | use r e f(3) m(2) hm in auto)+
qed

text \<open>The answer to a read that is asleep reaches its handler.\<close>

lemma reply_delivered:
  assumes "fresh_id d" "i2o_inv e" "rch_list e = rch_list d @ [r]" "r < length (rchs d)" "r \<notin> set (rch_list d)"
    "rchs e = (rchs d)[r := listed_rch d r HandleReadMessageFile p kb flags]"
    "mh_id (m_header reply) = next_id d" "hrd_nsamples (m_hrdr0 reply) \<noteq> 0xffffffff"
  shows "acq200_processCommandMessageReturn reply e = Some (replied r p reply e)"
proof -
  have f: "find_rch e (mh_id (m_header reply)) = Some r"
    unfolding assms(7) by (rule listed_found [OF assms(1,3-6)]) (simp add: listed_rch_def)
  show ?thesis by (rule deliver_read_reply [OF assms(2) f]) (use assms(4,6,8) in \<open>simp_all add: listed_rch_def\<close>)
qed

text \<open>
  A read that is answered.  With a free handler, a free mapping and a free inbound frame, a read sends one
  request that names its own mapping, the position and the clipped length; when the card answers it with
  \<open>n\<close> samples the read returns \<open>2 * n\<close> bytes, copied from that mapping, advances the position by as much,
  and afterwards the list of handlers and both pools are as before.
\<close>

theorem bridge_read_roundtrip:
  assumes "i2o_inv d" "paths d p = Some path" "pool_avail (handlers (pool d)) \<noteq> {}" "pool_avail (mappings (pool d)) \<noteq> {}"
    "mappings_nonempty d" "fresh_id d" "iqp d = mfa # rest" "mfa \<noteq> PCI_I2O_INVALID_MFA"
    "mh_id (m_header reply) = next_id d" "hrd_nsamples (m_hrdr0 reply) \<noteq> 0xffffffff"
  shows "\<exists>k d' msg. let c = sint (hrd_nsamples (m_hrdr0 reply) * 2) in
    acq200_bridge_read p count posp ws wm (\<lambda>e. the (acq200_processCommandMessageReturn reply e)) d =
      Some (c, posp + c, [(PoolMap k, c)], d') \<and>
    k \<in> pool_avail (mappings (pool d)) \<and> i2o_inv d' \<and> rch_list d' = rch_list d \<and>
    pool_avail (handlers (pool d')) = pool_avail (handlers (pool d)) \<and>
    pool_avail (mappings (pool d')) = pool_avail (mappings (pool d)) \<and>
    sent d' = sent d @ [(mfa AND MFA_MASK, msg)] \<and> mh_id (m_header msg) = next_id d \<and>
    hrd_pci (m_hrdr0 msg) = ucast (MK_DMABUF_OFFSET (io_mappings (pool d) ! k) (dma_buf d)) \<and>
    hrd_start (m_hrdr0 msg) = word_of_int posp div 2 \<and>
    hrd_nsamples (m_hrdr0 msg) = word_of_int (min count (io_len (io_mappings (pool d) ! k))) div 2"
proof -
  obtain r k e where e: "r \<in> pool_avail (handlers (pool d))" "k \<in> pool_avail (mappings (pool d))"
    "\<And>sleep. acq200_bridge_read p count posp ws wm sleep d = finish_read posp r (sleep e)"
    "i2o_inv e" "rch_list e = rch_list d @ [r]" "r < length (rchs d)"
    "rchs e = (rchs d)[r := listed_rch d r HandleReadMessageFile p (Some (PoolMap k)) RCH_KB_POOL]"
    "pool_avail (handlers (pool e)) = pool_avail (handlers (pool d)) - {r}"
    "pool_avail (mappings (pool e)) = pool_avail (mappings (pool d)) - {k}"
    "sent e = sent d @ [(mfa AND MFA_MASK, set_msg_id (next_id d) (scratch (build_incoming_raw_message path
         (ucast (MK_DMABUF_OFFSET (io_mappings (pool d) ! k) (dma_buf d))) (word_of_int posp)
         (word_of_int (min count (io_len (io_mappings (pool d) ! k)))) HRD_CHAN_IS_FILE)))]"
    by (rule read_posts [OF assms(1-5), of count posp ws wm]) (rule that, (assumption | simp add: assms(7,8))+)
  have nl: "r \<notin> set (rch_list d)" using linked_not_avail [of "pool d" "rchs d" "rch_list d"] assms(1) e(1) by (auto simp: i2o_inv_def)
  have del: "acq200_processCommandMessageReturn reply e = Some (replied r p reply e)"
    by (rule reply_delivered [OF assms(6) e(4,5,6) nl e(7) assms(9,10)])
  note f = replied_inv [OF e(4), of r p reply]
  obtain d' where d': "finish_read posp r (replied r p reply e) =
      Some (sint (hrd_nsamples (m_hrdr0 reply) * 2), posp + sint (hrd_nsamples (m_hrdr0 reply) * 2),
        [(PoolMap k, sint (hrd_nsamples (m_hrdr0 reply) * 2))], d')" "i2o_inv d'" "keeps_io (replied r p reply e) d'"
    "rch_list d' = rch_list d" "pool_avail (handlers (pool d')) = pool_avail (handlers (pool d))"
    "pool_avail (mappings (pool d')) = pool_avail (mappings (pool d))"
    by (rule read_answered [OF e(1,6) nl e(2,5,7,8,9) f(1,2,3) refl, of posp]) (rule that; assumption)
  then show ?thesis
    using e(2,3,10) del f(4)
    by (intro exI [of _ k] exI [of _ d'] exI [of _ "snd (last (sent e))"])
      (simp add: Let_def keeps_io_def set_msg_id_def build_incoming_raw_message_def build_hrd_message_def)
qed

lemma example_pool_facts:
  "pool_avail (handlers (pool example_dev)) = {0..<16}" "pool_avail (mappings (pool example_dev)) = {0, 1, 2}"
  "mappings_nonempty example_dev" "fresh_id example_dev" "paths example_dev 0 = Some example_path"
proof -
  note p = pool_create_mappings [OF example_pools]
  show "pool_avail (handlers (pool example_dev)) = {0..<16}" by (simp add: example_dev_def p NHANDLERS_def)
  show "pool_avail (mappings (pool example_dev)) = {0, 1, 2}"
    by (auto simp: example_dev_def p NMAPPINGS_def MSG_MAPPING_def)
  have "dma_buf_ok example_dma_buf" by (simp add: dma_buf_ok_def example_dma_buf_def)
  from dma_buf_ok_len(2) [OF this] show "mappings_nonempty example_dev"
    by (simp add: mappings_nonempty_def example_dev_def p create_mappings_loop_nth mapping_at_def)
  show "fresh_id example_dev" by (simp add: fresh_id_def example_dev_def)
  show "paths example_dev 0 = Some example_path" by (simp add: example_dev_def)
qed

definition example_reply :: "i2o_dev \<Rightarrow> u32 \<Rightarrow> MESSAGE" where
  "example_reply d n = \<lparr>m_header = \<lparr>mh_id = next_id d, mh_length = 32, mh_type = MT_COMMAND_PACKET\<rparr>,
     m_hrdr0 = zero_hrdr\<lparr>hrd_nsamples := n\<rparr>, m_hrdr1 = zero_hrdr\<rparr>"

theorem bridge_read_roundtrip_witness:
  "\<exists>k d' msg. let c = sint (hrd_nsamples (m_hrdr0 (example_reply example_dev 512)) * 2) in
    acq200_bridge_read 0 4096 0 [] [] (\<lambda>e. the (acq200_processCommandMessageReturn (example_reply example_dev 512) e)) example_dev =
      Some (c, 0 + c, [(PoolMap k, c)], d') \<and>
    k \<in> pool_avail (mappings (pool example_dev)) \<and> i2o_inv d' \<and> rch_list d' = rch_list example_dev \<and>
    pool_avail (handlers (pool d')) = pool_avail (handlers (pool example_dev)) \<and>
    pool_avail (mappings (pool d')) = pool_avail (mappings (pool example_dev)) \<and>
    sent d' = sent example_dev @ [(0x100 AND MFA_MASK, msg)] \<and> mh_id (m_header msg) = next_id example_dev \<and>
    hrd_pci (m_hrdr0 msg) = ucast (MK_DMABUF_OFFSET (io_mappings (pool example_dev) ! k) (dma_buf example_dev)) \<and>
    hrd_start (m_hrdr0 msg) = word_of_int 0 div 2 \<and>
    hrd_nsamples (m_hrdr0 msg) = word_of_int (min 4096 (io_len (io_mappings (pool example_dev) ! k))) div 2"
proof (rule bridge_read_roundtrip)
  show "i2o_inv example_dev" by (rule example_dev_inv)
  show "iqp example_dev = 0x100 # [0x500]" by (simp add: example_dev_def)
qed (use example_pool_facts in \<open>simp_all add: PCI_I2O_INVALID_MFA_def example_reply_def\<close>)

text \<open>
  C20. A read that is interrupted.  The read returns \<open>-EINTR\<close> and leaves its handler and mapping reserved;
  when the card's answer arrives later, whatever it says, it is discarded and both are free again: an
  interrupted read leaks nothing.
\<close>

theorem bridge_read_interrupted:
  assumes "i2o_inv d" "paths d p = Some path" "pool_avail (handlers (pool d)) \<noteq> {}" "pool_avail (mappings (pool d)) \<noteq> {}"
    "mappings_nonempty d" "fresh_id d" "mh_id (m_header reply) = next_id d"
  shows "\<exists>d1 d2. acq200_bridge_read p count posp ws wm (\<lambda>e. e) d = Some (- EINTR, posp, [], d1) \<and> i2o_inv d1 \<and>
    pool_avail (mappings (pool d1)) \<subset> pool_avail (mappings (pool d)) \<and>
    acq200_processCommandMessageReturn reply d1 = Some d2 \<and> i2o_inv d2 \<and> rch_list d2 = rch_list d \<and>
    pool_avail (handlers (pool d2)) = pool_avail (handlers (pool d)) \<and>
    pool_avail (mappings (pool d2)) = pool_avail (mappings (pool d))"
proof -
  obtain r k e where e: "r \<in> pool_avail (handlers (pool d))" "k \<in> pool_avail (mappings (pool d))"
    "\<And>sleep. acq200_bridge_read p count posp ws wm sleep d = finish_read posp r (sleep e)"
    "i2o_inv e" "rch_list e = rch_list d @ [r]" "r < length (rchs d)"
    "rchs e = (rchs d)[r := listed_rch d r HandleReadMessageFile p (Some (PoolMap k)) RCH_KB_POOL]"
    "pool_avail (handlers (pool e)) = pool_avail (handlers (pool d)) - {r}"
    "pool_avail (mappings (pool e)) = pool_avail (mappings (pool d)) - {k}"
    by (rule read_posts [OF assms(1-5), of count posp ws wm]) (rule that; assumption)
  have nl: "r \<notin> set (rch_list d)" using linked_not_avail [of "pool d" "rchs d" "rch_list d"] assms(1) e(1) by (auto simp: i2o_inv_def)
  let ?d1 = "rch_update r (\<lambda>rch. rch\<lparr>handler := None\<rparr>) e"
  let ?rch = "(listed_rch d r HandleReadMessageFile p (Some (PoolMap k)) RCH_KB_POOL)\<lparr>handler := None\<rparr>"
  have d1: "rch_list ?d1 = rch_list d @ [r]" "rchs ?d1 = (rchs d)[r := ?rch]" "pool ?d1 = pool e" "r < length (rchs ?d1)"
    using e(5,6,7) by (simp_all add: rch_update_def)
  have "valid (rchReturn (rchs e ! r)) = 0" using e(6,7) by (simp add: listed_rch_def)
  then have rd: "acq200_bridge_read p count posp ws wm (\<lambda>e. e) d = Some (- EINTR, posp, [], ?d1)"
    by (simp add: e(3) finish_read_def rchRemoveIfNotValid_def)
  have inv: "i2o_inv ?d1" by (rule rch_update_inv(1) [OF e(4)]; (rule held_map_cong)?; simp)
  have f: "find_rch ?d1 (mh_id (m_header reply)) = Some r"
    unfolding assms(7) by (rule listed_found [OF assms(6) d1(1) e(6) nl d1(2)]) (simp add: listed_rch_def)
  have hm: "held_map ?rch = Some k" by (simp add: held_map_def listed_rch_def RCH_KB_POOL_def)
  have m: "r \<in> set (rch_list ?d1)" "remove1 r (rch_list ?d1) = rch_list d" "rchs ?d1 ! r = ?rch"
    using nl e(6) unfolding d1 by (simp_all add: remove1_append)
  obtain d2 where d2: "i2o_recycleRch r ?d1 = Some d2" "i2o_inv d2" "rch_list d2 = rch_list d"
    "pool_avail (handlers (pool d2)) = insert r (pool_avail (handlers (pool e)))"
    "pool_avail (mappings (pool d2)) = pool_avail (mappings (pool e)) \<union> {k}"
    by (rule recycle_frees [OF inv m(1)]) (rule that; simp add: m d1(3) hm)
  let ?d2 = "d2\<lparr>i2o_packets_discarded := i2o_packets_discarded d2 + 1\<rparr>"
  have "acq200_processCommandMessageReturn reply ?d1 = Some ?d2" "i2o_inv ?d2" "pool ?d1 = pool e"
    using f d2(1,2) m(3) by (simp_all add: acq200_processCommandMessageReturn_def i2o_inv_def rch_update_def)
  moreover have "insert r (pool_avail (handlers (pool e))) = pool_avail (handlers (pool d))"
    "pool_avail (mappings (pool e)) \<union> {k} = pool_avail (mappings (pool d))" "pool_avail (mappings (pool e)) \<subset> pool_avail (mappings (pool d))"
    using e(1,2,8,9) by auto
  ultimately show ?thesis using rd inv d2(3-5) by (intro exI [of _ ?d1] exI [of _ ?d2]) simp
qed

theorem bridge_read_interrupted_witness:
  "\<exists>d1 d2. acq200_bridge_read 0 4096 0 [] [] (\<lambda>e. e) example_dev = Some (- EINTR, 0, [], d1) \<and> i2o_inv d1 \<and>
    pool_avail (mappings (pool d1)) \<subset> pool_avail (mappings (pool example_dev)) \<and>
    acq200_processCommandMessageReturn (example_reply example_dev 512) d1 = Some d2 \<and> i2o_inv d2 \<and>
    rch_list d2 = rch_list example_dev \<and>
    pool_avail (handlers (pool d2)) = pool_avail (handlers (pool example_dev)) \<and>
    pool_avail (mappings (pool d2)) = pool_avail (mappings (pool example_dev))"
  by (rule bridge_read_interrupted)
    (use example_pool_facts example_dev_inv in \<open>simp_all add: example_reply_def\<close>)

lemma finish_read_refused:
  assumes "valid (rchReturn (rchs e ! r)) = -1" "rch_path (rchs e ! r) = Some p" "r < length (rchs e)" "distinct (rch_list e)"
  shows "finish_read posp r e = None"
proof (cases "r \<in> set (rch_list e)")
  case True
  let ?e = "rch_update r (\<lambda>rch. rch\<lparr>handler := None\<rparr>) (e\<lparr>rch_list := remove1 r (rch_list e)\<rparr>)"
  have "rchRemoveIfNotValid r e = Some (-1, ?e)"
    using True assms(1) by (simp add: rchRemoveIfNotValid_def list_del_def)
  moreover have "i2o_recycleRch r ?e = None"
    using assms by (simp add: i2o_recycleRch_def rchRemove_def list_del_def rch_update_def)
  ultimately show ?thesis by (simp add: finish_read_def)
next
  case False
  with assms show ?thesis by (simp add: finish_read_def rchRemoveIfNotValid_def list_del_def Let_def)
qed

text \<open>
  C37. A read the card refuses.  A reply with the error count 0xffffffff makes the read unlink its handler
  in \<open>rchRemoveIfNotValid\<close> and again when it is recycled: the second \<open>list_del\<close> works on poisoned links,
  so the process oopses instead of returning \<open>-EFAULT\<close>.
\<close>

theorem bridge_read_refused_oops:
  assumes "i2o_inv d" "paths d p = Some path" "pool_avail (handlers (pool d)) \<noteq> {}" "pool_avail (mappings (pool d)) \<noteq> {}"
    "mappings_nonempty d" "fresh_id d" "mh_id (m_header reply) = next_id d" "hrd_nsamples (m_hrdr0 reply) = 0xffffffff"
  shows "acq200_bridge_read p count posp ws wm (\<lambda>e. the (acq200_processCommandMessageReturn reply e)) d = None"
proof -
  obtain r k e where e: "r \<in> pool_avail (handlers (pool d))" "k \<in> pool_avail (mappings (pool d))"
    "\<And>sleep. acq200_bridge_read p count posp ws wm sleep d = finish_read posp r (sleep e)"
    "i2o_inv e" "rch_list e = rch_list d @ [r]" "r < length (rchs d)"
    "rchs e = (rchs d)[r := listed_rch d r HandleReadMessageFile p (Some (PoolMap k)) RCH_KB_POOL]"
    by (rule read_posts [OF assms(1-5), of count posp ws wm]) (rule that; assumption)
  have nl: "r \<notin> set (rch_list d)" using linked_not_avail [of "pool d" "rchs d" "rch_list d"] assms(1) e(1) by (auto simp: i2o_inv_def)
  have f: "find_rch e (mh_id (m_header reply)) = Some r"
    unfolding assms(7) by (rule listed_found [OF assms(6) e(5,6) nl e(7)]) (simp add: listed_rch_def)
  let ?e = "wake_up p (rch_update r (\<lambda>rch. rch\<lparr>rchReturn := (rchReturn rch)\<lparr>valid := -1\<rparr>\<rparr>) e)"
  have p: "acq200_processCommandMessageReturn reply e = Some ?e"
    using f e(6,7) assms(8)
    by (simp add: acq200_processCommandMessageReturn_def i2o_handleReadMessageFile_def rchSetSamplesAndGetPath_def
        rch_update_def listed_rch_def Let_def)
  have "distinct (rch_list ?e)" using e(4) by (simp add: wake_up_def rch_update_def i2o_inv_def rch_inv_def)
  moreover have "valid (rchReturn (rchs ?e ! r)) = -1" "rch_path (rchs ?e ! r) = Some p" "r < length (rchs ?e)"
    using e(5,6,7) by (simp_all add: wake_up_def rch_update_def listed_rch_def)
  ultimately show ?thesis by (simp only: e(3) p option.sel) (rule finish_read_refused)
qed

theorem bridge_read_refused_oops_witness:
  "acq200_bridge_read 0 4096 0 [] [] (\<lambda>e. the (acq200_processCommandMessageReturn (example_reply example_dev 0xffffffff) e)) example_dev = None"
  by (rule bridge_read_refused_oops)
    (use example_pool_facts example_dev_inv in \<open>simp_all add: example_reply_def\<close>)

end
