(* ===== verification/I2o_Write.thy ===== *)
theory I2o_Write
  imports I2o_Bridge
begin

text \<open>
  Properties of the write and release operations of the message bridge: what a write sends and when its
  resources come back, the paths on which resources are lost or freed wrongly, and the clean-up at release.
\<close>

section \<open>Write\<close>

lemma write_posts:
  assumes "i2o_inv d" "paths d p = Some path" "pool_avail (handlers (pool d)) \<noteq> {}" "pool_avail (mappings (pool d)) \<noteq> {}"
    "mappings_nonempty d" "0 < count"
  obtains r k e where "r \<in> pool_avail (handlers (pool d))" "k \<in> pool_avail (mappings (pool d))"
    "acq200_bridge_write p count posp ws wm d = (let c = min count (io_len (io_mappings (pool d) ! k)) in
       Some (c, posp + c, [(PoolMap k, c)], e))"
    "i2o_inv e" "rch_list e = rch_list d @ [r]" "r < length (rchs d)"
    "rchs e = (rchs d)[r := listed_rch d r RecycleRchWrapper p (Some (PoolMap k)) RCH_KB_POOL]"
    "pool_avail (handlers (pool e)) = pool_avail (handlers (pool d)) - {r}"
    "pool_avail (mappings (pool e)) = pool_avail (mappings (pool d)) - {k}" "streambuf e = streambuf d" "oqp e = oqp d"
    "\<And>mfa rest. iqp d = mfa # rest \<Longrightarrow> mfa \<noteq> PCI_I2O_INVALID_MFA \<Longrightarrow>
       sent e = sent d @ [(mfa AND MFA_MASK, set_msg_id (next_id d) (scratch (build_outgoing_raw_message path
         (ucast (MK_DMABUF_OFFSET (io_mappings (pool d) ! k) (dma_buf d))) (word_of_int posp)
         (word_of_int (min count (io_len (io_mappings (pool d) ! k)))) HRD_CHAN_IS_FILE)))]"
    "iqp d = [] \<Longrightarrow> sent e = sent d \<and> i2o_last_id_out e = i2o_last_id_out d"
proof -
  let ?bld = "\<lambda>k q. build_outgoing_raw_message q (ucast (MK_DMABUF_OFFSET (io_mappings (pool d) ! k) (dma_buf d))) (word_of_int posp)
    (word_of_int (min count (io_len (io_mappings (pool d) ! k)))) HRD_CHAN_IS_FILE"
  show thesis
  proof (rule reserve_and_send [OF assms(1-4), of ws wm RecycleRchWrapper ?bld])
    fix r k d1 d2 rc e
    assume a: "alloc_rch ws d = Some (Some r, d1)" "alloc_mapping wm d1 = Some (Some k, d2)"
      and e: "acq200_sendI2O_kbuf p (rchAppend r (buildRch r RecycleRchWrapper p (Some (PoolMap k)) RCH_KB_POOL (path_update p (?bld k) d2))) = Some (rc, e)"
      and d2: "io_mappings (pool d2) = io_mappings (pool d)" "dma_buf d2 = dma_buf d" "k \<in> pool_items (mappings (pool d))"
      and f: "r \<in> pool_avail (handlers (pool d))" "k \<in> pool_avail (mappings (pool d))" "r < length (rchs d)"
      "i2o_inv e" "rch_list e = rch_list d @ [r]" "rchs e = (rchs d)[r := listed_rch d r RecycleRchWrapper p (Some (PoolMap k)) RCH_KB_POOL]"
      "pool_avail (handlers (pool e)) = pool_avail (handlers (pool d)) - {r}"
      "pool_avail (mappings (pool e)) = pool_avail (mappings (pool d)) - {k}" "streambuf e = streambuf d" "oqp e = oqp d"
      "\<And>mfa rest. iqp d = mfa # rest \<Longrightarrow> mfa \<noteq> PCI_I2O_INVALID_MFA \<Longrightarrow>
         sent e = sent d @ [(mfa AND MFA_MASK, set_msg_id (next_id d) (scratch (?bld k path)))]"
      "iqp d = [] \<Longrightarrow> sent e = sent d \<and> i2o_last_id_out e = i2o_last_id_out d"
    have "min count (io_len (io_mappings (pool d) ! k)) \<noteq> 0" using assms(5,6) d2(3) by (auto simp: mappings_nonempty_def min_def)
    then have "acq200_bridge_write p count posp ws wm d =
        (let c = min count (io_len (io_mappings (pool d) ! k)) in Some (c, posp + c, [(PoolMap k, c)], e))"
      using a e d2 by (simp add: acq200_bridge_write_def acq200_bridge_write_generic_def mapping_of_def Let_def)
    then show thesis by (intro that [of r k e] f) simp_all
  qed
qed

text \<open>The answer to a write recycles its handler and its mapping.\<close>

lemma write_reply_recycles:
  assumes "fresh_id d" "r \<in> pool_avail (handlers (pool d))" "k \<in> pool_avail (mappings (pool d))" "r < length (rchs d)" "r \<notin> set (rch_list d)"
    and e: "i2o_inv e" "rch_list e = rch_list d @ [r]" "rchs e = (rchs d)[r := listed_rch d r RecycleRchWrapper p (Some (PoolMap k)) RCH_KB_POOL]"
    "pool_avail (handlers (pool e)) = pool_avail (handlers (pool d)) - {r}"
    "pool_avail (mappings (pool e)) = pool_avail (mappings (pool d)) - {k}"
    and "mh_id (m_header reply) = next_id d"
  obtains d2 where "acq200_processCommandMessageReturn reply e = Some d2" "i2o_inv d2" "keeps_io e d2" "rch_list d2 = rch_list d"
    "pool_avail (handlers (pool d2)) = pool_avail (handlers (pool d))" "pool_avail (mappings (pool d2)) = pool_avail (mappings (pool d))"
proof -
  have rch: "rchs e ! r = listed_rch d r RecycleRchWrapper p (Some (PoolMap k)) RCH_KB_POOL" using assms(4) e(3) by simp
  have f: "find_rch e (mh_id (m_header reply)) = Some r"
    unfolding assms(11) by (rule listed_found [OF assms(1) e(2) assms(4,5) e(3)]) (simp add: listed_rch_def)
  have hm: "held_map (rchs e ! r) = Some k" unfolding rch by (simp add: held_map_def listed_rch_def RCH_KB_POOL_def)
  have m: "r \<in> set (rch_list e)" "remove1 r (rch_list e) = rch_list d" using assms(5) unfolding e(2) by (simp_all add: remove1_append)
  obtain d2 where d2: "i2o_recycleRch r e = Some d2" "i2o_inv d2" "keeps_io e d2" "rch_list d2 = rch_list d"
    "pool_avail (handlers (pool d2)) = insert r (pool_avail (handlers (pool e)))"
    "pool_avail (mappings (pool d2)) = pool_avail (mappings (pool e)) \<union> {k}"
    by (rule recycle_frees [OF e(1) m(1)]) (rule that; simp add: m hm)
  have p: "acq200_processCommandMessageReturn reply e = Some d2"
    using f d2(1) by (simp add: acq200_processCommandMessageReturn_def rch listed_rch_def i2o_recycleRchWrapper_def)
  show thesis by (rule that [OF p d2(2-4)]) (use d2(5,6) assms(2,3) e(4,5) in auto)
qed

section \<open>Clean-up at release\<close>

text \<open>The handlers of a path in the list.\<close>

definition path_rchs :: "nat \<Rightarrow> i2o_dev \<Rightarrow> nat list" where
  "path_rchs p d = filter (\<lambda>r. rch_path (rchs d ! r) = Some p) (rch_list d)"

lemma recycle_path_lists:
  assumes "distinct (rch_list d)" "r \<in> set (rch_list d)" "rch_path (rchs d ! r) = Some p" "rch_list d1 = remove1 r (rch_list d)"
    "\<And>s. s \<noteq> r \<Longrightarrow> rchs d1 ! s = rchs d ! s"
  shows "path_rchs p d1 = remove1 r (path_rchs p d)"
    "filter (\<lambda>s. rch_path (rchs d1 ! s) \<noteq> Some p) (rch_list d1) = filter (\<lambda>s. rch_path (rchs d ! s) \<noteq> Some p) (rch_list d)"
proof -
  have rm: "remove1 r L = filter (\<lambda>s. s \<noteq> r) L" if "distinct L" for L
    using distinct_remove1_removeAll [OF that, of r] by (simp add: removeAll_filter_not_eq eq_commute)
  have q: "(s \<noteq> r \<and> rch_path (rchs d1 ! s) \<noteq> Some p) = (rch_path (rchs d ! s) \<noteq> Some p)" for s using assms(3,5) by metis
  have "distinct (path_rchs p d)" using assms(1) by (simp add: path_rchs_def)
  then show "path_rchs p d1 = remove1 r (path_rchs p d)"
    using assms(5) by (auto simp: rm path_rchs_def assms(4) rm [OF assms(1)] intro: filter_cong)
  show "filter (\<lambda>s. rch_path (rchs d1 ! s) \<noteq> Some p) (rch_list d1) = filter (\<lambda>s. rch_path (rchs d ! s) \<noteq> Some p) (rch_list d)"
    using q by (simp add: assms(4) rm [OF assms(1)])
qed

lemma cleanup_ok:
  "i2o_inv d \<Longrightarrow> \<exists>d'. cleanup_on_bridge_release p d = Some d' \<and> i2o_inv d' \<and> keeps_io d d' \<and>
    rch_list d' = filter (\<lambda>r. rch_path (rchs d ! r) \<noteq> Some p) (rch_list d) \<and>
    pool_avail (handlers (pool d')) = pool_avail (handlers (pool d)) \<union> set (path_rchs p d) \<and>
    (\<forall>r \<in> set (rch_list d'). rchs d' ! r = rchs d ! r)"
proof (induction "length (path_rchs p d)" arbitrary: d)
  case 0
  then have "path_rchs p d = []" by simp
  then have n: "\<forall>r \<in> set (rch_list d). rch_path (rchs d ! r) \<noteq> Some p" by (auto simp: path_rchs_def filter_empty_conv)
  then have "find (\<lambda>r. rch_path (rchs d ! r) = Some p) (rch_list d) = None" by (simp add: find_None_iff)
  then have "cleanup_on_bridge_release p d = Some d" by (subst cleanup_on_bridge_release.simps) simp
  moreover have "filter (\<lambda>r. rch_path (rchs d ! r) \<noteq> Some p) (rch_list d) = rch_list d" using n by (simp add: filter_id_conv)
  ultimately show ?case using 0 n by (simp add: keeps_io_def path_rchs_def filter_empty_conv)
next
  case (Suc n)
  from Suc.hyps(2) obtain x xs where "path_rchs p d = x # xs" by (cases "path_rchs p d") auto
  then obtain r where f: "find (\<lambda>r. rch_path (rchs d ! r) = Some p) (rch_list d) = Some r"
    by (cases "find (\<lambda>r. rch_path (rchs d ! r) = Some p) (rch_list d)") (auto simp: path_rchs_def find_None_iff filter_eq_Cons_iff)
  then have r: "r \<in> set (rch_list d)" "rch_path (rchs d ! r) = Some p" by (auto simp: find_Some_iff)
  have dl: "distinct (rch_list d)" using Suc.prems by (simp add: i2o_inv_def rch_inv_def)
  obtain d1 where d1: "i2o_recycleRch r d = Some d1" "i2o_inv d1" "keeps_io d d1" "rch_list d1 = remove1 r (rch_list d)"
    "pool_avail (handlers (pool d1)) = insert r (pool_avail (handlers (pool d)))" "\<And>s. s \<noteq> r \<Longrightarrow> rchs d1 ! s = rchs d ! s"
    by (rule recycle_frees [OF Suc.prems r(1)]) (rule that; assumption)
  note l = recycle_path_lists [OF dl r d1(4,6)]
  have rin: "r \<in> set (path_rchs p d)" "distinct (path_rchs p d)" using r dl by (auto simp: path_rchs_def)
  then have "n = length (path_rchs p d1)" using l(1) Suc.hyps(2) by (simp add: length_remove1)
  from Suc.hyps(1) [OF this d1(2)] obtain d' where d': "cleanup_on_bridge_release p d1 = Some d'" "i2o_inv d'" "keeps_io d1 d'"
    "rch_list d' = filter (\<lambda>r. rch_path (rchs d1 ! r) \<noteq> Some p) (rch_list d1)"
    "pool_avail (handlers (pool d')) = pool_avail (handlers (pool d1)) \<union> set (path_rchs p d1)"
    "\<forall>r \<in> set (rch_list d'). rchs d' ! r = rchs d1 ! r" by blast
  have left: "rch_list d' = filter (\<lambda>r. rch_path (rchs d ! r) \<noteq> Some p) (rch_list d)" by (rule trans [OF d'(4) l(2)])
  have "cleanup_on_bridge_release p d = Some d'" using f d1(1) d'(1) by (subst cleanup_on_bridge_release.simps) simp
  moreover have "pool_avail (handlers (pool d')) = pool_avail (handlers (pool d)) \<union> set (path_rchs p d)"
    using d'(5) d1(5) rin by (auto simp: l(1))
  moreover have "\<forall>s \<in> set (rch_list d'). rchs d' ! s = rchs d ! s"
  proof
    fix s
    assume s: "s \<in> set (rch_list d')"
    then have "s \<noteq> r" using r(2) by (auto simp: left)
    then show "rchs d' ! s = rchs d ! s" using d'(6) s d1(6) by simp
  qed
  ultimately show ?case using d'(2) left keeps_io_trans [OF d1(3) d'(3)] by blast
qed

section \<open>Properties\<close>

text \<open>
  A write.  With a free handler, a free mapping and a free inbound frame, a write of a positive length
  copies at most one mapping's worth, sends one request for it and returns the length copied at once; when
  the card's answer arrives, whatever it says, handler and mapping are free again.
\<close>

theorem bridge_write_roundtrip:
  assumes "i2o_inv d" "paths d p = Some path" "pool_avail (handlers (pool d)) \<noteq> {}" "pool_avail (mappings (pool d)) \<noteq> {}"
    "mappings_nonempty d" "fresh_id d" "0 < count" "iqp d = mfa # rest" "mfa \<noteq> PCI_I2O_INVALID_MFA"
    "mh_id (m_header reply) = next_id d"
  shows "\<exists>k d1 d2 msg. let c = min count (io_len (io_mappings (pool d) ! k)) in
    acq200_bridge_write p count posp ws wm d = Some (c, posp + c, [(PoolMap k, c)], d1) \<and> 0 < c \<and>
    k \<in> pool_avail (mappings (pool d)) \<and> k \<notin> pool_avail (mappings (pool d1)) \<and> i2o_inv d1 \<and>
    sent d1 = sent d @ [(mfa AND MFA_MASK, msg)] \<and> mh_id (m_header msg) = next_id d \<and>
    hrd_pci (m_hrdr0 msg) = ucast (MK_DMABUF_OFFSET (io_mappings (pool d) ! k) (dma_buf d)) \<and>
    hrd_start (m_hrdr0 msg) = word_of_int posp div 2 \<and> hrd_nsamples (m_hrdr0 msg) = word_of_int c div 2 \<and>
    acq200_processCommandMessageReturn reply d1 = Some d2 \<and> i2o_inv d2 \<and> rch_list d2 = rch_list d \<and>
    pool_avail (handlers (pool d2)) = pool_avail (handlers (pool d)) \<and>
    pool_avail (mappings (pool d2)) = pool_avail (mappings (pool d))"
proof -
  obtain r k e where e: "r \<in> pool_avail (handlers (pool d))" "k \<in> pool_avail (mappings (pool d))"
    "acq200_bridge_write p count posp ws wm d = (let c = min count (io_len (io_mappings (pool d) ! k)) in
       Some (c, posp + c, [(PoolMap k, c)], e))"
    "i2o_inv e" "rch_list e = rch_list d @ [r]" "r < length (rchs d)"
    "rchs e = (rchs d)[r := listed_rch d r RecycleRchWrapper p (Some (PoolMap k)) RCH_KB_POOL]"
    "pool_avail (handlers (pool e)) = pool_avail (handlers (pool d)) - {r}"
    "pool_avail (mappings (pool e)) = pool_avail (mappings (pool d)) - {k}"
    "sent e = sent d @ [(mfa AND MFA_MASK, set_msg_id (next_id d) (scratch (build_outgoing_raw_message path
         (ucast (MK_DMABUF_OFFSET (io_mappings (pool d) ! k) (dma_buf d))) (word_of_int posp)
         (word_of_int (min count (io_len (io_mappings (pool d) ! k)))) HRD_CHAN_IS_FILE)))]"
    by (rule write_posts [OF assms(1-5,7), of posp ws wm]) (rule that, (assumption | simp add: assms(8,9))+)
  have nl: "r \<notin> set (rch_list d)" using linked_not_avail [of "pool d" "rchs d" "rch_list d"] assms(1) e(1) by (auto simp: i2o_inv_def)
  obtain d2 where "acq200_processCommandMessageReturn reply e = Some d2" "i2o_inv d2" "rch_list d2 = rch_list d"
    "pool_avail (handlers (pool d2)) = pool_avail (handlers (pool d))" "pool_avail (mappings (pool d2)) = pool_avail (mappings (pool d))"
    by (rule write_reply_recycles [OF assms(6) e(1,2,6) nl e(4,5,7,8,9) assms(10)])
  moreover have "0 < min count (io_len (io_mappings (pool d) ! k))"
    using assms(5,7) e(2) pool_avail_subset [of "mappings (pool d)"] by (auto simp: mappings_nonempty_def)
  ultimately show ?thesis
    using e(2,3,4,9,10)
    by (intro exI [of _ k] exI [of _ e] exI [of _ d2] exI [of _ "snd (last (sent e))"])
      (simp add: Let_def set_msg_id_def build_outgoing_raw_message_def build_hrd_message_def)
qed

theorem bridge_write_roundtrip_witness:
  "\<exists>k d1 d2 msg. let c = min 100 (io_len (io_mappings (pool example_dev) ! k)) in
    acq200_bridge_write 0 100 0 [] [] example_dev = Some (c, 0 + c, [(PoolMap k, c)], d1) \<and> 0 < c \<and>
    k \<in> pool_avail (mappings (pool example_dev)) \<and> k \<notin> pool_avail (mappings (pool d1)) \<and> i2o_inv d1 \<and>
    sent d1 = sent example_dev @ [(0x100 AND MFA_MASK, msg)] \<and> mh_id (m_header msg) = next_id example_dev \<and>
    hrd_pci (m_hrdr0 msg) = ucast (MK_DMABUF_OFFSET (io_mappings (pool example_dev) ! k) (dma_buf example_dev)) \<and>
    hrd_start (m_hrdr0 msg) = word_of_int 0 div 2 \<and> hrd_nsamples (m_hrdr0 msg) = word_of_int c div 2 \<and>
    acq200_processCommandMessageReturn (example_reply example_dev 0) d1 = Some d2 \<and> i2o_inv d2 \<and>
    rch_list d2 = rch_list example_dev \<and>
    pool_avail (handlers (pool d2)) = pool_avail (handlers (pool example_dev)) \<and>
    pool_avail (mappings (pool d2)) = pool_avail (mappings (pool example_dev))"
proof (rule bridge_write_roundtrip)
  show "i2o_inv example_dev" by (rule example_dev_inv)
  show "iqp example_dev = 0x100 # [0x500]" by (simp add: example_dev_def)
qed (use example_pool_facts in \<open>simp_all add: PCI_I2O_INVALID_MFA_def example_reply_def\<close>)

text \<open>
  A write of length zero.  It returns \<open>-ENOMEM\<close>, sends nothing and lists no handler, but the handler and
  the mapping it took stay reserved: each such write loses one of each for good.
\<close>

theorem bridge_write_zero_leaks:
  assumes "i2o_inv d" "pool_avail (handlers (pool d)) \<noteq> {}" "pool_avail (mappings (pool d)) \<noteq> {}" "mappings_nonempty d"
  shows "\<exists>r k d'. acq200_bridge_write p 0 posp ws wm d = Some (- ENOMEM, posp, [], d') \<and>
    rch_list d' = rch_list d \<and> sent d' = sent d \<and>
    r \<in> pool_avail (handlers (pool d)) \<and> pool_avail (handlers (pool d')) = pool_avail (handlers (pool d)) - {r} \<and>
    k \<in> pool_avail (mappings (pool d)) \<and> pool_avail (mappings (pool d')) = pool_avail (mappings (pool d)) - {k}"
proof -
  obtain r Q where a: "alloc_rch ws d = Some (Some r, d\<lparr>pool := (pool d)\<lparr>handlers := Q\<rparr>\<rparr>)"
    "r \<in> pool_avail (handlers (pool d))" "pool_avail Q = pool_avail (handlers (pool d)) - {r}"
    "i2o_inv (d\<lparr>pool := (pool d)\<lparr>handlers := Q\<rparr>\<rparr>)"
    by (rule alloc_rch_now [OF assms(1,2), of ws]) (rule that; assumption)
  let ?d1 = "d\<lparr>pool := (pool d)\<lparr>handlers := Q\<rparr>\<rparr>"
  have av: "pool_avail (mappings (pool ?d1)) \<noteq> {}" using assms(3) by simp
  obtain k M where b: "alloc_mapping wm ?d1 = Some (Some k, ?d1\<lparr>pool := (pool ?d1)\<lparr>mappings := M\<rparr>\<rparr>)"
    "k \<in> pool_avail (mappings (pool ?d1))" "pool_avail M = pool_avail (mappings (pool ?d1)) - {k}"
    by (rule alloc_mapping_now [OF a(4) av, of wm]) (rule that; assumption)
  have "0 < io_len (io_mappings (pool d) ! k)"
    using assms(4) b(2) pool_avail_subset [of "mappings (pool d)"] by (auto simp: mappings_nonempty_def)
  then have "acq200_bridge_write p 0 posp ws wm d =
      Some (- ENOMEM, posp, [], ?d1\<lparr>pool := (pool ?d1)\<lparr>mappings := M\<rparr>\<rparr>)"
    using a(1) b(1) by (simp add: acq200_bridge_write_def acq200_bridge_write_generic_def mapping_of_def Let_def)
  then show ?thesis
    using a b by (intro exI [of _ r] exI [of _ k] exI [of _ "?d1\<lparr>pool := (pool ?d1)\<lparr>mappings := M\<rparr>\<rparr>"]) simp
qed

theorem bridge_write_zero_leaks_witness:
  "\<exists>r k d'. acq200_bridge_write 0 0 0 [] [] example_dev = Some (- ENOMEM, 0, [], d') \<and>
    rch_list d' = rch_list example_dev \<and> sent d' = sent example_dev \<and>
    r \<in> pool_avail (handlers (pool example_dev)) \<and> pool_avail (handlers (pool d')) = pool_avail (handlers (pool example_dev)) - {r} \<and>
    k \<in> pool_avail (mappings (pool example_dev)) \<and> pool_avail (mappings (pool d')) = pool_avail (mappings (pool example_dev)) - {k}"
  by (rule bridge_write_zero_leaks) (use example_pool_facts example_dev_inv in simp_all)

text \<open>
  Running out of mappings with a handler that was never used.  When the wait for a mapping times out, the
  read recycles the handler it took; a handler that has never been built has no device pointer, so the
  recycling dereferences a null pointer instead of returning \<open>-ETIMEDOUT\<close>.
\<close>

theorem bridge_read_no_mapping_oops:
  assumes "i2o_inv d" "pool_avail (handlers (pool d)) \<noteq> {}" "pool_avail (mappings (pool d)) = {}"
    "\<forall>r \<in> pool_avail (handlers (pool d)). rchs d ! r = zeroed_rch"
  shows "acq200_bridge_read p count posp ws [] sleep d = None"
proof -
  obtain r Q where a: "alloc_rch ws d = Some (Some r, d\<lparr>pool := (pool d)\<lparr>handlers := Q\<rparr>\<rparr>)"
    "r \<in> pool_avail (handlers (pool d))" "i2o_inv (d\<lparr>pool := (pool d)\<lparr>handlers := Q\<rparr>\<rparr>)"
    by (rule alloc_rch_now [OF assms(1,2), of ws]) (rule that; assumption)
  let ?d1 = "d\<lparr>pool := (pool d)\<lparr>handlers := Q\<rparr>\<rparr>"
  have "pool_inv (mappings (pool d))" using assms(1) by (simp add: i2o_inv_def rch_inv_def)
  from pool_alloc_nowait [OF this] obtain res M where
    m: "pool_alloc (mappings (pool d)) [] = Some (res, M)"
    "case res of None \<Rightarrow> True | Some x \<Rightarrow> x \<in> pool_avail (mappings (pool d))"
    by (auto split: option.splits)
  with assms(3) have "alloc_mapping [] ?d1 = Some (None, ?d1\<lparr>pool := (pool ?d1)\<lparr>mappings := M\<rparr>\<rparr>)"
    by (auto simp: alloc_mapping_def acq200_pool_alloc_mapping_def split: option.splits)
  moreover have "rchs d ! r = zeroed_rch" using assms(4) a(2) by blast
  ultimately show ?thesis
    using a(1) by (simp add: acq200_bridge_read_def acq200_bridge_read_generic_def i2o_recycleRch_def zeroed_rch_def Let_def)
qed

definition example_drained :: i2o_dev where
  "example_drained = example_dev\<lparr>pool := (pool example_dev)\<lparr>mappings := (mappings (pool example_dev))
     \<lparr>entries := map (\<lambda>e. e\<lparr>reserved := True\<rparr>) (entries (mappings (pool example_dev)))\<rparr>\<rparr>\<rparr>"

lemma example_drained_facts:
  "i2o_inv example_drained" "pool_avail (mappings (pool example_drained)) = {}"
  "pool_avail (handlers (pool example_drained)) = {0..<16}" "rchs example_drained = replicate 16 zeroed_rch"
proof -
  note p = pool_create_mappings [OF example_pools]
  show "pool_avail (mappings (pool example_drained)) = {}" by (auto simp: example_drained_def pool_avail_def)
  show "pool_avail (handlers (pool example_drained)) = {0..<16}" using example_pool_facts by (simp add: example_drained_def)
  show r: "rchs example_drained = replicate 16 zeroed_rch" by (simp add: example_drained_def example_dev_def p NHANDLERS_def)
  have "pool_inv (mappings (pool example_drained))"
    using p(1) by (simp add: example_drained_def example_dev_def pool_inv_def comp_def)
  then show "i2o_inv example_drained"
    using example_dev_inv(1) by (simp add: example_drained_def i2o_inv_def rch_inv_def) (simp add: example_dev_def)
qed

theorem bridge_read_no_mapping_oops_witness:
  "acq200_bridge_read 0 4096 0 [] [] (\<lambda>e. e) example_drained = None"
  by (rule bridge_read_no_mapping_oops) (use example_drained_facts in simp_all)

text \<open>
  A send that fails.  When the card has no free inbound frame the request is not sent, but the write
  ignores that: it reports success, its handler stays listed, and the next message will carry the same id
  as this handler waits for.
\<close>

theorem bridge_write_unsent_duplicates_id:
  assumes "i2o_inv d" "paths d p = Some path" "pool_avail (handlers (pool d)) \<noteq> {}" "pool_avail (mappings (pool d)) \<noteq> {}"
    "mappings_nonempty d" "0 < count" "iqp d = []"
  shows "\<exists>c k r d'. acq200_bridge_write p count posp ws wm d = Some (c, posp + c, [(PoolMap k, c)], d') \<and> 0 < c \<and>
    sent d' = sent d \<and> rch_list d' = rch_list d @ [r] \<and> command_id (rchs d' ! r) = next_id d' \<and> \<not> fresh_id d'"
proof -
  obtain r k e where e: "k \<in> pool_avail (mappings (pool d))"
    "acq200_bridge_write p count posp ws wm d = (let c = min count (io_len (io_mappings (pool d) ! k)) in
       Some (c, posp + c, [(PoolMap k, c)], e))"
    "rch_list e = rch_list d @ [r]" "r < length (rchs d)"
    "rchs e = (rchs d)[r := listed_rch d r RecycleRchWrapper p (Some (PoolMap k)) RCH_KB_POOL]"
    "iqp d = [] \<Longrightarrow> sent e = sent d \<and> i2o_last_id_out e = i2o_last_id_out d"
    by (rule write_posts [OF assms(1-6), of posp ws wm]) (rule that; assumption)
  have "0 < min count (io_len (io_mappings (pool d) ! k))"
    using assms(5,6) e(1) pool_avail_subset [of "mappings (pool d)"] by (auto simp: mappings_nonempty_def)
  moreover have "command_id (rchs e ! r) = next_id e" using e(4,5) e(6) [OF assms(7)] by (simp add: listed_rch_def next_id_def)
  moreover from this have "\<not> fresh_id e" using e(3) by (auto simp: fresh_id_def)
  ultimately show ?thesis using e(2,3) e(6) [OF assms(7)] by (auto simp: Let_def)
qed

theorem bridge_write_unsent_duplicates_id_witness:
  "\<exists>c k r d'. acq200_bridge_write 0 100 0 [] [] (example_dev\<lparr>iqp := []\<rparr>) = Some (c, 0 + c, [(PoolMap k, c)], d') \<and> 0 < c \<and>
    sent d' = sent (example_dev\<lparr>iqp := []\<rparr>) \<and> rch_list d' = rch_list (example_dev\<lparr>iqp := []\<rparr>) @ [r] \<and>
    command_id (rchs d' ! r) = next_id d' \<and> \<not> fresh_id d'"
  by (rule bridge_write_unsent_duplicates_id [where path = example_path])
    (use example_pool_facts example_dev_inv in \<open>simp_all add: i2o_inv_def mappings_nonempty_def\<close>)



end
