(* ===== verification/Isr.thy ===== *)
theory Isr
  imports I2o_Inv "HOL-Library.Multiset"
begin

text \<open>
  Interrupt side of the driver (\<^verbatim>\<open>src/acq200.c\<close>: \<open>acq200_isr\<close> and what it calls; \<^verbatim>\<open>src/acq200_i2o.c\<close>: the
  backstop thread that picks up frames whose interrupt was lost).  The registers of the message unit
  are fields: \<open>oisr\<close> and \<open>odr\<close> as the card presents them, \<open>oimr\<close>, and \<open>oqp_in\<close>, the frames the card has
  posted and the host has not read; \<open>posted\<close> keeps all frames the card ever posted and \<open>csr_writes\<close> the
  writes with the byte offset of the register they hit.
\<close>

section \<open>State and registers\<close>

record isr_dev =
  core :: i2o_dev
  oisr :: u32
  oimr :: u32
  odr :: u32
  oqp_in :: "u32 list"
  posted :: "u32 list"
  csr_writes :: "(nat \<times> u32) list"
  interrupt_count :: "int list"
  response_received :: bool
  bad_report :: int

datatype irqreturn = IRQ_NONE | IRQ_HANDLED

definition ACQ200_ODR :: nat where "ACQ200_ODR = 0x2c"
definition ACQ200_OISR :: nat where "ACQ200_OISR = 0x30"
definition ACQ200_OIMR :: nat where "ACQ200_OIMR = 0x34"
definition ACQ200_OISR_OM_0 :: u32 where "ACQ200_OISR_OM_0 = 0x01"
definition ACQ200_OISR_OM_1 :: u32 where "ACQ200_OISR_OM_1 = 0x02"
definition ACQ200_OISR_ODI :: u32 where "ACQ200_OISR_ODI = 0x04"
definition ACQ200_OISR_OPQI :: u32 where "ACQ200_OISR_OPQI = 0x08"
definition BAD_MFA_THRESHOLD :: u32 where "BAD_MFA_THRESHOLD = 100"
definition IRQ_IGNORE :: u32 where "IRQ_IGNORE = ACQ200_OISR_OM_0 OR ACQ200_OISR_OM_1"

lemmas isr_reg_defs = ACQ200_ODR_def ACQ200_OISR_def ACQ200_OIMR_def ACQ200_OISR_OM_0_def
  ACQ200_OISR_OM_1_def ACQ200_OISR_ODI_def ACQ200_OISR_OPQI_def BAD_MFA_THRESHOLD_def IRQ_IGNORE_def

text \<open>\<open>CSR\<close> divides a byte offset by four and indexes a word array.\<close>

definition CSR :: "nat \<Rightarrow> nat" where "CSR byte_off = byte_off div 4 * 4"

definition csr_writel :: "u32 \<Rightarrow> nat \<Rightarrow> isr_dev \<Rightarrow> isr_dev" where
  "csr_writel v byte_off s = s\<lparr>csr_writes := csr_writes s @ [(CSR byte_off, v)],
     oimr := (if CSR byte_off = ACQ200_OIMR then v else oimr s)\<rparr>"

text \<open>Reading the outbound queue port pops a frame, or reads all ones.\<close>

definition readl_OQP :: "isr_dev \<Rightarrow> u32 \<times> isr_dev" where
  "readl_OQP s = (case oqp_in s of [] \<Rightarrow> (0xffffffff, s) | mfa # rest \<Rightarrow> (mfa, s\<lparr>oqp_in := rest\<rparr>))"

section \<open>Handlers\<close>

definition acq200_handle_incoming_message :: "int \<Rightarrow> isr_dev \<Rightarrow> int \<times> isr_dev" where
  "acq200_handle_incoming_message debug s =
     (let (mfa, s1) = readl_OQP s in
      if mfa = 0xffffffff \<or> mfa = 0 then (0, s1)
      else (1, s1\<lparr>core := acq200_consume_i2o debug mfa ((core s1)\<lparr>bad_mfa_count := 0\<rparr>)\<rparr>))"

definition acq200_incoming_message_isr :: "int \<Rightarrow> isr_dev \<Rightarrow> irqreturn \<times> isr_dev" where
  "acq200_incoming_message_isr debug s =
     (let (mfa, s1) = readl_OQP s in
      if mfa = 0xffffffff \<or> mfa = 0 then
        let n = bad_mfa_count (core s1) + 1; s2 = s1\<lparr>core := (core s1)\<lparr>bad_mfa_count := n\<rparr>\<rparr>
        in (IRQ_NONE, if BAD_MFA_THRESHOLD < n then csr_writel (oimr s2 OR ACQ200_OISR_OPQI) ACQ200_OIMR s2 else s2)
      else (IRQ_HANDLED, s1\<lparr>core := acq200_consume_i2o debug mfa ((core s1)\<lparr>bad_mfa_count := 0\<rparr>)\<rparr>))"

definition acq200_doorbell_isr :: "isr_dev \<Rightarrow> irqreturn \<times> isr_dev" where
  "acq200_doorbell_isr s = (IRQ_HANDLED, s\<lparr>response_received := True\<rparr>)"

definition count_irq :: "nat \<Rightarrow> isr_dev \<Rightarrow> isr_dev" where
  "count_irq i s = s\<lparr>interrupt_count := (interrupt_count s)[i := interrupt_count s ! i + 1]\<rparr>"

definition acq200_isr :: "int \<Rightarrow> isr_dev \<Rightarrow> irqreturn \<times> isr_dev" where
  "acq200_isr debug s =
     (let status = oisr s in
      if status AND NOT IRQ_IGNORE = 0 then
        (IRQ_NONE, if status AND IRQ_IGNORE \<noteq> 0 then csr_writel status (unat IRQ_IGNORE) s else s)
      else if status AND ACQ200_OISR_OPQI \<noteq> 0 then
        acq200_incoming_message_isr debug (count_irq 0 (s\<lparr>bad_report := 0\<rparr>))
      else if status AND ACQ200_OISR_ODI \<noteq> 0 then
        acq200_doorbell_isr (count_irq 1 ((csr_writel (odr s) ACQ200_ODR s)\<lparr>bad_report := 0\<rparr>))
      else
        (IRQ_HANDLED, count_irq 2 ((csr_writel status ACQ200_OISR s)\<lparr>bad_report := bad_report s + 1\<rparr>)))"

text \<open>
  The backstop thread: for each turn, whether it should stop and the result of its timed wait.  The
  wait has no condition, so a result other than zero means a signal and ends the thread.
\<close>

fun i2o_missed_int_checker :: "int \<Rightarrow> (bool \<times> int) list \<Rightarrow> isr_dev \<Rightarrow> isr_dev" where
  "i2o_missed_int_checker debug [] s = s"
| "i2o_missed_int_checker debug ((should_stop, timeout) # turns) s =
     (if should_stop then s
      else if timeout \<noteq> 0 then s
      else i2o_missed_int_checker debug turns (snd (acq200_handle_incoming_message debug s)))"

section \<open>Consuming a frame\<close>

definition queued :: "isr_dev \<Rightarrow> u32 list" where
  "queued s = ring_queue NSTREAMBUF (streambuf (core s))"

lemma consume_ok:
  assumes "i2o_inv d" "mfa \<noteq> 0xffffffff"
  shows "i2o_inv (acq200_consume_i2o debug mfa d)"
    "mset (oqp (acq200_consume_i2o debug mfa d)) + mset (ring_queue NSTREAMBUF (streambuf (acq200_consume_i2o debug mfa d))) =
       add_mset mfa (mset (oqp d) + mset (ring_queue NSTREAMBUF (streambuf d)))"
    "aux_task_waiting (acq200_consume_i2o debug mfa d) = aux_task_waiting d"
proof -
  have r: "ring_inv NSTREAMBUF (streambuf d)" using assms(1) by (simp add: i2o_inv_def stream_ok_def)
  obtain rc sb where p: "streamPut (streambuf d) mfa = (rc, sb)" by (metis surj_pair)
  from stream.put_cases [OF r, of mfa] p have inv: "ring_inv NSTREAMBUF sb" and
    c: "rc = 0 \<and> ring_queue NSTREAMBUF sb = ring_queue NSTREAMBUF (streambuf d) @ [mfa] \<or> rc = -1 \<and> sb = streambuf d"
    by auto
  show "i2o_inv (acq200_consume_i2o debug mfa d)"
    "mset (oqp (acq200_consume_i2o debug mfa d)) + mset (ring_queue NSTREAMBUF (streambuf (acq200_consume_i2o debug mfa d))) =
       add_mset mfa (mset (oqp d) + mset (ring_queue NSTREAMBUF (streambuf d)))"
    "aux_task_waiting (acq200_consume_i2o debug mfa d) = aux_task_waiting d"
    using assms c inv p
    by (auto simp: acq200_consume_i2o_def Let_def i2o_inv_def stream_ok_def STREAM_MFA_INVALID_def
        i2o_return_message_def acq200_dev_i2o_return_mfa_def)
qed

section \<open>Interleavings\<close>

text \<open>
  Steps of the card and the host in any order: the card posts a frame and raises a status, an interrupt is
  taken, the backstop thread runs, the tasklet runs (with whatever the frames contain), the auxiliary task
  starts to wait, a process works on the transport.  The second component of the state collects the frames
  handed to the auxiliary task.
\<close>

inductive io_step :: "int \<Rightarrow> isr_dev \<times> u32 list \<Rightarrow> isr_dev \<times> u32 list \<Rightarrow> bool" for debug where
  post: "mfa \<noteq> 0 \<Longrightarrow> mfa \<noteq> 0xffffffff \<Longrightarrow>
    io_step debug (s, a) (s\<lparr>oqp_in := oqp_in s @ [mfa], posted := posted s @ [mfa]\<rparr>, a)"
| status: "io_step debug (s, a) (s\<lparr>oisr := v, odr := w\<rparr>, a)"
| irq: "io_step debug (s, a) (snd (acq200_isr debug s), a)"
| backstop: "io_step debug (s, a) (i2o_missed_int_checker debug turns s, a)"
| bottom_half: "acq200_streaming_isr_bh debug msg_at (core s) = Some c \<Longrightarrow>
    io_step debug (s, a) (s\<lparr>core := c\<lparr>tasklet := False\<rparr>\<rparr>,
      if aux_task_waiting (core s) \<and> \<not> aux_task_waiting c then a @ [aux_mfa c] else a)"
| aux_wait: "io_step debug (s, a) (s\<lparr>core := (core s)\<lparr>aux_task_waiting := True\<rparr>\<rparr>, a)"
| process: "i2o_inv c \<Longrightarrow> streambuf c = streambuf (core s) \<Longrightarrow> oqp c = oqp (core s) \<Longrightarrow>
    io_step debug (s, a) (s\<lparr>core := c\<rparr>, a)"

definition frames_inv :: "isr_dev \<times> u32 list \<Rightarrow> bool" where
  "frames_inv x \<longleftrightarrow> (case x of (s, a) \<Rightarrow> i2o_inv (core s) \<and> 0xffffffff \<notin> set (oqp_in s) \<and> 0 \<notin> set (oqp_in s) \<and>
     mset (posted s) = mset (oqp_in s) + mset (queued s) + mset (oqp (core s)) + mset a)"

lemma i2o_inv_bad_mfa [simp]: "i2o_inv (d\<lparr>bad_mfa_count := n\<rparr>) = i2o_inv d"
  by (simp add: i2o_inv_def)

lemma consume_frames:
  assumes "frames_inv (s, a)" "oqp_in s = mfa # rest"
  shows "frames_inv (s\<lparr>oqp_in := rest, core := acq200_consume_i2o debug mfa ((core s)\<lparr>bad_mfa_count := 0\<rparr>)\<rparr>, a)"
proof -
  from assms have "i2o_inv ((core s)\<lparr>bad_mfa_count := 0\<rparr>)" "mfa \<noteq> 0xffffffff" by (auto simp: frames_inv_def)
  note c = consume_ok [OF this, of debug]
  from assms c(1) show ?thesis
    using c(2) by (auto simp: frames_inv_def queued_def ac_simps)
qed

lemma frames_inv_cong:
  "core s' = core s \<Longrightarrow> oqp_in s' = oqp_in s \<Longrightarrow> posted s' = posted s \<Longrightarrow> frames_inv (s', a) = frames_inv (s, a)"
  by (simp add: frames_inv_def queued_def)

lemma frames_inv_bad_mfa [simp]: "frames_inv (s\<lparr>core := (core s)\<lparr>bad_mfa_count := n\<rparr>\<rparr>, a) = frames_inv (s, a)"
  by (simp add: frames_inv_def queued_def)

lemma handle_incoming_frames:
  assumes "frames_inv (s, a)"
  shows "frames_inv (snd (acq200_handle_incoming_message debug s), a)"
proof (cases "oqp_in s")
  case Nil
  with assms show ?thesis by (simp add: acq200_handle_incoming_message_def readl_OQP_def)
next
  case (Cons mfa rest)
  moreover from Cons assms have "mfa \<noteq> 0xffffffff" "mfa \<noteq> 0" by (auto simp: frames_inv_def)
  ultimately show ?thesis
    using consume_frames [OF assms Cons, of debug] by (simp add: acq200_handle_incoming_message_def readl_OQP_def)
qed

lemma incoming_isr_frames:
  assumes "frames_inv (s, a)"
  shows "frames_inv (snd (acq200_incoming_message_isr debug s), a)"
proof (cases "oqp_in s")
  case Nil
  let ?s = "s\<lparr>core := (core s)\<lparr>bad_mfa_count := bad_mfa_count (core s) + 1\<rparr>\<rparr>"
  have "frames_inv (csr_writel v r ?s, a)" for v r
    using assms frames_inv_cong [of "csr_writel v r ?s" ?s a] by (simp add: csr_writel_def)
  with Nil assms show ?thesis by (simp add: acq200_incoming_message_isr_def readl_OQP_def Let_def)
next
  case (Cons mfa rest)
  moreover from Cons assms have "mfa \<noteq> 0xffffffff" "mfa \<noteq> 0" by (auto simp: frames_inv_def)
  ultimately show ?thesis
    using consume_frames [OF assms Cons, of debug] by (simp add: acq200_incoming_message_isr_def readl_OQP_def)
qed

lemma isr_frames:
  assumes "frames_inv (s, a)"
  shows "frames_inv (snd (acq200_isr debug s), a)"
proof -
  have "frames_inv (count_irq 0 (s\<lparr>bad_report := 0\<rparr>), a)"
    using assms frames_inv_cong [of "count_irq 0 (s\<lparr>bad_report := 0\<rparr>)" s a] by (simp add: count_irq_def)
  from incoming_isr_frames [OF this] assms show ?thesis
    by (auto simp: acq200_isr_def Let_def acq200_doorbell_isr_def csr_writel_def count_irq_def frames_inv_def queued_def)
qed

lemma checker_frames: "frames_inv (s, a) \<Longrightarrow> frames_inv (i2o_missed_int_checker debug turns s, a)"
  by (induction debug turns s rule: i2o_missed_int_checker.induct) (auto simp: handle_incoming_frames)

lemma bottom_half_frames:
  assumes "frames_inv (s, a)" "acq200_streaming_isr_bh debug msg_at (core s) = Some c"
  shows "frames_inv (s\<lparr>core := c\<lparr>tasklet := False\<rparr>\<rparr>,
    if aux_task_waiting (core s) \<and> \<not> aux_task_waiting c then a @ [aux_mfa c] else a)"
proof -
  from assms bh_ok [of "core s" debug msg_at] have "i2o_inv c" and b: "bh_frames (core s) c"
    by (auto simp: frames_inv_def)
  then have "i2o_inv (c\<lparr>tasklet := False\<rparr>)" by (simp add: i2o_inv_def)
  with assms(1) b show ?thesis
    by (auto simp: frames_inv_def queued_def bh_frames_def)
qed

lemma io_step_frames: "io_step debug x y \<Longrightarrow> frames_inv x \<Longrightarrow> frames_inv y"
proof (induction rule: io_step.induct)
  case (post mfa s a)
  then show ?case by (auto simp: frames_inv_def queued_def)
next
  case (status s a)
  then show ?case by (simp add: frames_inv_def queued_def)
next
  case (process c s a)
  then show ?case by (simp add: frames_inv_def queued_def)
next
  case (aux_wait s a)
  then show ?case by (simp add: frames_inv_def queued_def i2o_inv_def)
qed (blast intro: isr_frames checker_frames bottom_half_frames)+

lemma io_steps_frames: "(io_step debug)\<^sup>*\<^sup>* x y \<Longrightarrow> frames_inv x \<Longrightarrow> frames_inv y"
  by (induction rule: rtranclp_induct) (auto intro: io_step_frames)

section \<open>The trap against an interrupt storm\<close>

lemma bad_isr_step:
  assumes "oqp_in s = []" "bad_mfa_count (core s) = of_nat n" "n < 1000"
  shows "snd (acq200_incoming_message_isr debug s) =
    (let s1 = s\<lparr>core := (core s)\<lparr>bad_mfa_count := of_nat (Suc n)\<rparr>\<rparr>
     in if 100 < Suc n then csr_writel (oimr s OR ACQ200_OISR_OPQI) ACQ200_OIMR s1 else s1)"
proof -
  have "bad_mfa_count (core s) + 1 = of_nat (Suc n)" using assms(2) by simp
  moreover have "BAD_MFA_THRESHOLD < of_nat (Suc n) \<longleftrightarrow> 100 < Suc n"
  proof -
    have "unat (of_nat (Suc n) :: u32) = Suc n" using assms(3) by (subst unat_of_nat) (rule mod_less, simp)
    moreover have "unat BAD_MFA_THRESHOLD = 100" by (simp add: BAD_MFA_THRESHOLD_def)
    ultimately show ?thesis by (simp only: word_less_nat_alt)
  qed
  ultimately show ?thesis
    using assms(1) by (simp add: acq200_incoming_message_isr_def readl_OQP_def Let_def del: of_nat_Suc)
qed

lemma bad_isr_run:
  assumes "oqp_in s = []" "bad_mfa_count (core s) = 0" "oimr s AND ACQ200_OISR_OPQI = 0" "n < 1000"
  shows "let t = ((\<lambda>s. snd (acq200_incoming_message_isr debug s)) ^^ n) s in
    oqp_in t = [] \<and> bad_mfa_count (core t) = of_nat n \<and>
    oimr t = (if 100 < n then oimr s OR ACQ200_OISR_OPQI else oimr s)"
  using assms(4)
proof (induction n)
  case 0
  with assms show ?case by simp
next
  case (Suc n)
  let ?f = "\<lambda>s. snd (acq200_incoming_message_isr debug s)"
  let ?t = "(?f ^^ n) s"
  from Suc have t: "oqp_in ?t = []" "bad_mfa_count (core ?t) = of_nat n"
    "oimr ?t = (if 100 < n then oimr s OR ACQ200_OISR_OPQI else oimr s)" by (simp_all add: Let_def)
  have c: "CSR ACQ200_OIMR = ACQ200_OIMR" by (simp add: CSR_def ACQ200_OIMR_def)
  have "?f ?t = (let s1 = ?t\<lparr>core := (core ?t)\<lparr>bad_mfa_count := of_nat (Suc n)\<rparr>\<rparr>
     in if 100 < Suc n then csr_writel (oimr ?t OR ACQ200_OISR_OPQI) ACQ200_OIMR s1 else s1)"
    using Suc.prems by (intro bad_isr_step t(1,2)) simp
  then show ?case using t by (simp add: Let_def csr_writel_def c or.assoc del: of_nat_Suc)
qed

section \<open>Properties\<close>

text \<open>
  C2. No frame is lost or duplicated.  In every interleaving of the card, interrupts, the backstop thread,
  the bottom half, the auxiliary task and processes that respect the transport invariant, each frame the
  card has posted is in exactly one place: still in the card's queue, in the driver's ring, handed back to
  the card, or with the auxiliary task.
\<close>

theorem frames_conserved:
  assumes "(io_step debug)\<^sup>*\<^sup>* (s0, []) (s, a)" "i2o_inv (core s0)"
    "posted s0 = []" "oqp_in s0 = []" "queued s0 = []" "oqp (core s0) = []"
  shows "i2o_inv (core s) \<and>
    mset (posted s) = mset (oqp_in s) + mset (queued s) + mset (oqp (core s)) + mset a"
  using io_steps_frames [OF assms(1)] assms(2-) by (simp add: frames_inv_def)

definition example_isr :: isr_dev where
  "example_isr = \<lparr>core = example_dev, oisr = 0, oimr = 0, odr = 0, oqp_in = [], posted = [], csr_writes = [],
     interrupt_count = [0, 0, 0, 0], response_received = False, bad_report = 0\<rparr>"

definition example_isr_posted :: isr_dev where
  "example_isr_posted = example_isr\<lparr>oqp_in := [0x400], posted := [0x400]\<rparr>"

lemma example_io_step: "(io_step 0)\<^sup>*\<^sup>* (example_isr, []) (snd (acq200_isr 0 example_isr_posted), [])"
proof -
  have "io_step 0 (example_isr, []) (example_isr_posted, [])"
    using io_step.post [of "0x400" 0 example_isr "[]"] by (simp add: example_isr_posted_def example_isr_def)
  moreover have "io_step 0 (example_isr_posted, []) (snd (acq200_isr 0 example_isr_posted), [])" by (rule io_step.irq)
  ultimately show ?thesis by (blast intro: rtranclp.rtrancl_into_rtrancl)
qed

theorem frames_conserved_witness:
  "i2o_inv (core (snd (acq200_isr 0 example_isr_posted))) \<and>
    mset (posted (snd (acq200_isr 0 example_isr_posted))) = mset (oqp_in (snd (acq200_isr 0 example_isr_posted))) +
      mset (queued (snd (acq200_isr 0 example_isr_posted))) + mset (oqp (core (snd (acq200_isr 0 example_isr_posted)))) + mset []"
  by (rule frames_conserved [OF example_io_step])
    (use example_dev_inv in \<open>simp_all add: example_isr_def queued_def, simp add: example_dev_def\<close>)

text \<open>
  The trap against an interrupt storm.  When the interrupt keeps firing with nothing in the queue, the
  first 100 interrupts leave the mask register alone and from the 101st on the post queue interrupt is
  masked, the other mask bits staying as they were.
\<close>

theorem bad_mfa_trap:
  assumes "oqp_in s = []" "bad_mfa_count (core s) = 0" "oimr s AND ACQ200_OISR_OPQI = 0" "n < 1000"
  shows "oimr (((\<lambda>s. snd (acq200_incoming_message_isr debug s)) ^^ n) s) =
    (if n \<le> 100 then oimr s else oimr s OR ACQ200_OISR_OPQI)"
  using bad_isr_run [OF assms, of debug] by (auto simp: Let_def)

theorem bad_mfa_trap_witness:
  "oimr (((\<lambda>s. snd (acq200_incoming_message_isr 0 s)) ^^ 101) example_isr) =
    (if (101 :: nat) \<le> 100 then oimr example_isr else oimr example_isr OR ACQ200_OISR_OPQI)"
  by (rule bad_mfa_trap) (simp_all add: example_isr_def example_dev_def)

text \<open>
  Doorbell interrupts.  A status with the doorbell bit and without the post queue bit is acknowledged by
  writing the doorbell register back to itself, is counted, signals the mailbox response and touches neither
  the transport nor the interrupt mask.
\<close>

theorem isr_doorbell:
  assumes "oisr s AND ACQ200_OISR_OPQI = 0" "oisr s AND ACQ200_OISR_ODI \<noteq> 0"
  shows "acq200_isr debug s = (IRQ_HANDLED, s\<lparr>csr_writes := csr_writes s @ [(ACQ200_ODR, odr s)],
    interrupt_count := (interrupt_count s)[1 := interrupt_count s ! 1 + 1], response_received := True, bad_report := 0\<rparr>)"
proof -
  have "ACQ200_OISR_ODI AND NOT IRQ_IGNORE = ACQ200_OISR_ODI" by (simp add: isr_reg_defs)
  then have "(oisr s AND NOT IRQ_IGNORE) AND ACQ200_OISR_ODI = oisr s AND ACQ200_OISR_ODI"
    by (metis and.assoc and.commute)
  then have "oisr s AND NOT IRQ_IGNORE \<noteq> 0" using assms(2) by auto
  moreover have "CSR ACQ200_ODR = ACQ200_ODR" "CSR ACQ200_ODR \<noteq> ACQ200_OIMR" by (simp_all add: CSR_def isr_reg_defs)
  ultimately show ?thesis
    using assms by (simp add: acq200_isr_def acq200_doorbell_isr_def count_irq_def csr_writel_def)
qed

theorem isr_doorbell_witness:
  "acq200_isr 0 (example_isr\<lparr>oisr := 4\<rparr>) = (IRQ_HANDLED, (example_isr\<lparr>oisr := 4\<rparr>)
    \<lparr>csr_writes := csr_writes (example_isr\<lparr>oisr := 4\<rparr>) @ [(ACQ200_ODR, odr (example_isr\<lparr>oisr := 4\<rparr>))],
    interrupt_count := (interrupt_count (example_isr\<lparr>oisr := 4\<rparr>))[1 := interrupt_count (example_isr\<lparr>oisr := 4\<rparr>) ! 1 + 1],
    response_received := True, bad_report := 0\<rparr>)"
  by (rule isr_doorbell) (simp_all add: isr_reg_defs)

text \<open>
  Ignored status bits.  For a status with only the two message bits the interrupt is declined and the
  status is written, but to the register at byte offset 0 and not to the status register, because the mask
  of the ignored bits is passed as the register offset.
\<close>

theorem isr_ignored_bits_register:
  assumes "oisr s \<noteq> 0" "oisr s AND NOT IRQ_IGNORE = 0"
  shows "acq200_isr debug s = (IRQ_NONE, s\<lparr>csr_writes := csr_writes s @ [(0, oisr s)]\<rparr>) \<and> ACQ200_OISR \<noteq> 0"
proof -
  have "(oisr s AND IRQ_IGNORE) OR (oisr s AND NOT IRQ_IGNORE) = oisr s"
    by (simp add: bit.conj_disj_distrib [symmetric])
  then have "oisr s AND IRQ_IGNORE \<noteq> 0" using assms by auto
  moreover have "CSR (unat IRQ_IGNORE) = 0" by (simp add: CSR_def isr_reg_defs)
  ultimately show ?thesis
    using assms by (simp add: acq200_isr_def csr_writel_def isr_reg_defs)
qed

theorem isr_ignored_bits_register_witness:
  "acq200_isr 0 (example_isr\<lparr>oisr := 2\<rparr>) = (IRQ_NONE, (example_isr\<lparr>oisr := 2\<rparr>)
    \<lparr>csr_writes := csr_writes (example_isr\<lparr>oisr := 2\<rparr>) @ [(0, oisr (example_isr\<lparr>oisr := 2\<rparr>))]\<rparr>) \<and> ACQ200_OISR \<noteq> 0"
  by (rule isr_ignored_bits_register) (simp_all add: isr_reg_defs)

end
