(* ===== verification/Wire.thy ===== *)
theory Wire
  imports I2o_Inv
begin

text \<open>
  The messages as bytes.  The driver copies a message from the path's scratch area into a frame of the card's memory
  (\<open>acq200_sendI2O_kbuf\<close> of \<^verbatim>\<open>src/acq200_i2o.c\<close>), where the card reads a header and a list of request records
  that ends with a record of zeros (\<^verbatim>\<open>src/acq32busprot.h\<close>).  Here the structures of that header are given as the
  little-endian bytes the two processors share, and the copy as an update of memory.
\<close>

section \<open>Codecs\<close>

text \<open>A fixed number of bytes per value, and reading back what was written, also out of the middle of a byte string and for
arrays.\<close>

locale codec =
  fixes enc :: "'a \<Rightarrow> u8 list" and dec :: "u8 list \<Rightarrow> 'a" and sz :: nat
  assumes enc_length: "length (enc x) = sz" and dec_enc: "dec (enc x) = x" and sz_pos: "0 < sz"
begin

lemma dec_at: "length xs = n \<Longrightarrow> dec (take sz (drop n (xs @ enc x @ ys))) = x"
  by (simp add: enc_length dec_enc)

lemma array_length: "length (concat (map enc xs)) = sz * length xs"
  by (induction xs) (simp_all add: enc_length)

lemma enc_inj: "enc x = enc y \<Longrightarrow> x = y"
  using dec_enc by metis

end

text \<open>Cutting a byte string into pieces of \<open>k\<close>, as indexing an array of such structures does.\<close>

definition piece :: "nat \<Rightarrow> u8 list \<Rightarrow> nat \<Rightarrow> u8 list" where "piece k bs i = take k (drop (k * i) bs)"

context codec
begin

lemma piece_of_array: "i < length xs \<Longrightarrow> dec (piece sz (concat (map enc xs) @ rest) i) = xs ! i"
proof (induction xs arbitrary: i)
  case (Cons x xs)
  then show ?case by (cases i) (simp_all add: piece_def enc_length dec_enc)
qed simp

end

section \<open>Little-endian words\<close>

fun le_bytes :: "nat \<Rightarrow> nat \<Rightarrow> u8 list" where
  "le_bytes 0 n = []"
| "le_bytes (Suc k) n = of_nat (n mod 256) # le_bytes k (n div 256)"

fun le_nat :: "u8 list \<Rightarrow> nat" where
  "le_nat [] = 0"
| "le_nat (b # bs) = unat b + 256 * le_nat bs"

lemma length_le_bytes [simp]: "length (le_bytes k n) = k"
  by (induction k arbitrary: n) simp_all

lemma unat_u8: "n < 256 \<Longrightarrow> unat (of_nat n :: u8) = n"
  by (simp add: unsigned_of_nat take_bit_nat_eq_self)

lemma le_nat_le_bytes: "n < 256 ^ k \<Longrightarrow> le_nat (le_bytes k n) = n"
proof (induction k arbitrary: n)
  case (Suc k)
  then have "n div 256 < 256 ^ k" by (simp add: less_mult_imp_div_less mult.commute)
  then show ?case using Suc.IH [of "n div 256"] by (simp add: unat_u8 [of "n mod 256"] del: of_nat_mod)
qed simp

definition enc16 :: "u16 \<Rightarrow> u8 list" where "enc16 w = le_bytes 2 (unat w)"
definition dec16 :: "u8 list \<Rightarrow> u16" where "dec16 bs = of_nat (le_nat bs)"
definition enc32 :: "u32 \<Rightarrow> u8 list" where "enc32 w = le_bytes 4 (unat w)"
definition dec32 :: "u8 list \<Rightarrow> u32" where "dec32 bs = of_nat (le_nat bs)"

interpretation c16: codec enc16 dec16 2
proof
  fix x :: u16
  have "unat x < 256 ^ 2" by (rule less_le_trans [OF unsigned_less]) simp
  then show "dec16 (enc16 x) = x" unfolding enc16_def dec16_def by (simp add: le_nat_le_bytes)
qed (simp_all add: enc16_def)

interpretation c32: codec enc32 dec32 4
proof
  fix x :: u32
  have "unat x < 256 ^ 4" by (rule less_le_trans [OF unsigned_less]) simp
  then show "dec32 (enc32 x) = x" unfolding enc32_def dec32_def by (simp add: le_nat_le_bytes)
qed (simp_all add: enc32_def)

section \<open>The structures\<close>

definition enc_hrdr :: "HOST_REQUEST_DATA_RECORD \<Rightarrow> u8 list" where
  "enc_hrdr h = enc32 (hrd_pci h) @ enc32 (hrd_start h) @ enc32 (hrd_nsamples h) @ enc16 (hrd_chan h) @ enc16 (hrd_stride h)"

definition dec_hrdr :: "u8 list \<Rightarrow> HOST_REQUEST_DATA_RECORD" where
  "dec_hrdr bs = \<lparr>hrd_pci = dec32 (take 4 bs), hrd_start = dec32 (take 4 (drop 4 bs)), hrd_nsamples = dec32 (take 4 (drop 8 bs)),
     hrd_chan = dec16 (take 2 (drop 12 bs)), hrd_stride = dec16 (take 2 (drop 14 bs))\<rparr>"

definition enc_header :: "MESSAGE_HEADER \<Rightarrow> u8 list" where
  "enc_header h = enc16 (mh_id h) @ enc16 (mh_length h) @ enc32 (mh_type h)"

definition dec_header :: "u8 list \<Rightarrow> MESSAGE_HEADER" where
  "dec_header bs = \<lparr>mh_id = dec16 (take 2 bs), mh_length = dec16 (take 2 (drop 2 bs)), mh_type = dec32 (take 4 (drop 4 bs))\<rparr>"

interpretation hrdr: codec enc_hrdr dec_hrdr HRDR_SZ
  by unfold_locales (simp_all add: enc_hrdr_def dec_hrdr_def HRDR_SZ_def c16.enc_length c32.enc_length c16.dec_enc c32.dec_enc)

interpretation header: codec enc_header dec_header MESSAGE_HEADER_SIZE
  by unfold_locales (simp_all add: enc_header_def dec_header_def MESSAGE_HEADER_SIZE_def c16.enc_length c32.enc_length c16.dec_enc c32.dec_enc)

definition enc_message :: "MESSAGE \<Rightarrow> u8 list" where
  "enc_message m = enc_header (m_header m) @ concat (map enc_hrdr [m_hrdr0 m, m_hrdr1 m])"

text \<open>What the copy takes from the scratch area: as many bytes as the header says, from a message followed by whatever the area holds.\<close>

definition SCRATCH :: nat where "SCRATCH = 2048"

definition copied :: "u8 list \<Rightarrow> MESSAGE \<Rightarrow> u8 list" where
  "copied rest m = take (MESSAGE_ACTUAL_LEN m) (enc_message m @ rest)"

section \<open>Memory of the card\<close>

definition memcpy :: "nat \<Rightarrow> u8 list \<Rightarrow> (nat \<Rightarrow> u8) \<Rightarrow> (nat \<Rightarrow> u8)" where
  "memcpy dst bs ram = (\<lambda>a. if dst \<le> a \<and> a < dst + length bs then bs ! (a - dst) else ram a)"

definition fetch :: "(nat \<Rightarrow> u8) \<Rightarrow> nat \<Rightarrow> nat \<Rightarrow> u8 list" where "fetch ram a n = map ram [a..<a + n]"

fun send_all :: "u8 list \<Rightarrow> (u32 \<times> MESSAGE) list \<Rightarrow> (nat \<Rightarrow> u8) \<Rightarrow> (nat \<Rightarrow> u8)" where
  "send_all rest [] ram = ram"
| "send_all rest ((frame, m) # ms) ram = send_all rest ms (memcpy (unat frame) (copied rest m) ram)"

text \<open>The card's view of a frame: the header, and the records up to the one of zeros, at most as many as fit.\<close>

definition frame_header :: "(nat \<Rightarrow> u8) \<Rightarrow> nat \<Rightarrow> MESSAGE_HEADER" where
  "frame_header ram a = dec_header (fetch ram a MESSAGE_HEADER_SIZE)"

definition frame_records :: "(nat \<Rightarrow> u8) \<Rightarrow> nat \<Rightarrow> HOST_REQUEST_DATA_RECORD list" where
  "frame_records ram a =
     takeWhile (\<lambda>h. h \<noteq> zero_hrdr) (map (\<lambda>i. dec_hrdr (fetch ram (a + MESSAGE_HEADER_SIZE + HRDR_SZ * i) HRDR_SZ)) [0..<MESSAGE_HRDR_LEN])"

section \<open>Lemmas\<close>

lemma length_enc_message: "length (enc_message m) = MESSAGE_HEADER_SIZE + 2 * HRDR_SZ"
  by (simp add: enc_message_def header.enc_length hrdr.enc_length)

lemma length_copied:
  "MESSAGE_ACTUAL_LEN m \<le> MESSAGE_HEADER_SIZE + 2 * HRDR_SZ + length rest \<Longrightarrow> length (copied rest m) = MESSAGE_ACTUAL_LEN m"
  by (simp add: copied_def length_enc_message)

lemma fetch_memcpy: "off + n \<le> length bs \<Longrightarrow> fetch (memcpy a bs ram) (a + off) n = take n (drop off bs)"
  by (rule nth_equalityI) (simp_all add: fetch_def memcpy_def)

lemma fetch_elsewhere:
  "b + n \<le> a \<or> a + length bs \<le> b \<Longrightarrow> fetch (memcpy a bs ram) b n = fetch ram b n"
  by (rule nth_equalityI) (auto simp: fetch_def memcpy_def)

lemma fetch_send_elsewhere:
  assumes "\<forall>(f, m) \<in> set ms. b + n \<le> unat f \<or> unat f + length (copied rest m) \<le> b"
  shows "fetch (send_all rest ms ram) b n = fetch ram b n"
  using assms by (induction rest ms ram rule: send_all.induct) (auto simp: fetch_elsewhere)

lemma send_all_append: "send_all rest (ms @ ms') ram = send_all rest ms' (send_all rest ms ram)"
  by (induction rest ms ram rule: send_all.induct) simp_all

text \<open>Two frames on multiples of the message length overlap only if they are the same.\<close>

lemma frames_apart:
  assumes "L dvd (a :: nat)" "L dvd b" "a \<noteq> b"
  shows "a + L \<le> b \<or> b + L \<le> a"
proof -
  obtain i j where "a = L * i" "b = L * j" using assms(1,2) by (auto elim!: dvdE)
  moreover have "i < j \<or> j < i" using assms(3) calculation by auto
  ultimately show ?thesis using mult_le_mono2 [of "Suc i" j L] mult_le_mono2 [of "Suc j" i L] by auto
qed

text \<open>The card's view of a frame that holds a message of two records.\<close>

lemma frame_of_message:
  assumes "mh_length (m_header m) = of_nat (2 * HRDR_SZ)"
  shows "frame_header (memcpy a (copied rest m) ram) a = m_header m"
    "m_hrdr0 m \<noteq> zero_hrdr \<Longrightarrow> m_hrdr1 m = zero_hrdr \<Longrightarrow> frame_records (memcpy a (copied rest m) ram) a = [m_hrdr0 m]"
proof -
  let ?ram = "memcpy a (copied rest m) ram"
  have c: "copied rest m = enc_header (m_header m) @ enc_hrdr (m_hrdr0 m) @ enc_hrdr (m_hrdr1 m)"
    using assms by (simp add: copied_def MESSAGE_ACTUAL_LEN_def enc_message_def header.enc_length hrdr.enc_length HRDR_SZ_def)
  have at: "fetch ?ram (a + off) n = take n (drop off (copied rest m))" if "off + n \<le> MESSAGE_HEADER_SIZE + 2 * HRDR_SZ" for off n
    by (rule fetch_memcpy) (use that in \<open>simp add: c header.enc_length hrdr.enc_length\<close>)
  show "frame_header ?ram a = m_header m"
    using at [of 0 MESSAGE_HEADER_SIZE] by (simp add: frame_header_def c header.enc_length header.dec_enc)
  assume r: "m_hrdr0 m \<noteq> zero_hrdr" "m_hrdr1 m = zero_hrdr"
  have "dec_hrdr (fetch ?ram (a + MESSAGE_HEADER_SIZE) HRDR_SZ) = m_hrdr0 m"
    using at [of MESSAGE_HEADER_SIZE HRDR_SZ] by (simp add: c header.enc_length hrdr.enc_length hrdr.dec_enc)
  moreover have "dec_hrdr (fetch ?ram (a + MESSAGE_HEADER_SIZE + HRDR_SZ) HRDR_SZ) = zero_hrdr"
    using at [of "MESSAGE_HEADER_SIZE + HRDR_SZ" HRDR_SZ] r(2)
    by (simp add: c header.enc_length hrdr.enc_length hrdr.dec_enc add.assoc)
  moreover have "[0..<MESSAGE_HRDR_LEN] = 0 # 1 # [2..<MESSAGE_HRDR_LEN]"
    by (simp add: upt_conv_Cons MESSAGE_HRDR_LEN_def MESSAGE_DATA_LEN_def MESSAGE_LEN_def MESSAGE_HEADER_SIZE_def HRDR_SZ_def)
  ultimately show "frame_records ?ram a = [m_hrdr0 m]"
    using r(1) by (simp add: frame_records_def)
qed

text \<open>A request has the stride 1 and is therefore never taken for the end of the list.\<close>

definition raw_message :: "bool \<Rightarrow> Acq200Path \<Rightarrow> u32 \<Rightarrow> u32 \<Rightarrow> u32 \<Rightarrow> u16 \<Rightarrow> Acq200Path" where
  "raw_message outgoing path pa start_byte nb cflags =
     (if outgoing then build_outgoing_raw_message path pa start_byte nb cflags else build_incoming_raw_message path pa start_byte nb cflags)"

lemma raw_message_parts:
  fixes outgoing path pa s n c
  defines "m \<equiv> scratch (raw_message outgoing path pa s n c)"
  shows "mh_length (m_header m) = of_nat (2 * HRDR_SZ)" "m_hrdr1 m = zero_hrdr" "m_hrdr0 m \<noteq> zero_hrdr"
    "mh_type (m_header m) = MAKE_MT_COMMAND (mtc_val (if outgoing then MTC_HOST_REQUEST_DATA_ACQBOUND else MTC_HOST_REQUEST_DATA_HOSTBOUND))"
    "m_hrdr0 m = \<lparr>hrd_pci = pa, hrd_start = s div 2, hrd_nsamples = n div 2, hrd_chan = CHAN path OR c, hrd_stride = 1\<rparr>"
  by (simp_all add: m_def raw_message_def build_outgoing_raw_message_def build_incoming_raw_message_def build_hrd_message_def
      zero_hrdr_def LDH_OUTBOUND_def LDH_INBOUND_def Let_def)

text \<open>The card's view of the request that was sent last.\<close>

lemma request_in_frame:
  fixes outgoing path pa s n c i
  defines "m \<equiv> set_msg_id i (scratch (raw_message outgoing path pa s n c))"
  shows "frame_header (send_all rest (ms @ [(frame, m)]) ram) (unat frame) = \<lparr>mh_id = i, mh_length = 32,
      mh_type = MAKE_MT_COMMAND (mtc_val (if outgoing then MTC_HOST_REQUEST_DATA_ACQBOUND else MTC_HOST_REQUEST_DATA_HOSTBOUND))\<rparr>"
    "frame_records (send_all rest (ms @ [(frame, m)]) ram) (unat frame) =
      [\<lparr>hrd_pci = pa, hrd_start = s div 2, hrd_nsamples = n div 2, hrd_chan = CHAN path OR c, hrd_stride = 1\<rparr>]"
proof -
  note parts = raw_message_parts [of outgoing path pa s n c]
  have l: "mh_length (m_header m) = of_nat (2 * HRDR_SZ)" "m_hrdr0 m \<noteq> zero_hrdr" "m_hrdr1 m = zero_hrdr"
    using parts by (simp_all add: m_def set_msg_id_def)
  have h: "m_header m = \<lparr>mh_id = i, mh_length = 32,
      mh_type = MAKE_MT_COMMAND (mtc_val (if outgoing then MTC_HOST_REQUEST_DATA_ACQBOUND else MTC_HOST_REQUEST_DATA_HOSTBOUND))\<rparr>"
    "m_hrdr0 m = \<lparr>hrd_pci = pa, hrd_start = s div 2, hrd_nsamples = n div 2, hrd_chan = CHAN path OR c, hrd_stride = 1\<rparr>"
    using parts(1,4,5) by (simp_all add: m_def set_msg_id_def HRDR_SZ_def)
  show "frame_header (send_all rest (ms @ [(frame, m)]) ram) (unat frame) = \<lparr>mh_id = i, mh_length = 32,
      mh_type = MAKE_MT_COMMAND (mtc_val (if outgoing then MTC_HOST_REQUEST_DATA_ACQBOUND else MTC_HOST_REQUEST_DATA_HOSTBOUND))\<rparr>"
    "frame_records (send_all rest (ms @ [(frame, m)]) ram) (unat frame) =
      [\<lparr>hrd_pci = pa, hrd_start = s div 2, hrd_nsamples = n div 2, hrd_chan = CHAN path OR c, hrd_stride = 1\<rparr>]"
    by (simp_all only: send_all_append send_all.simps frame_of_message(1) [OF l(1)] frame_of_message(2) [OF l] h)
qed

section \<open>Properties\<close>

text \<open>C7. 
  A request on its way to the card.  When the driver has sent the request built in a path's scratch area, the card finds in the frame
  it was written to a header with the id the driver will recognise the answer by, the length of two records and the command for the
  direction of the transfer, and a list of exactly one record: address, start and count in samples, channel with flags, stride 1, whatever
  the memory and the scratch area held before.
\<close>

theorem request_on_the_wire:
  assumes "acq200_sendI2O_kbuf p d = Some (0, e)" and "paths d p = Some (raw_message outgoing path pa s n c)"
  shows "\<exists>frame m. sent e = sent d @ [(frame, m)] \<and>
    (let ram' = send_all rest (sent e) ram in
       frame_header ram' (unat frame) = \<lparr>mh_id = next_id d, mh_length = 32,
         mh_type = MAKE_MT_COMMAND (mtc_val (if outgoing then MTC_HOST_REQUEST_DATA_ACQBOUND else MTC_HOST_REQUEST_DATA_HOSTBOUND))\<rparr> \<and>
       frame_records ram' (unat frame) =
         [\<lparr>hrd_pci = pa, hrd_start = s div 2, hrd_nsamples = n div 2, hrd_chan = CHAN path OR c, hrd_stride = 1\<rparr>])"
proof -
  let ?m = "set_msg_id (next_id d) (scratch (raw_message outgoing path pa s n c))"
  obtain mfa where e: "sent e = sent d @ [(mfa AND MFA_MASK, ?m)]"
    using assms by (auto simp: acq200_sendI2O_kbuf_def EACQ32_NO_INCOMING_I2O_def Let_def path_update_def split: list.splits if_splits)
  show ?thesis
    by (intro exI [of _ "mfa AND MFA_MASK"] exI [of _ ?m] conjI e) (simp only: e Let_def request_in_frame simp_thms)
qed

theorem request_on_the_wire_witness:
  "\<exists>e frame m. acq200_sendI2O_kbuf 0 (example_dev\<lparr>paths := (\<lambda>p. Some (raw_message False example_path 0x2000 0x80 0x200 HRD_CHAN_IS_FILE))\<rparr>) = Some (0, e) \<and>
     sent e = [(frame, m)] \<and>
     frame_records (send_all [] (sent e) (\<lambda>_. 7)) (unat frame) =
       [\<lparr>hrd_pci = 0x2000, hrd_start = 0x40, hrd_nsamples = 0x100, hrd_chan = 0x8003, hrd_stride = 1\<rparr>]"
proof -
  let ?path = "raw_message False example_path 0x2000 0x80 0x200 HRD_CHAN_IS_FILE"
  let ?d = "example_dev\<lparr>paths := (\<lambda>p. Some ?path)\<rparr>"
  obtain e where e: "acq200_sendI2O_kbuf 0 ?d = Some (0, e)"
    by (simp add: acq200_sendI2O_kbuf_def example_dev_def PCI_I2O_INVALID_MFA_def Let_def)
  have p: "paths ?d 0 = Some ?path" by simp
  have s: "sent ?d = []" by (simp add: example_dev_def)
  have c: "CHAN example_path OR HRD_CHAN_IS_FILE = 0x8003" by (simp add: CHAN_def example_path_def HRD_CHAN_IS_FILE_def)
  show ?thesis
    using request_on_the_wire [OF e p, of "[]" "\<lambda>_. 7"] e unfolding s c Let_def by auto
qed



end
