(* ===== verification/Transport.thy ===== *)
theory Transport
  imports I2o_Write Isr Wire
begin

text \<open>
  The message transport from end to end: a process that reads or writes a bridge file, the frames in the memory of the card and of the
  host, the interrupt, the ring and the bottom half (\<^verbatim>\<open>src/acq200_i2o.c\<close>, \<open>acq200_isr\<close> of \<^verbatim>\<open>src/acq200.c\<close>) put together.  The firmware of
  the card is an argument: a function from the header and the records it finds in a frame to the message it answers with.
\<close>

section \<open>A frame in the host's buffer\<close>

text \<open>The bottom half takes the address of a frame for a pointer to a \<open>MESSAGE\<close>.\<close>

definition dec_message :: "u8 list \<Rightarrow> MESSAGE" where
  "dec_message bs = \<lparr>m_header = dec_header (take MESSAGE_HEADER_SIZE bs),
     m_hrdr0 = dec_hrdr (take HRDR_SZ (drop MESSAGE_HEADER_SIZE bs)),
     m_hrdr1 = dec_hrdr (take HRDR_SZ (drop (MESSAGE_HEADER_SIZE + HRDR_SZ) bs))\<rparr>"

definition MESSAGE_SZ :: nat where "MESSAGE_SZ = MESSAGE_HEADER_SIZE + 2 * HRDR_SZ"

interpretation message: codec enc_message dec_message MESSAGE_SZ
  by unfold_locales
    (simp_all add: MESSAGE_SZ_def length_enc_message dec_message_def enc_message_def header.enc_length hrdr.enc_length header.dec_enc
      hrdr.dec_enc HRDR_SZ_def)

definition message_at :: "(nat \<Rightarrow> u8) \<Rightarrow> u32 \<Rightarrow> MESSAGE" where
  "message_at mem va = dec_message (fetch mem (unat va) MESSAGE_SZ)"

lemma message_at_written: "message_at (memcpy (unat va) (enc_message m) mem) va = m"
  using fetch_memcpy [of 0 MESSAGE_SZ "enc_message m" "unat va" mem]
  by (simp add: message_at_def message.enc_length message.dec_enc)

section \<open>From the interrupt to the handler\<close>

text \<open>One frame, posted while the ring is empty, is queued by the interrupt.\<close>

lemma isr_queues_frame:
  assumes "core s = e" "i2o_inv e" "ring_queue NSTREAMBUF (streambuf e) = []" "mfa \<noteq> 0" "mfa \<noteq> 0xffffffff" "debug \<noteq> 8"
    "oqp_in s = mfa # q" "oisr s = ACQ200_OISR_OPQI"
  obtains e1 where "core (snd (acq200_isr debug s)) = e1" "i2o_inv e1" "ring_queue NSTREAMBUF (streambuf e1) = [mfa]"
    "rchs e1 = rchs e" "rch_list e1 = rch_list e" "pool e1 = pool e" "sent e1 = sent e" "oqp e1 = oqp e"
proof -
  have inv: "ring_inv NSTREAMBUF (streambuf e)" using assms(2) by (simp add: i2o_inv_def stream_ok_def)
  have "ring_len NSTREAMBUF (streambuf e) = 0" using assms(3) length_ring_queue by (metis list.size(3))
  then have "fst (streamPut (streambuf e) mfa) = 0" "ring_queue NSTREAMBUF (snd (streamPut (streambuf e) mfa)) = [mfa]"
    "ring_inv NSTREAMBUF (snd (streamPut (streambuf e) mfa))"
    using stream.put_room [OF inv, of mfa] assms(3) by (simp_all add: NSTREAMBUF_def)
  then obtain sb where p: "streamPut (streambuf e) mfa = (0, sb)" "ring_queue NSTREAMBUF sb = [mfa]" "ring_inv NSTREAMBUF sb"
    by (cases "streamPut (streambuf e) mfa") auto
  have st: "ACQ200_OISR_OPQI AND NOT IRQ_IGNORE \<noteq> 0" "ACQ200_OISR_OPQI AND ACQ200_OISR_OPQI \<noteq> 0"
    by (simp_all add: isr_reg_defs)
  have c: "core (snd (acq200_isr debug s)) = acq200_consume_i2o debug mfa (e\<lparr>bad_mfa_count := 0\<rparr>)"
    using assms(1,4,5,7,8) st
    by (simp add: acq200_isr_def acq200_incoming_message_isr_def count_irq_def readl_OQP_def Let_def)
  show thesis
    by (rule that [OF c]) (use assms(2,5,6) p in \<open>simp_all add: acq200_consume_i2o_def i2o_inv_def stream_ok_def STREAM_MFA_INVALID_def\<close>)
qed

text \<open>A single queued frame with the answer to a command is processed and handed back.\<close>

lemma bottom_half_single:
  assumes "i2o_inv e" "ring_queue NSTREAMBUF (streambuf e) = [mfa]" "debug \<noteq> 7"
    "MT_ID (mh_type (m_header (msg_at (acq200_dev_i2o_mfa2va mfa)))) = MT_COMMAND_PACKET"
  obtains sb g where "i2o_inv (e\<lparr>streambuf := sb\<rparr>)" "ring_queue NSTREAMBUF sb = []"
    "acq200_processCommandMessageReturn (msg_at (acq200_dev_i2o_mfa2va mfa)) (e\<lparr>streambuf := sb\<rparr>) = Some g"
    "acq200_streaming_isr_bh debug msg_at e = Some (i2o_return_message mfa g)" "i2o_inv g" "keeps_io (e\<lparr>streambuf := sb\<rparr>) g"
proof -
  have s: "ring_inv NSTREAMBUF (streambuf e)" "mfa \<noteq> STREAM_MFA_INVALID" using assms(1,2) by (auto simp: i2o_inv_def stream_ok_def)
  obtain sb where g: "streamGet (streambuf e) = (mfa, sb)" "ring_queue NSTREAMBUF sb = []" "ring_inv NSTREAMBUF sb"
    using stream.get_cons [OF s(1) assms(2)] by (cases "streamGet (streambuf e)") auto
  have inv: "i2o_inv (e\<lparr>streambuf := sb\<rparr>)" using assms(1) g by (simp add: i2o_inv_def stream_ok_def)
  from process_ok [OF inv, of "msg_at (acq200_dev_i2o_mfa2va mfa)"] obtain d where
    d: "acq200_processCommandMessageReturn (msg_at (acq200_dev_i2o_mfa2va mfa)) (e\<lparr>streambuf := sb\<rparr>) = Some d"
    "i2o_inv d" "keeps_io (e\<lparr>streambuf := sb\<rparr>) d" by blast
  have "streambuf (i2o_return_message mfa d) = sb" using d(3) by (simp add: keeps_io_def)
  then have "acq200_streaming_isr_bh debug msg_at (i2o_return_message mfa d) = Some (i2o_return_message mfa d)"
    using stream.get_nil [OF g(3,2)] by (subst acq200_streaming_isr_bh.simps) simp
  then have "acq200_streaming_isr_bh debug msg_at e = Some (i2o_return_message mfa d)"
    using g(1) s(2) assms(3,4) d(1) by (subst acq200_streaming_isr_bh.simps) simp
  then show thesis using that [OF inv g(2) d(1) _ d(2,3)] by blast
qed

text \<open>An answer of at most as many samples as were asked for is no error and does not exceed the bytes asked for.\<close>

lemma samples_bound:
  fixes n :: u32
  assumes "n \<le> word_of_int m div 2" "0 \<le> m"
  shows "n \<noteq> 0xffffffff" "sint (n * 2) \<le> m"
proof -
  have "uint n \<le> uint (word_of_int m :: u32) div 2" using assms(1) by (simp add: word_le_def uint_div)
  moreover have "uint (word_of_int m :: u32) \<le> m" using assms(2) by (simp add: uint_word_of_int_eq take_bit_eq_mod zmod_le_nonneg_dividend)
  moreover have "uint (word_of_int m :: u32) < 2 ^ 32" using uint_bounded [of "word_of_int m :: u32"] by simp
  ultimately have n: "uint n * 2 \<le> m" "uint n * 2 < 2 ^ 32" by auto
  then have u: "uint (n * 2) = uint n * 2" by (simp add: uint_mult_lem [THEN iffD1])
  show "n \<noteq> 0xffffffff" using n(2) by auto
  have "sint (n * 2) \<le> uint (n * 2)" using order_trans [of "- 2147483648" 0 "uint (n * 2)"]
    by (simp add: signed_take_bit_int_less_eq_self_iff sint_uint)
  then show "sint (n * 2) \<le> m" using n(1) u by simp
qed

section \<open>A read from call to return\<close>

text \<open>What the card answers to the request sent last, from what it finds in the frame.\<close>

definition card_reply ::
  "(MESSAGE_HEADER \<Rightarrow> HOST_REQUEST_DATA_RECORD list \<Rightarrow> MESSAGE) \<Rightarrow> u8 list \<Rightarrow> (nat \<Rightarrow> u8) \<Rightarrow> i2o_dev \<Rightarrow> MESSAGE" where
  "card_reply fw scr ram e =
     (let ram' = send_all scr (sent e) ram; a = unat (fst (last (sent e))) in fw (frame_header ram' a) (frame_records ram' a))"

text \<open>While the process sleeps the card writes its answer to the frame \<open>mfa\<close> of the host's buffer and posts the frame, the interrupt is
taken and the bottom half runs.\<close>

definition answered_sleep ::
  "(MESSAGE_HEADER \<Rightarrow> HOST_REQUEST_DATA_RECORD list \<Rightarrow> MESSAGE) \<Rightarrow> u8 list \<Rightarrow> (nat \<Rightarrow> u8) \<Rightarrow> (nat \<Rightarrow> u8) \<Rightarrow> u32 \<Rightarrow> int \<Rightarrow> isr_dev \<Rightarrow>
   i2o_dev \<Rightarrow> i2o_dev" where
  "answered_sleep fw scr ram hostram mfa debug s e =
     (let host = memcpy (unat (acq200_dev_i2o_mfa2va mfa)) (enc_message (card_reply fw scr ram e)) hostram;
          s' = snd (acq200_isr debug (s\<lparr>core := e, oqp_in := [mfa], oisr := ACQ200_OISR_OPQI\<rparr>))
      in the (acq200_streaming_isr_bh debug (message_at host) (core s')))"

lemma sleep_processes:
  assumes "i2o_inv e" "ring_queue NSTREAMBUF (streambuf e) = []" "mfa \<noteq> 0" "mfa \<noteq> 0xffffffff" "debug \<noteq> 7" "debug \<noteq> 8"
    and reply: "card_reply fw scr ram e = reply" "MT_ID (mh_type (m_header reply)) = MT_COMMAND_PACKET"
  obtains e2 g where "i2o_inv e2" "ring_queue NSTREAMBUF (streambuf e2) = []" "rchs e2 = rchs e" "rch_list e2 = rch_list e" "pool e2 = pool e"
    "sent e2 = sent e" "oqp e2 = oqp e" "acq200_processCommandMessageReturn reply e2 = Some g" "i2o_inv g" "keeps_io e2 g"
    "answered_sleep fw scr ram hostram mfa debug s e = i2o_return_message mfa g"
proof -
  let ?s = "s\<lparr>core := e, oqp_in := [mfa], oisr := ACQ200_OISR_OPQI\<rparr>"
  let ?host = "memcpy (unat (acq200_dev_i2o_mfa2va mfa)) (enc_message reply) hostram"
  have pre: "core ?s = e" "oqp_in ?s = mfa # []" "oisr ?s = ACQ200_OISR_OPQI" by simp_all
  obtain e1 where e1: "core (snd (acq200_isr debug ?s)) = e1" "i2o_inv e1" "ring_queue NSTREAMBUF (streambuf e1) = [mfa]"
    "rchs e1 = rchs e" "rch_list e1 = rch_list e" "pool e1 = pool e" "sent e1 = sent e" "oqp e1 = oqp e"
    by (rule isr_queues_frame [OF pre(1) assms(1-4,6) pre(2,3)])
  have at: "message_at ?host (acq200_dev_i2o_mfa2va mfa) = reply" by (rule message_at_written)
  have mt: "MT_ID (mh_type (m_header (message_at ?host (acq200_dev_i2o_mfa2va mfa)))) = MT_COMMAND_PACKET"
    unfolding at by (rule reply(2))
  show thesis
  proof (rule bottom_half_single [OF e1(2,3) assms(5), of "message_at ?host", OF mt], unfold at)
    fix sb g
    assume g: "i2o_inv (e1\<lparr>streambuf := sb\<rparr>)" "ring_queue NSTREAMBUF sb = []"
      "acq200_processCommandMessageReturn reply (e1\<lparr>streambuf := sb\<rparr>) = Some g"
      "acq200_streaming_isr_bh debug (message_at ?host) e1 = Some (i2o_return_message mfa g)" "i2o_inv g" "keeps_io (e1\<lparr>streambuf := sb\<rparr>) g"
    show thesis
      by (rule that [OF g(1) _ _ _ _ _ _ g(3,5,6)]) (use e1 g(2,4) in \<open>simp_all add: answered_sleep_def Let_def reply(1)\<close>)
  qed
qed

section \<open>An example\<close>

text \<open>A firmware that delivers half of what it is asked for.\<close>

definition half_firmware :: "MESSAGE_HEADER \<Rightarrow> HOST_REQUEST_DATA_RECORD list \<Rightarrow> MESSAGE" where
  "half_firmware h rs = \<lparr>m_header = h\<lparr>mh_type := MT_COMMAND_PACKET\<rparr>,
     m_hrdr0 = (if rs = [] then zero_hrdr else (hd rs)\<lparr>hrd_nsamples := hrd_nsamples (hd rs) div 2\<rparr>), m_hrdr1 = zero_hrdr\<rparr>"

lemma half_firmware_ok:
  "mh_id (m_header (half_firmware h rs)) = mh_id h" "MT_ID (mh_type (m_header (half_firmware h rs))) = MT_COMMAND_PACKET"
  "hrd_nsamples (m_hrdr0 (half_firmware h [r])) \<le> hrd_nsamples r"
  by (simp_all add: half_firmware_def MT_ID_def MT_COMMAND_PACKET_def MT_TYPE_MASK_def MT_TYPE_SHIFT_def funcode_word_def
      word_le_nat_alt unat_div)

lemma example_mapping_len: "k \<in> {0, 1, 2} \<Longrightarrow> io_len (io_mappings (pool example_dev) ! k) = 0x40000"
proof -
  assume k: "k \<in> {0, 1, 2}"
  have "dma_buf_ok example_dma_buf" by (simp add: dma_buf_ok_def example_dma_buf_def)
  from dma_buf_ok_len(2) [OF this] k show ?thesis
    by (auto simp: example_dev_def pool_create_mappings [OF example_pools] create_mappings_loop_nth mapping_at_def NMAPPINGS_def
        example_dma_buf_def)
qed

end
