(* ===== verification/Irq_Mask.thy ===== *)
theory Irq_Mask
  imports Hostdrv_Prelude
begin

text \<open>
  Interrupt masking (\<^verbatim>\<open>src/acq200_utils.c\<close> and the \<open>imask\<close> attribute of \<^verbatim>\<open>src/acq200_if.c\<close>): the
  iterator over the set bits of a 32-bit mask, the enabling and disabling of the lines it yields, the
  hexadecimal line mask of the device and the lock that can be taken through the same attribute.
  The calls into the kernel's interrupt layer are the list of \<open>irq_call\<close>s an operation makes.
\<close>

section \<open>The mask iterator\<close>

datatype mi_state = MI_IDLE | MI_STARTED | MI_FINISHED

record MASK_ITERATOR =
  mi_mask :: u32
  icursor :: u32
  mi_st :: mi_state

text \<open>The scan of \<open>hasNext\<close>: does the mask meet \<open>next_cursor\<close> or one of its right shifts?\<close>

function has_scan :: "u32 \<Rightarrow> u32 \<Rightarrow> bool" where
  "has_scan m nc = (if nc = 0 then False else if m AND nc \<noteq> 0 then True else has_scan m (drop_bit 1 nc))"
  by pat_completeness auto

lemma drop_bit_1_less: "(w::u32) \<noteq> 0 \<Longrightarrow> unat (drop_bit 1 w) < unat w"
proof -
  assume "w \<noteq> 0"
  then have "0 < unat w" by (simp add: unat_gt_0)
  moreover have "unat (drop_bit 1 w) = unat w div 2"
    by (simp add: drop_bit_eq_div unat_div)
  ultimately show ?thesis by simp
qed

termination has_scan
  by (relation "measure (\<lambda>(m, nc). unat nc)") (auto simp: drop_bit_1_less simp del: One_nat_def)

declare has_scan.simps [simp del]

text \<open>
  \<open>1 << icursor\<close> is a C \<open>int\<close>, so in \<open>hasNext\<close> the shift back by one is arithmetic.
\<close>

definition hasNext :: "MASK_ITERATOR \<Rightarrow> bool \<times> MASK_ITERATOR" where
  "hasNext it =
     (case mi_st it of
        MI_IDLE \<Rightarrow> (has_scan (mi_mask it) 0x80000000, it\<lparr>icursor := 31\<rparr>)
      | MI_STARTED \<Rightarrow>
          (has_scan (mi_mask it) (signed_drop_bit 1 (push_bit (unat (icursor it)) 1)), it)
      | MI_FINISHED \<Rightarrow> (False, it))"

text \<open>The scan of \<open>getNext\<close>: the cursor of the first hit, or the cursor at the end.\<close>

function get_scan :: "u32 \<Rightarrow> u32 \<Rightarrow> u32 \<Rightarrow> bool \<times> u32" where
  "get_scan m nc ic =
     (if nc = 0 then (False, ic) else if m AND nc \<noteq> 0 then (True, ic)
      else get_scan m (drop_bit 1 nc) (ic - 1))"
  by pat_completeness auto
termination get_scan
  by (relation "measure (\<lambda>(m, nc, ic). unat nc)") (auto simp: drop_bit_1_less simp del: One_nat_def)

declare get_scan.simps [simp del]

definition getNext_scan :: "MASK_ITERATOR \<Rightarrow> u32 \<Rightarrow> int \<times> MASK_ITERATOR" where
  "getNext_scan it nc =
     (case get_scan (mi_mask it) nc (icursor it) of
        (True, ic) \<Rightarrow> (sint ic, it\<lparr>icursor := ic\<rparr>)
      | (False, ic) \<Rightarrow> (-1, it\<lparr>icursor := ic, mi_st := MI_FINISHED\<rparr>))"

definition getNext :: "MASK_ITERATOR \<Rightarrow> int \<times> MASK_ITERATOR" where
  "getNext it =
     (case mi_st it of
        MI_IDLE \<Rightarrow> getNext_scan (it\<lparr>mi_st := MI_STARTED, icursor := 31\<rparr>) 0x80000000
      | MI_STARTED \<Rightarrow>
          let it1 = it\<lparr>icursor := icursor it - 1\<rparr>
          in getNext_scan it1 (push_bit (unat (icursor it1)) 1)
      | MI_FINISHED \<Rightarrow> (-1, it))"

section \<open>Disabling and enabling a mask of lines\<close>

datatype irq_call = DisableIrq int | EnableIrq int

partial_function (option) ints_loop :: "MASK_ITERATOR \<Rightarrow> int list option" where
  "ints_loop it =
     (let (more, it1) = hasNext it in
      if more then
        let (irq, it2) = getNext it1
        in Option.bind (ints_loop it2) (\<lambda>irqs. Some (irq # irqs))
      else Some [])"

definition new_iterator :: "u32 \<Rightarrow> MASK_ITERATOR" where
  "new_iterator irqs = \<lparr>mi_mask = irqs, icursor = 0, mi_st = MI_IDLE\<rparr>"

definition acq200_intsDisable :: "u32 \<Rightarrow> (int \<times> irq_call list) option" where
  "acq200_intsDisable irqs =
     map_option (\<lambda>is. (0, map DisableIrq is)) (ints_loop (new_iterator irqs))"

definition acq200_intsEnable :: "u32 \<Rightarrow> (int \<times> irq_call list) option" where
  "acq200_intsEnable irqs =
     map_option (\<lambda>is. (0, map EnableIrq is)) (ints_loop (new_iterator irqs))"

text \<open>What the loop should yield: the set bits below \<open>n\<close>, highest first.\<close>

definition bits_below :: "u32 \<Rightarrow> nat \<Rightarrow> nat list" where
  "bits_below m n = rev (filter (bit m) [0..<n])"

lemma bits_below_0 [simp]: "bits_below m 0 = []"
  by (simp add: bits_below_def)

lemma bits_below_Suc [simp]: "bits_below m (Suc n) = (if bit m n then n # bits_below m n else bits_below m n)"
  by (simp add: bits_below_def)

lemma set_bits_below: "set (bits_below m n) = {k. k < n \<and> bit m k}"
  by (auto simp: bits_below_def simp del: upt_Suc)

lemma and_single_bit: "n < 32 \<Longrightarrow> (m::u32) AND push_bit n 1 \<noteq> 0 \<longleftrightarrow> bit m n"
  by (simp add: bit_iff_and_push_bit_not_eq_0)

lemma drop_push_Suc: "n < 31 \<Longrightarrow> drop_bit 1 (push_bit (Suc n) 1 :: u32) = push_bit n 1"
  by (intro bit_word_eqI) (auto simp: bit_simps)

lemma push_1_nonzero: "n < 32 \<Longrightarrow> push_bit n (1::u32) \<noteq> 0"
  by (simp add: push_bit_of_1)

lemma has_scan_single: "n < 32 \<Longrightarrow> has_scan m (push_bit n 1) \<longleftrightarrow> bits_below m (Suc n) \<noteq> []"
proof (induction n)
  case 0
  then show ?case
    using and_single_bit [of 0 m] by (simp add: has_scan.simps [of m 1] has_scan.simps [of m 0])
next
  case (Suc n)
  then have n: "n < 31" by simp
  have "has_scan m (drop_bit 1 (push_bit (Suc n) 1)) \<longleftrightarrow> bits_below m (Suc n) \<noteq> []"
    unfolding drop_push_Suc [OF n] using Suc.IH n by simp
  with Suc.prems and_single_bit [of "Suc n" m] push_1_nonzero [of "Suc n"] show ?case
    by (subst has_scan.simps) (auto simp del: push_bit_Suc push_bit_of_1)
qed

lemma get_scan_single:
  "n < 32 \<Longrightarrow> get_scan m (push_bit n 1) (of_nat n) =
     (case bits_below m (Suc n) of [] \<Rightarrow> (False, -1) | k # _ \<Rightarrow> (True, of_nat k))"
proof (induction n)
  case 0
  then show ?case
    using and_single_bit [of 0 m] by (simp add: get_scan.simps [of m 1] get_scan.simps [of m 0])
next
  case (Suc n)
  then have n: "n < 31" by simp
  have "get_scan m (drop_bit 1 (push_bit (Suc n) 1)) (of_nat (Suc n) - 1) =
      (case bits_below m (Suc n) of [] \<Rightarrow> (False, -1) | k # _ \<Rightarrow> (True, of_nat k))"
    unfolding drop_push_Suc [OF n] using Suc.IH n by simp
  with Suc.prems and_single_bit [of "Suc n" m] push_1_nonzero [of "Suc n"] show ?case
    by (subst get_scan.simps) (auto simp del: push_bit_Suc push_bit_of_1)
qed

lemma has_scan_0 [simp]: "has_scan m 0 = False"
  by (simp add: has_scan.simps)

text \<open>The pair of adjacent bits that the arithmetic shift produces from bit 31.\<close>

lemma and_double_bit:
  "n < 31 \<Longrightarrow> (m::u32) AND push_bit n 3 \<noteq> 0 \<longleftrightarrow> bit m n \<or> bit m (Suc n)"
proof -
  assume n: "n < 31"
  have "push_bit n 3 = (push_bit n 1 OR push_bit (Suc n) 1 :: u32)"
  proof -
    have "(3::u32) = 1 OR push_bit 1 1" by simp
    then have "push_bit n 3 = push_bit n (1 OR push_bit 1 1 :: u32)" by (rule arg_cong)
    also have "\<dots> = push_bit n 1 OR push_bit (n + 1) 1"
      by (simp only: push_bit_or push_bit_push_bit)
    finally show ?thesis by (simp only: Suc_eq_plus1)
  qed
  then have "m AND push_bit n 3 = (m AND push_bit n 1) OR (m AND push_bit (Suc n) 1)"
    by (simp only: bit.conj_disj_distrib)
  then have "m AND push_bit n 3 \<noteq> 0 \<longleftrightarrow> m AND push_bit n 1 \<noteq> 0 \<or> m AND push_bit (Suc n) 1 \<noteq> 0"
    by (simp only: or_eq_0_iff) blast
  then show ?thesis
    using and_single_bit [of n m] and_single_bit [of "Suc n" m] n by linarith
qed

lemma drop_push_pair:
  fixes w :: u32
  assumes "\<And>k. bit w k \<Longrightarrow> k < 2" "n < 30"
  shows "drop_bit 1 (push_bit (Suc n) w) = push_bit n w"
proof (rule bit_word_eqI)
  fix k assume "k < LENGTH(32)"
  have "Suc k - Suc n = k - n" by simp
  moreover have "bit w (k - n) \<Longrightarrow> k < n + 2" using assms(1) [of "k - n"] by linarith
  ultimately show "bit (drop_bit 1 (push_bit (Suc n) w)) k \<longleftrightarrow> bit (push_bit n w) k"
    using assms(2) \<open>k < LENGTH(32)\<close> by (auto simp: bit_simps simp del: push_bit_Suc)
qed

lemma bit_3_less: "bit (3::u32) k \<Longrightarrow> k < 2"
  using bit_take_bit_iff [of 2 "3::u32" k] by simp

lemma has_scan_double: "n < 31 \<Longrightarrow> has_scan m (push_bit n 3) \<longleftrightarrow> bits_below m (Suc (Suc n)) \<noteq> []"
proof (induction n)
  case 0
  have "drop_bit 1 (3::u32) = 1" by simp
  then show ?case
    using and_double_bit [of 0 m] has_scan_single [of 0 m]
    by (subst has_scan.simps) (auto simp del: One_nat_def)
next
  case (Suc n)
  then have n: "n < 30" by simp
  have "drop_bit 1 (push_bit (Suc n) 3) = (push_bit n 3 :: u32)"
    using drop_push_pair [OF bit_3_less n] .
  moreover have "push_bit (Suc n) 3 \<noteq> (0::u32)"
    using and_double_bit [of "Suc n" "-1"] n by auto
  ultimately show ?case
    using Suc.IH n and_double_bit [of "Suc n" m]
    by (subst has_scan.simps) (auto simp del: push_bit_Suc)
qed

lemma signed_shift_back:
  "c < 31 \<Longrightarrow> signed_drop_bit 1 (push_bit c 1 :: u32) = (case c of 0 \<Rightarrow> 0 | Suc n \<Rightarrow> push_bit n 1)"
  by (intro bit_word_eqI) (auto simp: bit_simps min_def split: nat.split)

lemma has_next_started:
  assumes "c < 31"
  shows "fst (hasNext \<lparr>mi_mask = m, icursor = of_nat c, mi_st = MI_STARTED\<rparr>) \<longleftrightarrow> bits_below m c \<noteq> []"
proof -
  have "unat (of_nat c :: u32) = c"
    using assms by (simp add: unat_of_nat)
  with assms signed_shift_back [OF assms] show ?thesis
    using has_scan_single [of "c - 1" m]
    by (cases c) (auto simp: hasNext_def simp del: bits_below_Suc push_bit_of_1 One_nat_def)
qed

lemma has_next_started_31:
  "fst (hasNext \<lparr>mi_mask = m, icursor = 31, mi_st = MI_STARTED\<rparr>) \<longleftrightarrow> bits_below m 32 \<noteq> []"
proof -
  have "signed_drop_bit 1 (push_bit (unat (31::u32)) 1) = (0xC0000000::u32)"
    "push_bit 30 3 = (0xC0000000::u32)"
    by simp_all
  moreover have "has_scan m (push_bit 30 3) \<longleftrightarrow> bits_below m 32 \<noteq> []"
    using has_scan_double [of 30 m] by (simp del: bits_below_Suc)
  ultimately show ?thesis
    unfolding hasNext_def by (simp only: MASK_ITERATOR.select_convs mi_state.case fst_conv)
qed

lemma get_next_started:
  assumes "0 < c" "c < 32"
  shows "getNext \<lparr>mi_mask = m, icursor = of_nat c, mi_st = MI_STARTED\<rparr> =
    (case bits_below m c of
       [] \<Rightarrow> (-1, \<lparr>mi_mask = m, icursor = -1, mi_st = MI_FINISHED\<rparr>)
     | k # _ \<Rightarrow> (int k, \<lparr>mi_mask = m, icursor = of_nat k, mi_st = MI_STARTED\<rparr>))"
proof -
  obtain n where n: "c = Suc n" "n < 31"
    using assms by (cases c) auto
  then have "unat (of_nat n :: u32) = n" by (simp add: unat_of_nat)
  moreover have "k < 32" if "bits_below m (Suc n) = k # ks" for k ks
  proof -
    from that have "k \<in> set (bits_below m (Suc n))" by simp
    with n show ?thesis unfolding set_bits_below by simp
  qed
  moreover have "sint (of_nat k :: u32) = int k" if "k < 32" for k
    using that by (simp add: sint_uint unsigned_of_nat take_bit_nat_eq_self signed_take_bit_int_eq_self)
  ultimately show ?thesis
    using n get_scan_single [of n m]
    by (simp add: getNext_def getNext_scan_def Let_def split: list.split del: bits_below_Suc)
qed

lemma has_next_started_it:
  "snd (hasNext \<lparr>mi_mask = m, icursor = c, mi_st = MI_STARTED\<rparr>) = \<lparr>mi_mask = m, icursor = c, mi_st = MI_STARTED\<rparr>"
  by (simp add: hasNext_def)

lemma bits_below_Cons:
  "bits_below m n = k # ks \<Longrightarrow> k < n \<and> bit m k \<and> ks = bits_below m k"
proof (induction n)
  case (Suc n)
  then show ?case by (cases "bit m n") auto
qed simp

lemma ints_loop_finished: "ints_loop \<lparr>mi_mask = m, icursor = c, mi_st = MI_FINISHED\<rparr> = Some []"
  by (subst ints_loop.simps) (simp add: hasNext_def)

lemma ints_loop_started:
  "c < 31 \<Longrightarrow>
   ints_loop \<lparr>mi_mask = m, icursor = of_nat c, mi_st = MI_STARTED\<rparr> = Some (map int (bits_below m c))"
proof (induction c rule: less_induct)
  case (less c)
  let ?it = "\<lparr>mi_mask = m, icursor = of_nat c, mi_st = MI_STARTED\<rparr>"
  show ?case
  proof (cases "bits_below m c")
    case Nil
    with has_next_started [OF less.prems, of m] show ?thesis
      by (subst ints_loop.simps) (simp add: case_prod_unfold)
  next
    case (Cons k ks)
    with bits_below_Cons [OF Cons] less.prems have k: "k < c" "k < 31" "ks = bits_below m k" by auto
    from k(1) have c: "0 < c" "c < 32" using less.prems by auto
    show ?thesis
      using has_next_started [OF less.prems, of m] get_next_started [OF c, of m] Cons k less.IH [OF k(1,2)]
      by (subst ints_loop.simps) (simp add: case_prod_unfold has_next_started_it Let_def)
  qed
qed

lemma ints_loop_started_31:
  "ints_loop \<lparr>mi_mask = m, icursor = 31, mi_st = MI_STARTED\<rparr> =
     Some (if bits_below m 31 = [] then (if bit m 31 then [-1] else []) else map int (bits_below m 31))"
proof -
  have b32: "bits_below m 32 = (if bit m 31 then 31 # bits_below m 31 else bits_below m 31)"
    using bits_below_Suc [of m 31] by (simp del: bits_below_Suc)
  note g = get_next_started [of 31 m, simplified]
  show ?thesis
  proof (cases "bits_below m 31")
    case Nil
    with has_next_started_31 [of m] b32 g show ?thesis
      by (subst ints_loop.simps) (auto simp: case_prod_unfold has_next_started_it Let_def ints_loop_finished)
  next
    case (Cons k ks)
    with bits_below_Cons [OF Cons] have k: "k < 31" "ks = bits_below m k" by auto
    with Cons has_next_started_31 [of m] b32 g ints_loop_started [OF k(1)] show ?thesis
      by (subst ints_loop.simps) (simp add: case_prod_unfold has_next_started_it Let_def)
  qed
qed

text \<open>The lines the loop visits: the set bits, highest first, and a spurious -1 when only bit 31 is set.\<close>

definition irq_lines :: "u32 \<Rightarrow> int list" where
  "irq_lines m = map int (bits_below m 32) @ (if m = 0x80000000 then [-1] else [])"

lemma only_bit_31: "bit m 31 \<and> bits_below m 31 = [] \<longleftrightarrow> m = (0x80000000 :: u32)"
proof -
  have b: "bit (0x80000000 :: u32) k \<longleftrightarrow> k = 31" for k
  proof -
    have "bit (push_bit n (1 :: u32)) k \<longleftrightarrow> k = n" if "n < 32" for n
      using that by (auto simp: bit_simps simp del: push_bit_of_1)
    from this [of 31] show ?thesis by simp
  qed
  have e: "bits_below m 31 = [] \<longleftrightarrow> (\<forall>k<31. \<not> bit m k)"
    using set_bits_below [of m 31] by (metis (no_types, lifting) empty_Collect_eq set_empty2)
  show ?thesis
  proof
    assume m: "bit m 31 \<and> bits_below m 31 = []"
    show "m = 0x80000000"
    proof (rule bit_word_eqI)
      fix k :: nat assume "k < LENGTH(32)"
      then have "k < 31 \<or> k = 31" by auto
      with m e show "bit m k \<longleftrightarrow> bit (0x80000000 :: u32) k"
        unfolding b by auto
    qed
  next
    assume m: "m = 0x80000000"
    then have "bit m k \<longleftrightarrow> k = 31" for k by (simp only: b)
    with e show "bit m 31 \<and> bits_below m 31 = []" by simp
  qed
qed

lemma ints_loop_lines: "ints_loop (new_iterator m) = Some (irq_lines m)"
proof -
  have b32: "bits_below m 32 = (if bit m 31 then 31 # bits_below m 31 else bits_below m 31)"
    using bits_below_Suc [of m 31] by (simp del: bits_below_Suc)
  have h: "hasNext (new_iterator m) = (bits_below m 32 \<noteq> [], \<lparr>mi_mask = m, icursor = 31, mi_st = MI_IDLE\<rparr>)"
    using has_scan_single [of 31 m] by (simp add: hasNext_def new_iterator_def del: bits_below_Suc)
  have g: "getNext \<lparr>mi_mask = m, icursor = 31, mi_st = MI_IDLE\<rparr> =
      (case bits_below m 32 of
         [] \<Rightarrow> (-1, \<lparr>mi_mask = m, icursor = -1, mi_st = MI_FINISHED\<rparr>)
       | k # _ \<Rightarrow> (sint (of_nat k :: u32), \<lparr>mi_mask = m, icursor = of_nat k, mi_st = MI_STARTED\<rparr>))"
    using get_scan_single [of 31 m]
    by (simp add: getNext_def getNext_scan_def split: list.split del: bits_below_Suc)
  show ?thesis
  proof (cases "bits_below m 32")
    case Nil
    with h show ?thesis
      by (subst ints_loop.simps) (auto simp: irq_lines_def b32)
  next
    case (Cons k ks)
    from bits_below_Cons [OF Cons] have k: "k < 32" "ks = bits_below m k" "bit m k" by auto
    have s: "sint (of_nat k :: u32) = int k"
      using k by (simp add: sint_uint unsigned_of_nat take_bit_nat_eq_self signed_take_bit_int_eq_self)
    have "ints_loop (new_iterator m) =
        map_option ((#) (int k)) (ints_loop \<lparr>mi_mask = m, icursor = of_nat k, mi_st = MI_STARTED\<rparr>)"
      using h g Cons s by (subst ints_loop.simps) (simp add: Let_def map_conv_bind_option comp_def)
    moreover have "m = 0x80000000 \<longleftrightarrow> k = 31 \<and> bits_below m 31 = []"
      using only_bit_31 [of m] b32 Cons k by (auto split: if_splits)
    ultimately show ?thesis
      using k Cons ints_loop_started [of k m] ints_loop_started_31 [of m]
      by (cases "k = 31") (auto simp: irq_lines_def)
  qed
qed

section \<open>Properties\<close>

lemma sorted_bits_below: "sorted_wrt (>) (bits_below m n)"
  by (simp add: bits_below_def sorted_wrt_rev sorted_wrt_filter flip: upt_Suc)

lemma set_bits_below_32: "set (bits_below m 32) = {k. bit m k}"
  unfolding set_bits_below by (auto dest: bit_imp_le_length)

text \<open>
  For every mask but 0x80000000, disabling and enabling a mask of lines ends, returns 0 and visits
  exactly the lines whose bit is set, each once, from the highest to the lowest.
\<close>

theorem ints_visit_set_bits:
  assumes "m \<noteq> 0x80000000"
  shows "\<exists>ks. acq200_intsDisable m = Some (0, map (\<lambda>k. DisableIrq (int k)) ks) \<and>
    acq200_intsEnable m = Some (0, map (\<lambda>k. EnableIrq (int k)) ks) \<and>
    sorted_wrt (>) ks \<and> set ks = {k. bit m k}"
  using assms
  by (intro exI [of _ "bits_below m 32"])
    (simp add: acq200_intsDisable_def acq200_intsEnable_def ints_loop_lines irq_lines_def
      set_bits_below_32 sorted_bits_below)

theorem ints_visit_set_bits_witness:
  "\<exists>ks. acq200_intsDisable 0x11 = Some (0, map (\<lambda>k. DisableIrq (int k)) ks) \<and>
    acq200_intsEnable 0x11 = Some (0, map (\<lambda>k. EnableIrq (int k)) ks) \<and>
    sorted_wrt (>) ks \<and> set ks = {k. bit (0x11 :: u32) k}"
  by (rule ints_visit_set_bits) simp

text \<open>
  The mask that holds line 31 alone: the arithmetic shift of \<open>hasNext\<close> looks at bit 31 again, so
  after line 31 the loop also disables (or enables) line -1.
\<close>

theorem ints_line_31_spurious:
  "acq200_intsDisable 0x80000000 = Some (0, [DisableIrq 31, DisableIrq (-1)]) \<and>
   acq200_intsEnable 0x80000000 = Some (0, [EnableIrq 31, EnableIrq (-1)])"
proof -
  have "bit (0x80000000 :: u32) 31" "bits_below 0x80000000 31 = []"
    using only_bit_31 [of "0x80000000"] by blast+
  moreover have "bits_below 0x80000000 32 =
      (if bit (0x80000000 :: u32) 31 then 31 # bits_below 0x80000000 31 else bits_below 0x80000000 31)"
    using bits_below_Suc [of "0x80000000" 31] by (simp del: bits_below_Suc)
  ultimately have "bits_below 0x80000000 32 = [31]" by (simp only: if_True)
  then show ?thesis
    by (simp add: acq200_intsDisable_def acq200_intsEnable_def ints_loop_lines irq_lines_def)
qed

end
