(* ===== verification/Mailbox.thy ===== *)
theory Mailbox
  imports Bus_Protocol Irq_Mask
begin

text \<open>
  The mailbox command channel: the ioctl interface (\<^verbatim>\<open>src/acq200_ioctl.h\<close>, \<^verbatim>\<open>src/acq200.c\<close>) and its users inside
  the driver (\<^verbatim>\<open>src/acq200.c\<close>, \<^verbatim>\<open>src/acq200_core.c\<close>).  The four mailbox registers are a list; what the card does
  to them while the driver waits is an argument, as are the outcomes of the sleeps and of the copies from
  and to user space.
\<close>

section \<open>State\<close>

definition MBOX_NUM :: nat where "MBOX_NUM = 4"
definition MBC_FLAGS_TO :: u32 where "MBC_FLAGS_TO = 0xffff"
definition MBC_FLAGS_TO_FOREVER :: u32 where "MBC_FLAGS_TO_FOREVER = 0"
definition MBC_FLAGS_MBXW :: u32 where "MBC_FLAGS_MBXW = 0x000f0000"
definition MBC_FLAGS_MBXR :: u32 where "MBC_FLAGS_MBXR = 0x00f00000"
definition MBC_FLAGS_ONRELEASE :: u32 where "MBC_FLAGS_ONRELEASE = 0x10000000"
definition MBC_TO_MBXW :: "u32 \<Rightarrow> u32" where "MBC_TO_MBXW mx = push_bit 16 mx"
definition MBC_TO_MBXR :: "u32 \<Rightarrow> u32" where "MBC_TO_MBXR mx = push_bit 20 mx"

record MailboxControl =
  mbc_flags :: u32
  mbxw :: "u32 list"
  mbxr :: "u32 list"

definition MBC_FROM_MBXW :: "MailboxControl \<Rightarrow> u32" where
  "MBC_FROM_MBXW mbc = drop_bit 16 (mbc_flags mbc AND MBC_FLAGS_MBXW)"
definition MBC_FROM_MBXR :: "MailboxControl \<Rightarrow> u32" where
  "MBC_FROM_MBXR mbc = drop_bit 20 (mbc_flags mbc AND MBC_FLAGS_MBXR)"

text \<open>\<open>sem\<close> is the count of the semaphore \<open>mbox_sync.mutex\<close>, \<open>mbox_writes\<close> the register writes in order.\<close>

record mbox_dev =
  mbox :: "u32 list"
  mbox_writes :: "(nat \<times> u32) list"
  sem :: int
  using_interrupt :: bool
  mb_response_received :: bool

section \<open>Reading and writing the mailboxes\<close>

text \<open>Both loops count \<open>ibox\<close> down; the first argument is the number of mailboxes still to visit.\<close>

fun read_boxes :: "nat \<Rightarrow> u32 \<Rightarrow> u32 list \<Rightarrow> u32 list \<Rightarrow> u32 list" where
  "read_boxes 0 bmask regs out = out"
| "read_boxes (Suc ibox) bmask regs out =
     read_boxes ibox bmask regs (if push_bit ibox 1 AND bmask \<noteq> 0 then out[ibox := regs ! ibox] else out)"

definition acq200_ioctl_read_mbox :: "mbox_dev \<Rightarrow> MailboxControl \<Rightarrow> int \<times> MailboxControl" where
  "acq200_ioctl_read_mbox device mbc =
     (0, mbc\<lparr>mbxr := read_boxes MBOX_NUM (MBC_FROM_MBXR mbc) (mbox device) (mbxr mbc)\<rparr>)"

definition MBOX_WRITE :: "nat \<Rightarrow> u32 \<Rightarrow> mbox_dev \<Rightarrow> mbox_dev" where
  "MBOX_WRITE ibox v d = d\<lparr>mbox := (mbox d)[ibox := v], mbox_writes := mbox_writes d @ [(ibox, v)]\<rparr>"

fun write_boxes :: "nat \<Rightarrow> u32 \<Rightarrow> u32 list \<Rightarrow> mbox_dev \<Rightarrow> mbox_dev" where
  "write_boxes 0 bmask vals d = d"
| "write_boxes (Suc ibox) bmask vals d =
     write_boxes ibox bmask vals (if push_bit ibox 1 AND bmask \<noteq> 0 then MBOX_WRITE ibox (vals ! ibox) d else d)"

definition ioctl_write_mbox :: "mbox_dev \<Rightarrow> MailboxControl \<Rightarrow> int \<times> mbox_dev" where
  "ioctl_write_mbox device mbc =
     (0, write_boxes MBOX_NUM (MBC_FROM_MBXW mbc) (mbxw mbc) (device\<lparr>mb_response_received := False\<rparr>))"

section \<open>Polling\<close>

definition BIGTIME :: nat where "BIGTIME = 0x7fffffff"

text \<open>\<open>cmd i\<close> is the command mailbox as read in turn \<open>i\<close>, \<open>late i\<close> whether the deadline has passed then.\<close>

function poll_loop :: "(nat \<Rightarrow> u32) \<Rightarrow> (nat \<Rightarrow> bool) \<Rightarrow> nat \<Rightarrow> int" where
  "poll_loop cmd late i =
     (if BIGTIME \<le> i then - ETIMEDOUT
      else if cmd i AND BP_CI_ACK \<noteq> 0 then 0
      else if late i then - ETIMEDOUT
      else poll_loop cmd late (Suc i))"
  by pat_completeness auto
termination by (relation "measure (\<lambda>(cmd, late, i). BIGTIME - i)") auto

declare poll_loop.simps [simp del]

definition acq200_poll_response :: "(nat \<Rightarrow> u32) \<Rightarrow> (nat \<Rightarrow> bool) \<Rightarrow> int" where
  "acq200_poll_response cmd late = poll_loop cmd late 0"

section \<open>Write, block, read\<close>

text \<open>
  What the environment contributes to one exchange: whether taking the mutex is interrupted, the raw result
  of the wait (the interruptible waits return ticks left, zero or a negative errno) or the poll
  observations, and the card's effect on the registers before they are read back.
\<close>

record exchange =
  ex_down_interrupted :: bool
  ex_wait :: int
  ex_cmd :: "nat \<Rightarrow> u32"
  ex_late :: "nat \<Rightarrow> bool"
  ex_card :: "u32 list \<Rightarrow> u32 list"

definition sem_down :: "mbox_dev \<Rightarrow> mbox_dev" where "sem_down d = d\<lparr>sem := sem d - 1\<rparr>"
definition sem_up :: "mbox_dev \<Rightarrow> mbox_dev" where "sem_up d = d\<lparr>sem := sem d + 1\<rparr>"

definition wbr_wait :: "exchange \<Rightarrow> u32 \<Rightarrow> mbox_dev \<Rightarrow> int" where
  "wbr_wait x timeout device =
     (if using_interrupt device then
        if timeout = MBC_FLAGS_TO_FOREVER then ex_wait x
        else if ex_wait x = 0 then - ETIMEDOUT
        else if 0 < ex_wait x then 0
        else ex_wait x
      else acq200_poll_response (ex_cmd x) (ex_late x))"

definition acq200_ioctl_wbr_mbox :: "exchange \<Rightarrow> mbox_dev \<Rightarrow> MailboxControl \<Rightarrow> int \<times> mbox_dev \<times> MailboxControl" where
  "acq200_ioctl_wbr_mbox x device mbc =
     (let timeout = mbc_flags mbc AND MBC_FLAGS_TO in
      if ex_down_interrupted x then (- ERESTARTSYS, device, mbc)
      else
        let d1 = sem_down device;
            (rc0, d2) = ioctl_write_mbox d1 mbc;
            rc = wbr_wait x timeout d2;
            d3 = d2\<lparr>mbox := ex_card x (mbox d2)\<rparr>;
            (rc1, mbc1) = acq200_ioctl_read_mbox d3 mbc
        in (rc, sem_up d3, mbc1))"

section \<open>The ioctl\<close>

datatype mbox_action = ReadMbox | WbrMbox

definition run_action :: "mbox_action \<Rightarrow> exchange \<Rightarrow> mbox_dev \<Rightarrow> MailboxControl \<Rightarrow> int \<times> mbox_dev \<times> MailboxControl" where
  "run_action act x device mbc =
     (case act of
        ReadMbox \<Rightarrow> (let (rc, mbc1) = acq200_ioctl_read_mbox device mbc in (rc, device, mbc1))
      | WbrMbox \<Rightarrow> acq200_ioctl_wbr_mbox x device mbc)"

text \<open>
  \<open>ubc\<close> is the control block in user memory, \<open>from_ok\<close> and \<open>to_ok\<close> tell whether the copies succeed.  The
  result holds the return code, the device, the deferred action of the path and the user's block.
\<close>

definition acq200_mbox_ioctl ::
  "bool \<Rightarrow> bool \<Rightarrow> mbox_action \<Rightarrow> exchange \<Rightarrow> mbox_dev \<Rightarrow> MailboxControl \<Rightarrow> MailboxControl \<Rightarrow>
   int \<times> mbox_dev \<times> MailboxControl \<times> MailboxControl" where
  "acq200_mbox_ioctl from_ok to_ok act x device on_release ubc =
     (if \<not> from_ok then (- EFAULT, device, on_release, ubc)
      else if mbc_flags ubc AND MBC_FLAGS_ONRELEASE \<noteq> 0 then (0, device, ubc, ubc)
      else
        let (rc, d1, kmbc) = run_action act x device ubc
        in if \<not> to_ok then (- EFAULT, d1, on_release, ubc) else (0, d1, on_release, kmbc))"

datatype ioctl_cmd = ACQ200_MBOX_IOR | ACQ200_MBOX_IOWR | ACQ32_IOG_PCIREGS_OFFSET
  | ACQ32_IOS_INTS_DISABLE u32 | ACQ32_IOS_INTS_ENABLE u32 | OtherCmd u32

datatype ioctl_result =
    MboxResult "int \<times> mbox_dev \<times> MailboxControl \<times> MailboxControl"
  | PutUser u32
  | IrqResult "(int \<times> irq_call list) option"
  | IoctlError int

definition acq200_ioctl ::
  "bool \<Rightarrow> bool \<Rightarrow> exchange \<Rightarrow> ulong \<Rightarrow> mbox_dev \<Rightarrow> MailboxControl \<Rightarrow> MailboxControl \<Rightarrow> ioctl_cmd \<Rightarrow> ioctl_result" where
  "acq200_ioctl from_ok to_ok x csr_pa device on_release ubc cmd =
     (case cmd of
        ACQ200_MBOX_IOR \<Rightarrow> MboxResult (acq200_mbox_ioctl from_ok to_ok ReadMbox x device on_release ubc)
      | ACQ200_MBOX_IOWR \<Rightarrow> MboxResult (acq200_mbox_ioctl from_ok to_ok WbrMbox x device on_release ubc)
      | ACQ32_IOG_PCIREGS_OFFSET \<Rightarrow> PutUser (ucast (csr_pa AND 0xfff) + 0x10)
      | ACQ32_IOS_INTS_DISABLE arg \<Rightarrow> IrqResult (acq200_intsDisable arg)
      | ACQ32_IOS_INTS_ENABLE arg \<Rightarrow> IrqResult (acq200_intsEnable arg)
      | OtherCmd _ \<Rightarrow> IoctlError (- ENOTTY))"

section \<open>Commands and queries\<close>

text \<open>\<open>DEFTO\<close> is the tick rate of the kernel.\<close>

definition new_mbc :: "u32 \<Rightarrow> MailboxControl" where
  "new_mbc flags = \<lparr>mbc_flags = flags, mbxw = [0, 0, 0, 0], mbxr = [0, 0, 0, 0]\<rparr>"

definition command_mbc :: "u32 \<Rightarrow> u32 \<Rightarrow> MailboxControl" where
  "command_mbc DEFTO command =
     (let mbc = new_mbc (DEFTO OR MBC_TO_MBXW (push_bit BP_MB_COMMAND 1) OR MBC_TO_MBXR 0xf)
      in mbc\<lparr>mbxw := (mbxw mbc)[BP_MB_COMMAND := command OR BP_CI_DONE OR BP_CI_COMMAND]\<rparr>)"

definition acq200_sendCommand :: "u32 \<Rightarrow> exchange \<Rightarrow> mbox_dev \<Rightarrow> u32 \<Rightarrow> int \<times> mbox_dev" where
  "acq200_sendCommand DEFTO x device command =
     (let (rc, d, mbc) = acq200_ioctl_wbr_mbox x device (command_mbc DEFTO command) in (rc, d))"

definition commandA3A4_mbc :: "u32 \<Rightarrow> u32 \<Rightarrow> u32 \<Rightarrow> u32 \<Rightarrow> MailboxControl" where
  "commandA3A4_mbc DEFTO command a3 a4 =
     (let mbc = new_mbc (DEFTO OR
            MBC_TO_MBXW (push_bit BP_MB_COMMAND 1 OR push_bit BP_MB_A3 1 OR push_bit BP_MB_A4 1) OR MBC_TO_MBXR 0xf)
      in mbc\<lparr>mbxw := (mbxw mbc)[BP_MB_COMMAND := command OR BP_CI_DONE OR BP_CI_COMMAND OR of_nat BP_MB_A3 OR of_nat BP_MB_A4,
              BP_MB_A3 := a3, BP_MB_A4 := a4]\<rparr>)"

definition acq200_sendCommandA3A4 :: "u32 \<Rightarrow> exchange \<Rightarrow> mbox_dev \<Rightarrow> u32 \<Rightarrow> u32 \<Rightarrow> u32 \<Rightarrow> int \<times> mbox_dev" where
  "acq200_sendCommandA3A4 DEFTO x device command a3 a4 =
     (let (rc, d, mbc) = acq200_ioctl_wbr_mbox x device (commandA3A4_mbc DEFTO command a3 a4) in (rc, d))"

text \<open>
  Each of the four result pointers may be null (a flag tells); the result holds what is stored through the
  others, which happens only on success.
\<close>

record query_result =
  q_a1 :: "u32 option"
  q_a2 :: "u32 option"
  q_a3 :: "u32 option"
  q_a4 :: "u32 option"

definition stored :: "bool \<Rightarrow> u32 \<Rightarrow> u32 option" where
  "stored ptr v = (if ptr then Some v else None)"

definition query_mbc :: "u32 \<Rightarrow> u32 \<Rightarrow> bool \<Rightarrow> bool \<Rightarrow> MailboxControl" where
  "query_mbc DEFTO command a3 a4 =
     (let flags = DEFTO OR MBC_TO_MBXW (push_bit BP_MB_COMMAND 1) OR MBC_TO_MBXR (push_bit BP_MB_COMMAND 1);
          flags3 = (if a3 then flags OR MBC_TO_MBXR (push_bit BP_MB_A3 1) else flags);
          flags4 = (if a4 then flags3 OR MBC_TO_MBXR (push_bit BP_MB_A4 1) else flags3);
          mbc = new_mbc flags4
      in mbc\<lparr>mbxw := (mbxw mbc)[BP_MB_COMMAND := command OR BP_CI_QUERY OR BP_CI_DONE]\<rparr>)"

definition query_answer :: "bool \<Rightarrow> bool \<Rightarrow> bool \<Rightarrow> bool \<Rightarrow> u32 list \<Rightarrow> query_result" where
  "query_answer a1 a2 a3 a4 r =
     \<lparr>q_a1 = stored a1 (BP_GET_A1 (r ! BP_MB_COMMAND)), q_a2 = stored a2 (BP_GET_A2 (r ! BP_MB_COMMAND)),
      q_a3 = stored a3 (r ! BP_MB_A3), q_a4 = stored a4 (r ! BP_MB_A4)\<rparr>"

definition acq200_sendQuery ::
  "u32 \<Rightarrow> exchange \<Rightarrow> mbox_dev \<Rightarrow> u32 \<Rightarrow> bool \<Rightarrow> bool \<Rightarrow> bool \<Rightarrow> bool \<Rightarrow> int \<times> mbox_dev \<times> query_result option" where
  "acq200_sendQuery DEFTO x device command a1 a2 a3 a4 =
     (let (rc, d, mbc) = acq200_ioctl_wbr_mbox x device (query_mbc DEFTO command a3 a4)
      in (rc, d, if rc = 0 then Some (query_answer a1 a2 a3 a4 (mbxr mbc)) else None))"

text \<open>The pair holds \<open>input_channels.nchannels\<close> and \<open>output_channels.nchannels\<close> of the device.\<close>

definition acq200_getAvailableChannels :: "u32 \<Rightarrow> exchange \<Rightarrow> mbox_dev \<Rightarrow> u32 \<times> u32 \<Rightarrow> int \<times> mbox_dev \<times> u32 \<times> u32" where
  "acq200_getAvailableChannels DEFTO x device chans =
     (let (rc, d, res) = acq200_sendQuery DEFTO x device (BP_SET_FUNCODE BPFC_GET_NCHANNELS) True True False False
      in (rc, d, case res of
                   Some q \<Rightarrow> (the (q_a1 q), the (q_a2 q))
                 | None \<Rightarrow> chans))"

definition status_heartbeat :: "u32 \<Rightarrow> u32" where
  "status_heartbeat status = BP_GET_HEARTBEAT status"

text \<open>The status mailbox at the first, second and third look.\<close>

definition acq200_getHeartbeat :: "u32 \<Rightarrow> u32 \<Rightarrow> u32 \<Rightarrow> u32" where
  "acq200_getHeartbeat s1 s2 s3 =
     (let v1 = status_heartbeat s1; v2 = status_heartbeat s2 in
      if v2 \<noteq> v1 then if v1 < v2 then v2 - v1 else status_heartbeat s3 - v2
      else 0)"

section \<open>Lemmas\<close>

lemma box_selected: "2 ^ i AND m = 0 \<longleftrightarrow> \<not> bit m i" for m :: u32
  by (metis and.commute bit_iff_and_push_bit_not_eq_0 mult_1 push_bit_eq_mult)

lemma length_read_boxes [simp]: "length (read_boxes n m regs out) = length out"
  by (induction n m regs out rule: read_boxes.induct) auto

lemma read_boxes_nth:
  "n \<le> length out \<Longrightarrow> i < length out \<Longrightarrow>
   read_boxes n m regs out ! i = (if i < n \<and> bit m i then regs ! i else out ! i)"
  by (induction n m regs out rule: read_boxes.induct)
    (auto simp: box_selected less_Suc_eq nth_list_update)

definition selected_writes :: "nat \<Rightarrow> u32 \<Rightarrow> u32 list \<Rightarrow> (nat \<times> u32) list" where
  "selected_writes n m vals = map (\<lambda>i. (i, vals ! i)) (filter (\<lambda>i. bit m i) (rev [0..<n]))"

lemma write_boxes_log:
  "mbox_writes (write_boxes n m vals d) = mbox_writes d @ selected_writes n m vals"
  by (induction n m vals d rule: write_boxes.induct)
    (auto simp: box_selected selected_writes_def MBOX_WRITE_def)

lemma write_boxes_regs:
  "n \<le> length (mbox d) \<Longrightarrow> length (mbox (write_boxes n m vals d)) = length (mbox d) \<and>
   (\<forall>i < length (mbox d). mbox (write_boxes n m vals d) ! i =
      (if i < n \<and> bit m i then vals ! i else mbox d ! i))"
  by (induction n m vals d rule: write_boxes.induct)
    (auto simp: box_selected MBOX_WRITE_def less_Suc_eq nth_list_update)

lemma write_boxes_frame [simp]:
  "sem (write_boxes n m vals d) = sem d"
  "using_interrupt (write_boxes n m vals d) = using_interrupt d"
  by (induction n m vals d rule: write_boxes.induct) (auto simp: MBOX_WRITE_def)

lemma bit_u32_numeral:
  "bit (0x000f0000 :: u32) i \<longleftrightarrow> 16 \<le> i \<and> i < 20"
  "bit (0x00f00000 :: u32) i \<longleftrightarrow> 20 \<le> i \<and> i < 24"
  "bit (0xf :: u32) i \<longleftrightarrow> i < 4"
proof -
  have a: "(0xf :: u32) = mask 4" by (simp add: mask_eq_exp_minus_1)
  have b: "(0x000f0000 :: u32) = push_bit 16 (mask 4)" "(0x00f00000 :: u32) = push_bit 20 (mask 4)"
    by (simp_all add: mask_eq_exp_minus_1 push_bit_eq_mult)
  show "bit (0x000f0000 :: u32) i \<longleftrightarrow> 16 \<le> i \<and> i < 20"
    "bit (0x00f00000 :: u32) i \<longleftrightarrow> 20 \<le> i \<and> i < 24" "bit (0xf :: u32) i \<longleftrightarrow> i < 4"
    unfolding a b by (auto simp: bit_simps)
qed

lemma bit_from_mbx:
  "i < 4 \<Longrightarrow> bit (MBC_FROM_MBXW mbc) i \<longleftrightarrow> bit (mbc_flags mbc) (16 + i)"
  "i < 4 \<Longrightarrow> bit (MBC_FROM_MBXR mbc) i \<longleftrightarrow> bit (mbc_flags mbc) (20 + i)"
  by (auto simp: MBC_FROM_MBXW_def MBC_FROM_MBXR_def MBC_FLAGS_MBXW_def MBC_FLAGS_MBXR_def
      bit_drop_bit_eq bit_and_iff bit_take_bit_iff bit_u32_numeral)

lemma upt_4: "rev [0..<4] = [3, 2, 1, 0 :: nat]"
  by (simp add: upt_rec)

lemma poll_loop_iff:
  "poll_loop cmd late i = 0 \<longleftrightarrow>
     (\<exists>k. i \<le> k \<and> k < BIGTIME \<and> cmd k AND BP_CI_ACK \<noteq> 0 \<and> (\<forall>j. i \<le> j \<longrightarrow> j < k \<longrightarrow> \<not> late j))"
proof (induction cmd late i rule: poll_loop.induct)
  case (1 cmd late i)
  show ?case
  proof (cases "BIGTIME \<le> i \<or> cmd i AND BP_CI_ACK \<noteq> 0 \<or> late i")
    case True
    then show ?thesis
      by (subst poll_loop.simps) (auto simp: ETIMEDOUT_def le_less intro: exI [of _ i])
  next
    case False
    then have step: "poll_loop cmd late i = poll_loop cmd late (Suc i)"
      by (subst poll_loop.simps) auto
    have ih: "poll_loop cmd late (Suc i) = 0 \<longleftrightarrow>
       (\<exists>k. Suc i \<le> k \<and> k < BIGTIME \<and> cmd k AND BP_CI_ACK \<noteq> 0 \<and> (\<forall>j. Suc i \<le> j \<longrightarrow> j < k \<longrightarrow> \<not> late j))"
      using 1 False by auto
    show ?thesis
      unfolding step ih using False by (metis Suc_le_eq le_eq_less_or_eq)
  qed
qed

lemma poll_loop_values: "poll_loop cmd late i \<in> {0, - ETIMEDOUT}"
  by (induction cmd late i rule: poll_loop.induct) (subst poll_loop.simps, auto)

lemmas wbr_defs = acq200_ioctl_wbr_mbox_def ioctl_write_mbox_def acq200_ioctl_read_mbox_def sem_down_def sem_up_def
  MBOX_NUM_def

lemma write_boxes_mbox_cong:
  "mbox e = mbox e' \<Longrightarrow> mbox (write_boxes n m v e) = mbox (write_boxes n m v e')"
proof (induction n arbitrary: e e')
  case (Suc n)
  show ?case
    unfolding write_boxes.simps by (rule Suc.IH) (simp add: MBOX_WRITE_def Suc.prems)
qed simp

lemma wbr_cases:
  assumes "acq200_ioctl_wbr_mbox x d mbc = (rc, d', mbc')" "\<not> ex_down_interrupted x"
  shows "mbox_writes d' = mbox_writes d @ selected_writes 4 (MBC_FROM_MBXW mbc) (mbxw mbc)"
    and "sem d' = sem d" and "using_interrupt d' = using_interrupt d"
    and "rc = wbr_wait x (mbc_flags mbc AND MBC_FLAGS_TO) d"
    and "mbox d' = ex_card x (mbox (write_boxes 4 (MBC_FROM_MBXW mbc) (mbxw mbc) d))"
    and "mbc' = mbc\<lparr>mbxr := read_boxes 4 (MBC_FROM_MBXR mbc) (mbox d') (mbxr mbc)\<rparr>"
proof -
  note same = write_boxes_mbox_cong [of "d\<lparr>sem := sem d - 1, mb_response_received := False\<rparr>" d]
  show "mbox_writes d' = mbox_writes d @ selected_writes 4 (MBC_FROM_MBXW mbc) (mbxw mbc)"
    "sem d' = sem d" "using_interrupt d' = using_interrupt d"
    "rc = wbr_wait x (mbc_flags mbc AND MBC_FLAGS_TO) d"
    "mbox d' = ex_card x (mbox (write_boxes 4 (MBC_FROM_MBXW mbc) (mbxw mbc) d))"
    "mbc' = mbc\<lparr>mbxr := read_boxes 4 (MBC_FROM_MBXR mbc) (mbox d') (mbxr mbc)\<rparr>"
    using assms by (auto simp: wbr_defs wbr_wait_def write_boxes_log same Let_def)
qed

lemma selected_writes_4:
  "selected_writes 4 (MBC_FROM_MBXW mbc) v =
     map (\<lambda>i. (i, v ! i)) (filter (\<lambda>i. bit (mbc_flags mbc) (16 + i)) [3, 2, 1, 0])"
  by (simp add: selected_writes_def upt_4 bit_from_mbx)

lemma timeout_bits: "DEFTO < 0x10000 \<Longrightarrow> bit (DEFTO :: u32) n \<Longrightarrow> n < 16"
  using small_word_bits [of DEFTO 16 n] by simp


lemma bit_to_mbx:
  "bit (MBC_TO_MBXW m) n \<longleftrightarrow> n < 32 \<and> 16 \<le> n \<and> bit m (n - 16)"
  "bit (MBC_TO_MBXR m) n \<longleftrightarrow> n < 32 \<and> 20 \<le> n \<and> bit m (n - 20)"
  by (auto simp: MBC_TO_MBXW_def MBC_TO_MBXR_def bit_simps)

lemma bit_box: "bit (push_bit k 1 :: u32) n \<longleftrightarrow> n < 32 \<and> n = k"
  by (auto simp del: push_bit_of_1 simp: bit_push_bit_iff bit_1_iff)

lemmas box_bits = bit_or_iff bit_to_mbx bit_box BP_MB_COMMAND_def BP_MB_A3_def BP_MB_A4_def

lemma query_mbc_bits:
  "bit (mbc_flags (query_mbc DEFTO command a3 a4)) n \<longleftrightarrow>
     bit DEFTO n \<or> n = 16 \<or> n = 20 \<or> (a3 \<and> n = 21) \<or> (a4 \<and> n = 22)"
  unfolding query_mbc_def new_mbc_def Let_def
  by (cases a3; cases a4; simp only: box_bits MailboxControl.simps if_True if_False; auto)

lemma commandA3A4_mbc_bits:
  "bit (mbc_flags (commandA3A4_mbc DEFTO command a3 a4)) n \<longleftrightarrow>
     bit DEFTO n \<or> n = 16 \<or> n = 17 \<or> n = 18 \<or> 20 \<le> n \<and> n < 24"
  unfolding commandA3A4_mbc_def new_mbc_def Let_def
  by (simp only: box_bits MailboxControl.simps bit_u32_numeral) auto

lemma heartbeat_value: "unat (status_heartbeat s) = unat s mod 4096"
  by (simp add: status_heartbeat_def BP_GET_HEARTBEAT_def take_bit_eq_mod unat_mod)

section \<open>Properties\<close>

text \<open>C10. One write-block-read exchange.  The selected mailboxes are written in descending order, so that the
command word goes last, after its arguments, and no other register is touched; the result code is the one of
the wait; whatever that code, the selected mailboxes are read back from the registers as the card left
them, the other words of the control block keep their value, and the mutex is returned.  If taking
the mutex is interrupted nothing happens at all.\<close>

theorem wbr_exchange:
  assumes "acq200_ioctl_wbr_mbox x d mbc = (rc, d', mbc')"
    and "length (mbxr mbc) = 4"
  shows "sem d' = sem d \<and>
    (if ex_down_interrupted x then rc = - ERESTARTSYS \<and> d' = d \<and> mbc' = mbc
     else mbox_writes d' = mbox_writes d @
        map (\<lambda>i. (i, mbxw mbc ! i)) (filter (\<lambda>i. bit (mbc_flags mbc) (16 + i)) [3, 2, 1, 0]) \<and>
      rc = wbr_wait x (mbc_flags mbc AND MBC_FLAGS_TO) d \<and>
      mbxw mbc' = mbxw mbc \<and> mbc_flags mbc' = mbc_flags mbc \<and>
      (\<forall>i < 4. mbxr mbc' ! i = (if bit (mbc_flags mbc) (20 + i) then mbox d' ! i else mbxr mbc ! i)))"
proof (cases "ex_down_interrupted x")
  case True
  then show ?thesis using assms(1) by (simp add: acq200_ioctl_wbr_mbox_def)
next
  case False
  note w = wbr_cases [OF assms(1) False]
  show ?thesis
    using assms(2) False by (simp add: w(1) w(2) w(4) w(6) selected_writes_4 read_boxes_nth bit_from_mbx)
qed

definition quiet_dev :: mbox_dev where
  "quiet_dev = \<lparr>mbox = [0, 0, 0, 0x123], mbox_writes = [], sem = 1, using_interrupt = False, mb_response_received = True\<rparr>"

definition acking_exchange :: exchange where
  "acking_exchange = \<lparr>ex_down_interrupted = False, ex_wait = 0, ex_cmd = (\<lambda>_. MASK 31), ex_late = (\<lambda>_. False),
     ex_card = (\<lambda>r. [0x80050607, 11, 12, r ! 3])\<rparr>"

lemma acking_poll: "acq200_poll_response (ex_cmd acking_exchange) (ex_late acking_exchange) = 0"
  by (simp add: acq200_poll_response_def poll_loop.simps acking_exchange_def BP_CI_ACK_def MASK_def BIGTIME_def)

theorem wbr_exchange_witness:
  "case acq200_ioctl_wbr_mbox acking_exchange quiet_dev (new_mbc 0x00170064) of (rc, d', mbc') \<Rightarrow>
     sem d' = 1 \<and> rc = 0 \<and> mbox_writes d' = [(2, 0), (1, 0), (0, 0)] \<and> mbxr mbc' ! 0 = 0x80050607"
proof -
  obtain rc d' mbc' where e: "acq200_ioctl_wbr_mbox acking_exchange quiet_dev (new_mbc 0x00170064) = (rc, d', mbc')"
    by (rule prod_cases3)
  have "\<not> ex_down_interrupted acking_exchange" by (simp add: acking_exchange_def)
  with wbr_exchange [OF e] wbr_cases(5) [OF e] acking_poll show ?thesis
    unfolding e prod.case by (simp add: new_mbc_def quiet_dev_def wbr_wait_def acking_exchange_def)
qed

text \<open>Polling for the acknowledgement answers zero exactly when some look within the loop bound sees
the acknowledge bit before the deadline passed at an earlier look, and a timeout otherwise; it
always ends.\<close>

theorem poll_response_iff:
  "(acq200_poll_response cmd late = 0 \<longleftrightarrow>
     (\<exists>k < BIGTIME. cmd k AND BP_CI_ACK \<noteq> 0 \<and> \<not> (\<exists>j < k. late j))) \<and>
   acq200_poll_response cmd late \<in> {0, - ETIMEDOUT}"
  using poll_loop_iff [of cmd late 0] poll_loop_values [of cmd late 0]
  by (auto simp: acq200_poll_response_def)

text \<open>C23. A query.  Exactly one register write is made, the command word with the query and done flags
added; when the exchange succeeds every result the caller asked for is the field of the card's answer,
taken from the registers after the wait, and when it fails nothing is stored.  The timeout fits its sixteen
bits (it is the kernel's tick rate).\<close>

theorem send_query_answer:
  assumes "acq200_sendQuery DEFTO x d command a1 a2 a3 a4 = (rc, d', res)"
    and "DEFTO < 0x10000" and "\<not> ex_down_interrupted x"
  shows "mbox_writes d' = mbox_writes d @ [(BP_MB_COMMAND, command OR BP_CI_QUERY OR BP_CI_DONE)] \<and>
      sem d' = sem d \<and>
      res = (if rc = 0 then
        Some \<lparr>q_a1 = (if a1 then Some (BP_GET_A1 (mbox d' ! BP_MB_COMMAND)) else None),
              q_a2 = (if a2 then Some (BP_GET_A2 (mbox d' ! BP_MB_COMMAND)) else None),
              q_a3 = (if a3 then Some (mbox d' ! BP_MB_A3) else None),
              q_a4 = (if a4 then Some (mbox d' ! BP_MB_A4) else None)\<rparr>
        else None)"
proof -
  let ?q = "query_mbc DEFTO command a3 a4"
  obtain mbc' where e: "acq200_ioctl_wbr_mbox x d ?q = (rc, d', mbc')"
    and r: "res = (if rc = 0 then Some (query_answer a1 a2 a3 a4 (mbxr mbc')) else None)"
    using assms(1) by (auto simp: acq200_sendQuery_def Let_def split: prod.splits)
  note w = wbr_cases [OF e assms(3)]
  have shape: "mbxw ?q ! 0 = command OR BP_CI_QUERY OR BP_CI_DONE" "mbxr ?q = [0, 0, 0, 0]"
    by (simp_all add: query_mbc_def new_mbc_def BP_MB_COMMAND_def Let_def)
  have t: "\<not> bit DEFTO 16" "\<not> bit DEFTO 17" "\<not> bit DEFTO 18" "\<not> bit DEFTO 19"
    using timeout_bits [OF assms(2)] by force+
  have "mbox_writes d' = mbox_writes d @ [(BP_MB_COMMAND, command OR BP_CI_QUERY OR BP_CI_DONE)]"
    unfolding w(1) selected_writes_4 query_mbc_bits by (simp add: shape BP_MB_COMMAND_def t)
  with w(2) r show ?thesis
    by (auto simp: w(6) query_answer_def stored_def BP_MB_COMMAND_def BP_MB_A3_def BP_MB_A4_def
        read_boxes_nth shape(2) bit_from_mbx query_mbc_bits)
qed

theorem send_query_answer_witness:
  "case acq200_sendQuery 100 acking_exchange quiet_dev (BP_SET_FUNCODE 5) True True True False of (rc, d', res) \<Rightarrow>
     rc = 0 \<and> res = Some \<lparr>q_a1 = Some 6, q_a2 = Some 7, q_a3 = Some 11, q_a4 = None\<rparr>"
proof -
  let ?q = "query_mbc 100 (BP_SET_FUNCODE 5) True False"
  obtain rc d' res where
    e: "acq200_sendQuery 100 acking_exchange quiet_dev (BP_SET_FUNCODE 5) True True True False = (rc, d', res)"
    by (rule prod_cases3)
  then obtain mbc' where w: "acq200_ioctl_wbr_mbox acking_exchange quiet_dev ?q = (rc, d', mbc')"
    by (auto simp: acq200_sendQuery_def Let_def split: prod.splits)
  have n: "\<not> ex_down_interrupted acking_exchange" by (simp add: acking_exchange_def)
  have rc: "rc = 0"
    using wbr_cases(4) [OF w n] acking_poll by (simp add: wbr_wait_def quiet_dev_def)
  obtain v where regs: "mbox d' = [0x80050607, 11, 12, v]"
    using wbr_cases(5) [OF w n] by (simp add: acking_exchange_def)
  from send_query_answer [OF e] show ?thesis
    unfolding e prod.case
    by (simp add: rc regs n BP_MB_COMMAND_def BP_MB_A3_def bp_field_defs)
qed

text \<open>The heartbeat meter.  When the status mailbox counts \<open>n\<close> ticks, fewer than half the range of the
twelve bit counter, between successive looks, the result is \<open>n\<close> even if the counter wraps between the looks.\<close>

theorem heartbeat_ticks:
  assumes "unat (status_heartbeat s2) = (unat (status_heartbeat s1) + n) mod 4096"
    and "unat (status_heartbeat s3) = (unat (status_heartbeat s2) + n) mod 4096"
    and "n < 2048"
  shows "acq200_getHeartbeat s1 s2 s3 = of_nat n"
proof -
  let ?h = status_heartbeat
  have b: "unat (?h s1) < 4096" "unat (?h s2) < 4096" by (simp_all add: heartbeat_value)
  have diff: "a - c = of_nat n" if "unat a = unat c + n" for a c :: u32
    using arg_cong [OF that, of "of_nat :: nat \<Rightarrow> u32"] by simp
  show ?thesis
  proof (cases "unat (?h s1) + n < 4096")
    case True
    then have u: "unat (?h s2) = unat (?h s1) + n" using assms(1) by simp
    then show ?thesis
      using diff [OF u] by (auto simp: acq200_getHeartbeat_def Let_def word_less_nat_alt word_unat_eq_iff)
  next
    case False
    then have u: "unat (?h s2) + 4096 = unat (?h s1) + n"
      using assms b by (simp add: le_mod_geq)
    then have u3: "unat (?h s3) = unat (?h s2) + n" using assms b by simp
    from u b have "?h s2 \<noteq> ?h s1" "\<not> ?h s1 < ?h s2"
      using assms(3) by (auto simp: word_less_nat_alt)
    then show ?thesis using diff [OF u3] by (simp add: acq200_getHeartbeat_def Let_def)
  qed
qed

theorem heartbeat_ticks_witness: "acq200_getHeartbeat 0x40000ffe 0x40000008 0x40000012 = 10"
  using heartbeat_ticks [of "0x40000008" "0x40000ffe" 10 "0x40000012"]
  by (simp add: status_heartbeat_def BP_GET_HEARTBEAT_def)

text \<open>A command with the arguments A3 and A4.  The arguments are written to their mailboxes before the
command word, but the flags that announce them are not set by the driver: the mailbox numbers are
merged into the command word in their place, which overwrites the two low bits of A2.\<close>

theorem send_command_a3a4_word:
  assumes "acq200_sendCommandA3A4 DEFTO x d command a3 a4 = (rc, d')"
    and "DEFTO < 0x10000" and "\<not> ex_down_interrupted x"
  shows "\<exists>w. mbox_writes d' = mbox_writes d @ [(BP_MB_A4, a4), (BP_MB_A3, a3), (BP_MB_COMMAND, w)] \<and>
     BP_GET_A2 w = BP_GET_A2 command OR 3 \<and>
     (w AND BP_CI_A3 \<noteq> 0 \<longleftrightarrow> command AND BP_CI_A3 \<noteq> 0) \<and> (w AND BP_CI_A4 \<noteq> 0 \<longleftrightarrow> command AND BP_CI_A4 \<noteq> 0)"
proof -
  let ?q = "commandA3A4_mbc DEFTO command a3 a4"
  let ?w = "command OR BP_CI_DONE OR BP_CI_COMMAND OR 1 OR 2"
  obtain mbc' where e: "acq200_ioctl_wbr_mbox x d ?q = (rc, d', mbc')"
    using assms(1) by (auto simp: acq200_sendCommandA3A4_def Let_def split: prod.splits)
  have shape: "mbxw ?q = [?w, a3, a4, 0]"
    by (simp add: commandA3A4_mbc_def new_mbc_def BP_MB_COMMAND_def BP_MB_A3_def BP_MB_A4_def Let_def)
  have t: "\<not> bit DEFTO 19" using timeout_bits [OF assms(2)] by force
  have "mbox_writes d' = mbox_writes d @ [(BP_MB_A4, a4), (BP_MB_A3, a3), (BP_MB_COMMAND, ?w)]"
    unfolding wbr_cases(1) [OF e assms(3)] selected_writes_4 commandA3A4_mbc_bits
    by (simp add: shape BP_MB_COMMAND_def BP_MB_A3_def BP_MB_A4_def t)
  moreover have "BP_GET_A2 ?w = BP_GET_A2 command OR 3"
    by (intro bit_word_eqI) (auto simp: BP_GET_A2_def bp_ci_defs MASK_def bit_simps)
  moreover have "(?w AND BP_CI_A3 \<noteq> 0 \<longleftrightarrow> command AND BP_CI_A3 \<noteq> 0) \<and> (?w AND BP_CI_A4 \<noteq> 0 \<longleftrightarrow> command AND BP_CI_A4 \<noteq> 0)"
    by (simp add: bp_ci_defs MASK_def bit.conj_disj_distrib2)
  ultimately show ?thesis by blast
qed

theorem send_command_a3a4_word_witness:
  "\<exists>w. mbox_writes (snd (acq200_sendCommandA3A4 100 acking_exchange quiet_dev (command_word 0 0x41 2 4) 11 12)) =
     [(BP_MB_A4, 12), (BP_MB_A3, 11), (BP_MB_COMMAND, w)] \<and> BP_GET_A2 w = 7 \<and> w AND BP_CI_A3 = 0"
  using send_command_a3a4_word [of 100 acking_exchange quiet_dev "command_word 0 0x41 2 4" 11 12, OF prod.collapse [symmetric]]
  by (simp add: acking_exchange_def quiet_dev_def command_word_def bp_field_defs bp_ci_defs) blast

text \<open>The mailbox ioctl reports success whenever both copies succeed, whatever the exchange returned: the
code of the action is overwritten by that of the copy to user space, so that a card that never answers is not
seen by the caller.\<close>

theorem mbox_ioctl_hides_result:
  assumes "acq200_ioctl_wbr_mbox x d ubc = (rc, d', mbc')"
    and "mbc_flags ubc AND MBC_FLAGS_ONRELEASE = 0"
  shows "acq200_ioctl True True x csr_pa d on_release ubc ACQ200_MBOX_IOWR = MboxResult (0, d', on_release, mbc')"
  using assms by (simp add: acq200_ioctl_def acq200_mbox_ioctl_def run_action_def)

definition silent_exchange :: exchange where
  "silent_exchange = \<lparr>ex_down_interrupted = False, ex_wait = 0, ex_cmd = (\<lambda>_. 0), ex_late = (\<lambda>_. True), ex_card = (\<lambda>r. r)\<rparr>"

theorem mbox_ioctl_hides_result_witness:
  "fst (acq200_ioctl_wbr_mbox silent_exchange quiet_dev (command_mbc 100 5)) = - ETIMEDOUT \<and>
   (\<exists>d' mbc'. acq200_ioctl True True silent_exchange 0 quiet_dev (new_mbc 0) (command_mbc 100 5) ACQ200_MBOX_IOWR =
      MboxResult (0, d', new_mbc 0, mbc'))"
proof -
  obtain rc d' mbc' where e: "acq200_ioctl_wbr_mbox silent_exchange quiet_dev (command_mbc 100 5) = (rc, d', mbc')"
    by (rule prod_cases3)
  have "rc = wbr_wait silent_exchange (mbc_flags (command_mbc 100 5) AND MBC_FLAGS_TO) quiet_dev"
    by (rule wbr_cases(4) [OF e]) (simp add: silent_exchange_def)
  also have "\<dots> = - ETIMEDOUT"
    by (simp add: wbr_wait_def quiet_dev_def acq200_poll_response_def poll_loop.simps silent_exchange_def BIGTIME_def)
  finally have "rc = - ETIMEDOUT" .
  moreover have "mbc_flags (command_mbc 100 5) AND MBC_FLAGS_ONRELEASE = 0"
    by (simp add: command_mbc_def new_mbc_def MBC_TO_MBXW_def MBC_TO_MBXR_def BP_MB_COMMAND_def MBC_FLAGS_ONRELEASE_def Let_def)
  ultimately show ?thesis using e mbox_ioctl_hides_result [OF e] by simp
qed

end
