(* ===== verification/Paths.thy ===== *)
theory Paths
  imports I2o_Write Mailbox
begin

text \<open>
  Device nodes and open paths (\<^verbatim>\<open>src/acq200_minors.h\<close>, \<^verbatim>\<open>src/acq200.c\<close>): the choice of file operations by minor
  number, open and release, the semaphore that makes bridge paths and the A/B ioctl exclude each other, the count
  of A/B clients with its backstop thread, and the mailbox action deferred to the release.

  The state joins the message transport, the mailboxes and what is private to the paths.  A semaphore is
  its count; \<open>intr\<close> arguments tell whether a \<open>down_interruptible\<close> is interrupted.  A call that would sleep for ever
  or oops is \<open>None\<close>.
\<close>

section \<open>Minor numbers\<close>

definition MINOR :: "u32 \<Rightarrow> u32" where "MINOR dev = dev AND 0xfffff"
definition SPECIAL_dev :: "u32 \<Rightarrow> bool" where "SPECIAL_dev dev \<longleftrightarrow> MINOR dev AND 0xe0 = 0xc0"
definition CHANNEL_dev :: "u32 \<Rightarrow> bool" where "CHANNEL_dev dev \<longleftrightarrow> MINOR dev AND 0x80 = 0"
definition FILE_dev :: "u32 \<Rightarrow> bool" where "FILE_dev dev \<longleftrightarrow> MINOR dev AND 0xf0 = 0x80"
definition RSH_dev :: "u32 \<Rightarrow> bool" where
  "RSH_dev dev \<longleftrightarrow> MINOR dev = 227 \<or> MINOR dev = 228 \<or> MINOR dev = 229 \<or> MINOR dev = 237"
definition IS_CHANNEL_DEV :: "u32 \<Rightarrow> bool" where "IS_CHANNEL_DEV dev = CHANNEL_dev dev"
definition SPECIAL_FLAGS :: "u32 \<Rightarrow> u32" where
  "SPECIAL_FLAGS dev = (if SPECIAL_dev dev then MINOR dev AND 0x1f else 0)"
definition IS_FILE :: "u32 \<Rightarrow> bool" where "IS_FILE dev = FILE_dev dev"
definition IS_RSH :: "u32 \<Rightarrow> bool" where "IS_RSH dev = RSH_dev dev"
definition DEVRAW :: "u32 \<Rightarrow> bool" where "DEVRAW dev \<longleftrightarrow> SPECIAL_dev dev \<and> SPECIAL_FLAGS dev = 1"
definition BIGDUMPDEV :: "u32 \<Rightarrow> bool" where "BIGDUMPDEV dev \<longleftrightarrow> SPECIAL_dev dev \<and> SPECIAL_FLAGS dev = 3"
definition LLHOSTDEV :: "u32 \<Rightarrow> bool" where "LLHOSTDEV dev \<longleftrightarrow> SPECIAL_dev dev \<and> SPECIAL_FLAGS dev = 11"

lemmas minor_defs = MINOR_def SPECIAL_dev_def CHANNEL_dev_def FILE_dev_def RSH_dev_def IS_CHANNEL_DEV_def
  SPECIAL_FLAGS_def IS_FILE_def IS_RSH_def DEVRAW_def BIGDUMPDEV_def LLHOSTDEV_def

datatype fops = AcqFops | LlhostFops | MboxFops | BridgeFops | BridgeABFops

text \<open>The operations installed, and whether the open takes the busy semaphore.\<close>

definition select_fops :: "u32 \<Rightarrow> fops \<times> bool" where
  "select_fops mn =
     (if DEVRAW mn then (MboxFops, False)
      else if BIGDUMPDEV mn then (AcqFops, False)
      else if LLHOSTDEV mn then (LlhostFops, False)
      else if IS_CHANNEL_DEV mn then
        (if 96 < mn then (BridgeABFops, False) else (BridgeFops, True))
      else if IS_FILE mn then (BridgeFops, True)
      else if IS_RSH mn then (BridgeFops, True)
      else (AcqFops, True))"

section \<open>State\<close>

record path_ext =
  f_op :: fops
  has_AB_busy_mutex :: bool
  mbc_on_release :: MailboxControl

record file_dev =
  fd_i2o :: i2o_dev
  fd_mbox :: mbox_dev
  buffer_AB_busy_mutex :: int
  clients_mutex :: int
  clients_count :: int
  i2o_backstop :: bool
  opened :: "nat \<Rightarrow> path_ext option"

definition ext_update :: "nat \<Rightarrow> (path_ext \<Rightarrow> path_ext) \<Rightarrow> file_dev \<Rightarrow> file_dev" where
  "ext_update p f d = d\<lparr>opened := (opened d)(p := map_option f (opened d p))\<rparr>"

section \<open>Buffers\<close>

text \<open>\<open>pages o\<close> is the address the kernel gives for \<open>2^o\<close> pages, zero when it has none.\<close>

fun get_max_buf :: "(nat \<Rightarrow> int) \<Rightarrow> DmaBuf \<Rightarrow> nat \<Rightarrow> DmaBuf option" where
  "get_max_buf pages dbuf 0 =
     (if pages 0 \<noteq> 0 then Some (dbuf\<lparr>db_va := pages 0, order := 0\<rparr>) else None)"
| "get_max_buf pages dbuf (Suc n) =
     (if pages (Suc n) \<noteq> 0 then Some (dbuf\<lparr>db_va := pages (Suc n), order := Suc n\<rparr>)
      else get_max_buf pages dbuf n)"

text \<open>\<open>dma_map\<close> is \<open>dma_map_single\<close>, from address and length to the bus address.\<close>

definition alloc_max_buf :: "(nat \<Rightarrow> int) \<Rightarrow> (int \<Rightarrow> int \<Rightarrow> u32) \<Rightarrow> DmaBuf \<Rightarrow> nat \<Rightarrow> DmaBuf option" where
  "alloc_max_buf pages dma_map dbuf max_order =
     map_option (\<lambda>b. b\<lparr>db_pa := dma_map (db_va b) (dma_buf_len b)\<rparr>) (get_max_buf pages dbuf max_order)"

section \<open>Paths\<close>

definition null_mapping :: IoMapping where
  "null_mapping = \<lparr>io_va = 0, io_pa = 0, io_len = 0, io_name = ''''\<rparr>"

text \<open>Everything up to the scratch area is cleared; \<open>junk\<close> is what the scratch area holds.\<close>

definition acq200_createPath :: "nat \<Rightarrow> u32 \<Rightarrow> MESSAGE \<Rightarrow> file_dev \<Rightarrow> file_dev" where
  "acq200_createPath p i_rdev junk d =
     d\<lparr>fd_i2o := (fd_i2o d)\<lparr>paths := (paths (fd_i2o d))(p \<mapsto>
           \<lparr>minor = MINOR i_rdev, last_direction_hack = 0, rchAB = [None, None],
            bufferMappings = [null_mapping, null_mapping], ab_next = 0, sid = 0, scratch = junk\<rparr>)\<rparr>,
       opened := (opened d)(p \<mapsto> \<lparr>f_op = AcqFops, has_AB_busy_mutex = False, mbc_on_release = new_mbc 0\<rparr>)\<rparr>"

section \<open>A/B clients\<close>

definition acq200_onFirstClientOpenAB :: "file_dev \<Rightarrow> int \<times> file_dev" where
  "acq200_onFirstClientOpenAB d = (0, d\<lparr>i2o_backstop := True\<rparr>)"

text \<open>Stopping a thread that does not run is an oops.\<close>

definition acq200_onLastClientReleaseAB :: "file_dev \<Rightarrow> (int \<times> file_dev) option" where
  "acq200_onLastClientReleaseAB d = (if i2o_backstop d then Some (0, d\<lparr>i2o_backstop := False\<rparr>) else None)"

definition onOpen :: "bool \<Rightarrow> file_dev \<Rightarrow> int \<times> file_dev" where
  "onOpen intr d =
     (if intr then (- ERESTARTSYS, d)
      else
        let d1 = d\<lparr>clients_mutex := clients_mutex d - 1, clients_count := clients_count d + 1\<rparr>;
            (rc, d2) = (if clients_count d1 = 1 then acq200_onFirstClientOpenAB d1 else (0, d1))
        in (rc, d2\<lparr>clients_mutex := clients_mutex d2 + 1\<rparr>))"

text \<open>An interrupted \<open>down\<close> is reported but the code goes on, and releases a semaphore it does not hold.\<close>

definition onRelease :: "bool \<Rightarrow> file_dev \<Rightarrow> (int \<times> file_dev) option" where
  "onRelease intr d =
     (let d1 = (if intr then d else d\<lparr>clients_mutex := clients_mutex d - 1\<rparr>) in
      do { (rc, d2) \<leftarrow> (if clients_count d1 = 1 then acq200_onLastClientReleaseAB d1 else Some (0, d1));
           Some (rc, d2\<lparr>clients_count := clients_count d2 - 1, clients_mutex := clients_mutex d2 + 1\<rparr>) })"

text \<open>What the kernel contributes to an open.\<close>

record open_env =
  oe_junk :: MESSAGE
  oe_busy_intr :: bool
  oe_clients_intr :: bool
  oe_pages_A :: "nat \<Rightarrow> int"
  oe_pages_B :: "nat \<Rightarrow> int"
  oe_dma_map :: "int \<Rightarrow> int \<Rightarrow> u32"
  oe_max_order :: nat

definition alloc_AB :: "open_env \<Rightarrow> i2o_dev \<Rightarrow> i2o_dev option" where
  "alloc_AB e d =
     (if db_va (AB d ! 0) = 0 then
        do { a \<leftarrow> alloc_max_buf (oe_pages_A e) (oe_dma_map e) (AB d ! 0) (oe_max_order e);
             b \<leftarrow> alloc_max_buf (oe_pages_B e) (oe_dma_map e) (AB d ! 1) (oe_max_order e);
             Some (d\<lparr>AB := (AB d)[0 := a, 1 := b]\<rparr>) }
      else Some d)"

definition acq200_bridge_openAB :: "open_env \<Rightarrow> nat \<Rightarrow> file_dev \<Rightarrow> (int \<times> file_dev) option" where
  "acq200_bridge_openAB e p d =
     do { i1 \<leftarrow> alloc_AB e (fd_i2o d);
          let i2 = path_update p (\<lambda>q. q\<lparr>bufferMappings :=
                     [copyDmaBuf2IoMapping (bufferMappings q ! 0) (AB i1 ! 0),
                      copyDmaBuf2IoMapping (bufferMappings q ! 1) (AB i1 ! 1)]\<rparr>) i1;
          let (rc, d1) = onOpen (oe_clients_intr e) (d\<lparr>fd_i2o := i2\<rparr>);
          Some (0, d1) }"

section \<open>Open and release\<close>

definition down_busy :: "nat \<Rightarrow> file_dev \<Rightarrow> file_dev" where
  "down_busy p d = ext_update p (\<lambda>x. x\<lparr>has_AB_busy_mutex := True\<rparr>)
     (d\<lparr>buffer_AB_busy_mutex := buffer_AB_busy_mutex d - 1\<rparr>)"

definition up_busy :: "nat \<Rightarrow> file_dev \<Rightarrow> file_dev" where
  "up_busy p d = ext_update p (\<lambda>x. x\<lparr>has_AB_busy_mutex := False\<rparr>)
     (d\<lparr>buffer_AB_busy_mutex := buffer_AB_busy_mutex d + 1\<rparr>)"

text \<open>
  The device is the one the major number selects.  A failed open leaves the path behind: the kernel does not call
  release then, so that the path is never deleted.
\<close>

definition acq200_open :: "open_env \<Rightarrow> nat \<Rightarrow> u32 \<Rightarrow> file_dev \<Rightarrow> (int \<times> file_dev) option" where
  "acq200_open e p i_rdev d =
     (let d1 = acq200_createPath p i_rdev (oe_junk e) d;
          (fop, take_busy) = select_fops (MINOR i_rdev);
          d2 = ext_update p (\<lambda>x. x\<lparr>f_op := fop\<rparr>) d1 in
      if take_busy \<and> oe_busy_intr e then Some (- ERESTARTSYS, d2)
      else if take_busy \<and> buffer_AB_busy_mutex d2 \<le> 0 then None
      else
        let d3 = (if take_busy then down_busy p d2 else d2) in
        if fop = BridgeABFops then acq200_bridge_openAB e p d3 else Some (0, d3))"

text \<open>The end of every release; \<open>x\<close> is the mailbox exchange of the deferred action.\<close>

definition acq200_release :: "exchange \<Rightarrow> nat \<Rightarrow> file_dev \<Rightarrow> (int \<times> file_dev) option" where
  "acq200_release x p d =
     do { path \<leftarrow> opened d p;
          let d1 = (if has_AB_busy_mutex path then d\<lparr>buffer_AB_busy_mutex := buffer_AB_busy_mutex d + 1\<rparr> else d);
          let mbc = mbc_on_release path;
          let d2 = (if mbc_flags mbc AND MBC_FLAGS_ONRELEASE \<noteq> 0 then
                      let (rc, m, mbc1) = acq200_ioctl_wbr_mbox x (fd_mbox d1)
                            (mbc\<lparr>mbc_flags := mbc_flags mbc AND NOT MBC_FLAGS_ONRELEASE\<rparr>)
                      in d1\<lparr>fd_mbox := m\<rparr>
                    else d1);
          Some (0, d2\<lparr>fd_i2o := acq200_deletePath p (fd_i2o d2), opened := (opened d2)(p := None)\<rparr>) }"

text \<open>What the kernel and the card contribute to a release.\<close>

record release_env =
  re_wakes :: "wakes list"
  re_sleep :: "i2o_dev \<Rightarrow> i2o_dev"
  re_exchange :: exchange
  re_clients_intr :: bool

text \<open>The release of a bridge path: the message transport's part, then the common end.\<close>

definition bridge_release_file :: "release_env \<Rightarrow> nat \<Rightarrow> file_dev \<Rightarrow> (int \<times> file_dev) option" where
  "bridge_release_file e p d =
     do { (rc, i1) \<leftarrow> acq200_bridge_release p (re_wakes e) (re_sleep e) (fd_i2o d);
          acq200_release (re_exchange e) p (d\<lparr>fd_i2o := i1\<rparr>) }"

definition acq200_bridge_releaseAB :: "release_env \<Rightarrow> nat \<Rightarrow> file_dev \<Rightarrow> (int \<times> file_dev) option" where
  "acq200_bridge_releaseAB e p d =
     do { (rc, d1) \<leftarrow> onRelease (re_clients_intr e) d;
          bridge_release_file e p d1 }"

text \<open>Release dispatched by the operations the open installed.\<close>

definition close_file :: "release_env \<Rightarrow> nat \<Rightarrow> file_dev \<Rightarrow> (int \<times> file_dev) option" where
  "close_file e p d =
     do { path \<leftarrow> opened d p;
          (case f_op path of
             BridgeFops \<Rightarrow> bridge_release_file e p d
           | BridgeABFops \<Rightarrow> acq200_bridge_releaseAB e p d
           | _ \<Rightarrow> acq200_release (re_exchange e) p d) }"

section \<open>The A/B ioctl\<close>

record ab_env =
  ae_busy_intr :: bool
  ae_from_ok :: bool
  ae_to_ok :: bool
  ae_max_buf :: int
  ae_wakesA :: wakes
  ae_wakesB :: wakes
  ae_wait :: "i2o_dev \<Rightarrow> int \<times> i2o_dev"

text \<open>The call up to the copy from user space, which is where it may fail while it holds the semaphore.\<close>

definition ioctlAB_enter :: "ab_env \<Rightarrow> nat \<Rightarrow> file_dev \<Rightarrow> (int \<times> file_dev) option" where
  "ioctlAB_enter e p d =
     (if ae_busy_intr e then Some (- ERESTARTSYS, d)
      else if buffer_AB_busy_mutex d \<le> 0 then None
      else if ae_from_ok e then Some (0, down_busy p d) else Some (- EFAULT, down_busy p d))"

definition ioctlAB_leave :: "ab_env \<Rightarrow> nat \<Rightarrow> BufferAB_Ops \<Rightarrow> file_dev \<Rightarrow> (int \<times> BufferAB_Ops option \<times> file_dev) option" where
  "ioctlAB_leave e p ops d =
     do { (rc, ops1, i1) \<leftarrow> acq200_bufferABaction (ae_max_buf e) p ops (ae_wakesA e) (ae_wakesB e) (ae_wait e) (fd_i2o d);
          let d1 = up_busy p (d\<lparr>fd_i2o := i1\<rparr>);
          Some (if rc = 0 then if ae_to_ok e then (rc, Some ops1, d1) else (- EFAULT, None, d1) else (rc, None, d1)) }"

definition acq200_ioctlAB ::
  "ab_env \<Rightarrow> nat \<Rightarrow> BufferAB_Ops \<Rightarrow> file_dev \<Rightarrow> (int \<times> BufferAB_Ops option \<times> file_dev) option" where
  "acq200_ioctlAB e p ops d =
     do { (rc, d1) \<leftarrow> ioctlAB_enter e p d;
          if rc = 0 then ioctlAB_leave e p ops d1 else Some (rc, None, d1) }"

section \<open>Interleavings\<close>

text \<open>
  The state of a run: the device, the paths the kernel will release, and those inside the A/B
  ioctl.  Between the steps of one path the others move; the message transport does what it likes.
  The kernel releases a path once, after the last call on it has returned, and only if its open succeeded.
\<close>

datatype file_ev = Open open_env nat u32 | Close release_env nat | AbEnter ab_env nat
  | AbLeave ab_env nat BufferAB_Ops | Mbox bool bool mbox_action exchange nat MailboxControl | Transport "i2o_dev \<Rightarrow> i2o_dev"

inductive file_step :: "file_ev \<Rightarrow> file_dev \<times> nat set \<times> nat set \<Rightarrow> file_dev \<times> nat set \<times> nat set \<Rightarrow> bool" where
  open_ok: "opened d p = None \<Longrightarrow> acq200_open e p dev d = Some (0, d') \<Longrightarrow>
     file_step (Open e p dev) (d, live, ab) (d', insert p live, ab)"
| open_fails: "opened d p = None \<Longrightarrow> acq200_open e p dev d = Some (rc, d') \<Longrightarrow> rc \<noteq> 0 \<Longrightarrow>
     file_step (Open e p dev) (d, live, ab) (d', live, ab)"
| close: "p \<in> live \<Longrightarrow> p \<notin> ab \<Longrightarrow> close_file e p d = Some (rc, d') \<Longrightarrow>
     file_step (Close e p) (d, live, ab) (d', live - {p}, ab)"
| ab_enter: "p \<in> live \<Longrightarrow> opened d p = Some x \<Longrightarrow> f_op x = BridgeABFops \<Longrightarrow> ioctlAB_enter e p d = Some (rc, d') \<Longrightarrow>
     file_step (AbEnter e p) (d, live, ab) (d', live, if rc = 0 then insert p ab else ab)"
| ab_leave: "p \<in> ab \<Longrightarrow> ioctlAB_leave e p ops d = Some (rc, res, d') \<Longrightarrow>
     file_step (AbLeave e p ops) (d, live, ab) (d', live, ab - {p})"
| mbox: "p \<in> live \<Longrightarrow> opened d p = Some x \<Longrightarrow>
     acq200_mbox_ioctl from_ok to_ok act xch (fd_mbox d) (mbc_on_release x) ubc = (rc, m, rel, ubc') \<Longrightarrow>
     file_step (Mbox from_ok to_ok act xch p ubc) (d, live, ab)
       (ext_update p (\<lambda>y. y\<lparr>mbc_on_release := rel\<rparr>) (d\<lparr>fd_mbox := m\<rparr>), live, ab)"
| transport: "file_step (Transport f) (d, live, ab) (d\<lparr>fd_i2o := f (fd_i2o d)\<rparr>, live, ab)"

inductive_cases file_stepE: "file_step ev (d, live, ab) s'"

inductive file_run :: "file_ev list \<Rightarrow> file_dev \<times> nat set \<times> nat set \<Rightarrow> file_dev \<times> nat set \<times> nat set \<Rightarrow> bool" where
  run_nil: "file_run [] s s"
| run_snoc: "file_run evs s s' \<Longrightarrow> file_step ev s' s'' \<Longrightarrow> file_run (evs @ [ev]) s s''"

definition closed_dev :: "file_dev \<Rightarrow> bool" where
  "closed_dev d \<longleftrightarrow> buffer_AB_busy_mutex d = 1 \<and> clients_mutex d = 1 \<and> clients_count d = 0 \<and> \<not> i2o_backstop d \<and>
     opened d = (\<lambda>_. None)"

section \<open>Mutual exclusion by a semaphore\<close>

text \<open>
  A semaphore whose holders are known: taking it moves a unit from the count to the holders, giving it
  moves it back.  As long as the units are conserved it is a mutex.
\<close>

locale mutex =
  fixes count :: "'s \<Rightarrow> int" and holders :: "'s \<Rightarrow> nat set" and known :: "nat \<Rightarrow> 's \<Rightarrow> bool"
    and take :: "nat \<Rightarrow> 's \<Rightarrow> 's" and give :: "nat \<Rightarrow> 's \<Rightarrow> 's"
  assumes count_take: "count (take p s) = count s - 1"
    and holders_take: "known p s \<Longrightarrow> holders (take p s) = insert p (holders s)"
    and count_give: "count (give p s) = count s + 1"
    and holders_give: "holders (give p s) = holders s - {p}"
begin

definition conserved :: "'s \<Rightarrow> bool" where
  "conserved s \<longleftrightarrow> finite (holders s) \<and> 0 \<le> count s \<and> count s + int (card (holders s)) = 1"

lemma held_count:
  assumes "conserved s" "p \<in> holders s"
  shows "count s = 0 \<and> holders s = {p}"
proof -
  have f: "finite (holders s)" and c: "0 \<le> count s" "count s + int (card (holders s)) = 1"
    using assms(1) unfolding conserved_def by blast+
  have "0 < card (holders s)" using f assms(2) card_gt_0_iff by blast
  with c have "card (holders s) = 1" "count s = 0" by linarith+
  with assms(2) show ?thesis by (metis card_1_singletonE singletonD)
qed

lemma exclusive: "conserved s \<Longrightarrow> p \<in> holders s \<Longrightarrow> q \<in> holders s \<Longrightarrow> p = q"
  by (metis held_count singletonD)

lemma free_count: "conserved s \<Longrightarrow> 0 < count s \<Longrightarrow> holders s = {}"
  by (metis held_count equals0I less_irrefl)

lemma conserved_take:
  assumes "conserved s" "0 < count s" "known p s"
  shows "conserved (take p s)"
proof -
  have h: "holders s = {}" using assms(1,2) by (rule free_count)
  with assms(1) have "count s = 1" unfolding conserved_def by simp
  with h assms(3) show ?thesis unfolding conserved_def by (simp add: count_take holders_take)
qed

lemma conserved_give:
  assumes "conserved s" "p \<in> holders s"
  shows "conserved (give p s)"
proof -
  have "count s = 0" "holders s = {p}" using held_count [OF assms] by blast+
  then show ?thesis unfolding conserved_def by (simp add: count_give holders_give)
qed

lemma conserved_cong: "count t = count s \<Longrightarrow> holders t = holders s \<Longrightarrow> conserved t = conserved s"
  by (simp add: conserved_def)

end

definition busy_holders :: "file_dev \<Rightarrow> nat set" where
  "busy_holders d = {p. \<exists>x. opened d p = Some x \<and> has_AB_busy_mutex x}"

definition is_open :: "nat \<Rightarrow> file_dev \<Rightarrow> bool" where
  "is_open p d \<longleftrightarrow> opened d p \<noteq> None"

interpretation busy: mutex buffer_AB_busy_mutex busy_holders is_open down_busy up_busy
  by unfold_locales
    (auto simp: busy_holders_def down_busy_def up_busy_def ext_update_def is_open_def split: if_splits)

section \<open>Effects of the operations\<close>

lemma select_fops_busy:
  "fst (select_fops mn) = BridgeFops \<Longrightarrow> snd (select_fops mn)"
  "fst (select_fops mn) = BridgeABFops \<Longrightarrow> \<not> snd (select_fops mn)"
  by (auto simp: select_fops_def split: if_splits)

definition fresh_ext :: "fops \<Rightarrow> bool \<Rightarrow> path_ext" where
  "fresh_ext fop held = \<lparr>f_op = fop, has_AB_busy_mutex = held, mbc_on_release = new_mbc 0\<rparr>"

lemma onOpen_frame:
  "onOpen intr d = (rc, d') \<Longrightarrow>
     opened d' = opened d \<and> buffer_AB_busy_mutex d' = buffer_AB_busy_mutex d \<and> fd_mbox d' = fd_mbox d \<and> fd_i2o d' = fd_i2o d"
  by (auto simp: onOpen_def acq200_onFirstClientOpenAB_def Let_def split: if_splits)

lemma onRelease_frame:
  "onRelease intr d = Some (rc, d') \<Longrightarrow>
     opened d' = opened d \<and> buffer_AB_busy_mutex d' = buffer_AB_busy_mutex d \<and> fd_mbox d' = fd_mbox d \<and> fd_i2o d' = fd_i2o d"
  by (auto simp: onRelease_def acq200_onLastClientReleaseAB_def Let_def split: if_splits bind_splits)

text \<open>What an open leaves: the path with its operations, the semaphore taken where they need it.\<close>

lemma open_effect:
  assumes "acq200_open e p dev d = Some (rc, d')" "select_fops (MINOR dev) = (fop, tb)"
  obtains (interrupted) "rc = - ERESTARTSYS" "tb" "oe_busy_intr e" "opened d' = (opened d)(p \<mapsto> fresh_ext fop False)"
      "buffer_AB_busy_mutex d' = buffer_AB_busy_mutex d" "clients_mutex d' = clients_mutex d"
      "clients_count d' = clients_count d" "i2o_backstop d' = i2o_backstop d"
    | (taken) "rc = 0" "tb" "fop \<noteq> BridgeABFops" "0 < buffer_AB_busy_mutex d" "opened d' = (opened d)(p \<mapsto> fresh_ext fop True)"
      "buffer_AB_busy_mutex d' = buffer_AB_busy_mutex d - 1" "clients_mutex d' = clients_mutex d"
      "clients_count d' = clients_count d" "i2o_backstop d' = i2o_backstop d"
    | (plain) "rc = 0" "\<not> tb" "fop \<noteq> BridgeABFops" "fop \<noteq> BridgeFops" "opened d' = (opened d)(p \<mapsto> fresh_ext fop False)"
      "buffer_AB_busy_mutex d' = buffer_AB_busy_mutex d" "clients_mutex d' = clients_mutex d"
      "clients_count d' = clients_count d" "i2o_backstop d' = i2o_backstop d"
    | (ab) rc1 d1 where "rc = 0" "\<not> tb" "fop = BridgeABFops" "onOpen (oe_clients_intr e) d1 = (rc1, d')"
      "opened d1 = (opened d)(p \<mapsto> fresh_ext fop False)" "buffer_AB_busy_mutex d1 = buffer_AB_busy_mutex d"
      "clients_mutex d1 = clients_mutex d" "clients_count d1 = clients_count d" "i2o_backstop d1 = i2o_backstop d"
proof (cases "fop = BridgeABFops")
  case True
  with assms(2) have tb: "\<not> tb" using select_fops_busy(2) [of "MINOR dev"] by simp
  from assms True tb show ?thesis
    by (auto simp: acq200_open_def acq200_bridge_openAB_def acq200_createPath_def ext_update_def fresh_ext_def Let_def
        split: bind_splits prod.splits intro: ab)
next
  case False
  with assms have "fop = BridgeFops \<longrightarrow> tb" using select_fops_busy(1) [of "MINOR dev"] by auto
  with assms False show ?thesis
    by (auto simp: acq200_open_def acq200_createPath_def ext_update_def fresh_ext_def down_busy_def Let_def
        split: if_splits intro: interrupted taken plain)
qed

lemma open_AB_effect:
  assumes "acq200_open e p dev d = Some (rc, d')" "fst (select_fops (MINOR dev)) = BridgeABFops"
  shows "rc = 0" "opened d' = (opened d)(p \<mapsto> fresh_ext BridgeABFops False)"
    "clients_count d' = clients_count d + (if oe_clients_intr e then 0 else 1)"
    "i2o_backstop d' \<longleftrightarrow> i2o_backstop d \<or> (\<not> oe_clients_intr e \<and> clients_count d = 0)"
proof -
  have s: "select_fops (MINOR dev) = (BridgeABFops, False)"
    using assms(2) select_fops_busy(2) [OF assms(2)] by (metis prod.collapse)
  obtain rc1 d1 where o: "rc = 0" "onOpen (oe_clients_intr e) d1 = (rc1, d')"
    "opened d1 = (opened d)(p \<mapsto> fresh_ext BridgeABFops False)"
    "clients_count d1 = clients_count d" "i2o_backstop d1 = i2o_backstop d"
    by (rule open_effect [OF assms(1) s]) simp_all
  show "rc = 0" "opened d' = (opened d)(p \<mapsto> fresh_ext BridgeABFops False)" using o onOpen_frame by auto
  show "clients_count d' = clients_count d + (if oe_clients_intr e then 0 else 1)"
    "i2o_backstop d' \<longleftrightarrow> i2o_backstop d \<or> (\<not> oe_clients_intr e \<and> clients_count d = 0)"
    using o(2,4,5) by (auto simp: onOpen_def acq200_onFirstClientOpenAB_def Let_def split: if_splits)
qed

lemma release_effect:
  assumes "acq200_release x p d = Some (rc, d')"
  obtains path where "rc = 0" "opened d p = Some path" "opened d' = (opened d)(p := None)"
    "buffer_AB_busy_mutex d' = buffer_AB_busy_mutex d + (if has_AB_busy_mutex path then 1 else 0)"
    "clients_mutex d' = clients_mutex d" "clients_count d' = clients_count d" "i2o_backstop d' = i2o_backstop d"
  using assms
  by (auto simp: acq200_release_def Let_def split: bind_splits prod.splits if_splits intro!: that)

lemma close_effect:
  assumes "close_file e p d = Some (rc, d')" "opened d p = Some path"
  obtains d1 where "opened d' = (opened d)(p := None)"
    "buffer_AB_busy_mutex d' = buffer_AB_busy_mutex d + (if has_AB_busy_mutex path then 1 else 0)"
    "clients_mutex d' = clients_mutex d1" "clients_count d' = clients_count d1" "i2o_backstop d' = i2o_backstop d1"
    "if f_op path = BridgeABFops then \<exists>rc1. onRelease (re_clients_intr e) d = Some (rc1, d1) else d1 = d"
proof -
  have "\<exists>d1 i1. acq200_release (re_exchange e) p (d1\<lparr>fd_i2o := i1\<rparr>) = Some (rc, d') \<and>
      (if f_op path = BridgeABFops then \<exists>rc1. onRelease (re_clients_intr e) d = Some (rc1, d1) else d1 = d)"
  proof (cases "f_op path = BridgeFops \<or> f_op path = BridgeABFops")
    case True
    with assms show ?thesis
      by (auto simp: close_file_def bridge_release_file_def acq200_bridge_releaseAB_def split: bind_splits) blast+
  next
    case False
    with assms have "acq200_release (re_exchange e) p (d\<lparr>fd_i2o := fd_i2o d\<rparr>) = Some (rc, d')"
      by (auto simp: close_file_def split: fops.splits)
    with False show ?thesis by (intro exI [of _ d] exI [of _ "fd_i2o d"] conjI) auto
  qed
  then obtain d1 i1 where r: "acq200_release (re_exchange e) p (d1\<lparr>fd_i2o := i1\<rparr>) = Some (rc, d')"
    and c: "if f_op path = BridgeABFops then \<exists>rc1. onRelease (re_clients_intr e) d = Some (rc1, d1) else d1 = d"
    by blast
  have "opened d1 = opened d \<and> buffer_AB_busy_mutex d1 = buffer_AB_busy_mutex d"
    using c onRelease_frame by (auto split: if_splits)
  then have f: "opened d1 = opened d" "buffer_AB_busy_mutex d1 = buffer_AB_busy_mutex d" by blast+
  show thesis
  proof (rule release_effect [OF r])
    fix path'
    assume e: "opened (d1\<lparr>fd_i2o := i1\<rparr>) p = Some path'" "opened d' = (opened (d1\<lparr>fd_i2o := i1\<rparr>))(p := None)"
      "buffer_AB_busy_mutex d' = buffer_AB_busy_mutex (d1\<lparr>fd_i2o := i1\<rparr>) + (if has_AB_busy_mutex path' then 1 else 0)"
      "clients_mutex d' = clients_mutex (d1\<lparr>fd_i2o := i1\<rparr>)" "clients_count d' = clients_count (d1\<lparr>fd_i2o := i1\<rparr>)"
      "i2o_backstop d' = i2o_backstop (d1\<lparr>fd_i2o := i1\<rparr>)"
    from e(1) f(1) assms(2) have "path' = path" by simp
    with e f show thesis by (intro that [of d1, OF _ _ _ _ _ c]) simp_all
  qed
qed


lemma ab_enter_effect:
  assumes "ioctlAB_enter e p d = Some (rc, d')"
  shows "rc = - ERESTARTSYS \<and> d' = d \<or>
    0 < buffer_AB_busy_mutex d \<and> d' = down_busy p d \<and> (rc = 0 \<or> rc = - EFAULT)"
  using assms by (auto simp: ioctlAB_enter_def split: if_splits)

lemma ab_leave_effect:
  assumes "ioctlAB_leave e p ops d = Some (rc, res, d')"
  obtains i1 where "d' = up_busy p (d\<lparr>fd_i2o := i1\<rparr>)"
  using assms by (auto simp: ioctlAB_leave_def Let_def split: bind_splits if_splits)

section \<open>The invariant of the open paths\<close>

definition path_ok :: "nat set \<Rightarrow> nat \<Rightarrow> path_ext \<Rightarrow> bool" where
  "path_ok ab p x \<longleftrightarrow> (f_op x = BridgeFops \<longrightarrow> has_AB_busy_mutex x) \<and> (p \<in> ab \<longrightarrow> f_op x = BridgeABFops)"

definition path_inv :: "file_dev \<times> nat set \<times> nat set \<Rightarrow> bool" where
  "path_inv s = (case s of (d, live, ab) \<Rightarrow>
     busy.conserved d \<and> ab \<subseteq> busy_holders d \<and> busy_holders d \<subseteq> live \<and>
     (\<forall>p \<in> live. \<exists>x. opened d p = Some x \<and> path_ok ab p x))"

lemma path_invI:
  assumes "busy.conserved d" "ab \<subseteq> busy_holders d" "busy_holders d \<subseteq> live"
    "\<And>p. p \<in> live \<Longrightarrow> \<exists>x. opened d p = Some x \<and> path_ok ab p x"
  shows "path_inv (d, live, ab)"
  using assms by (auto simp: path_inv_def)

lemma path_invD:
  assumes "path_inv (d, live, ab)"
  shows "busy.conserved d" "ab \<subseteq> busy_holders d" "busy_holders d \<subseteq> live"
    "\<And>p. p \<in> live \<Longrightarrow> \<exists>x. opened d p = Some x \<and> path_ok ab p x"
  using assms by (auto simp: path_inv_def)

lemma holders_add:
  "opened d' = (opened d)(p \<mapsto> fresh_ext fop held) \<Longrightarrow> opened d p = None \<Longrightarrow>
   busy_holders d' = (if held then insert p (busy_holders d) else busy_holders d)"
  by (auto simp: busy_holders_def fresh_ext_def split: if_splits)

lemma holders_remove:
  "opened d' = (opened d)(p := None) \<Longrightarrow> busy_holders d' = busy_holders d - {p}"
  by (auto simp: busy_holders_def split: if_splits)

text \<open>A state in which a unit has moved from the count to a holder or back, whatever else changed.\<close>

lemma conserved_moved:
  assumes "busy.conserved d"
  shows "0 < buffer_AB_busy_mutex d \<Longrightarrow> buffer_AB_busy_mutex d' = buffer_AB_busy_mutex d - 1 \<Longrightarrow>
      busy_holders d' = insert p (busy_holders d) \<Longrightarrow> busy.conserved d'"
    and "p \<in> busy_holders d \<Longrightarrow> buffer_AB_busy_mutex d' = buffer_AB_busy_mutex d + 1 \<Longrightarrow>
      busy_holders d' = busy_holders d - {p} \<Longrightarrow> busy.conserved d'"
proof -
  assume a: "0 < buffer_AB_busy_mutex d" "buffer_AB_busy_mutex d' = buffer_AB_busy_mutex d - 1"
    "busy_holders d' = insert p (busy_holders d)"
  have "busy_holders d = {}" by (rule busy.free_count [OF assms a(1)])
  then show "busy.conserved d'" using assms a by (simp add: busy.conserved_def)
next
  assume a: "p \<in> busy_holders d" "buffer_AB_busy_mutex d' = buffer_AB_busy_mutex d + 1" "busy_holders d' = busy_holders d - {p}"
  have "buffer_AB_busy_mutex d = 0" "busy_holders d = {p}" using busy.held_count [OF assms a(1)] by blast+
  then show "busy.conserved d'" using a by (simp add: busy.conserved_def)
qed

lemma path_inv_open:
  assumes "path_inv (d, live, ab)" "opened d p = None" "acq200_open e p dev d = Some (rc, d')"
  shows "path_inv (d', if rc = 0 then insert p live else live, ab)"
proof -
  obtain fop tb where s: "select_fops (MINOR dev) = (fop, tb)" by (rule prod.exhaust)
  note i = path_invD [OF assms(1)]
  have fresh: "p \<notin> live" using i(4) [of p] assms(2) by auto
  have na: "p \<notin> ab" using i(2,3) fresh by blast
  have keep: "\<exists>x. opened d' q = Some x \<and> path_ok ab q x"
    if "opened d' = (opened d)(p \<mapsto> fresh_ext fop held)" "fop = BridgeFops \<longrightarrow> held" "q \<in> insert p live" for q held
    using that i(4) [of q] fresh na by (auto simp: fresh_ext_def path_ok_def)
  from assms(3) s show ?thesis
  proof (cases rule: open_effect)
    case interrupted
    have "busy_holders d' = busy_holders d" using holders_add [OF interrupted(4) assms(2)] by simp
    with interrupted i fresh show ?thesis
      by (intro path_invI) (auto simp: busy.conserved_def ERESTARTSYS_def)
  next
    case taken
    have "busy_holders d' = insert p (busy_holders d)" using holders_add [OF taken(5) assms(2)] by simp
    with taken i keep [OF taken(5)] show ?thesis
      by (intro path_invI) (auto intro: conserved_moved(1) [OF i(1)])
  next
    case plain
    have "busy_holders d' = busy_holders d" using holders_add [OF plain(5) assms(2)] by simp
    with plain i keep [OF plain(5)] show ?thesis
      by (intro path_invI) (auto simp: busy.conserved_def)
  next
    case (ab rc1 d1)
    have o: "opened d' = (opened d)(p \<mapsto> fresh_ext fop False)" "buffer_AB_busy_mutex d' = buffer_AB_busy_mutex d"
      using onOpen_frame [OF ab(4)] ab by auto
    have "busy_holders d' = busy_holders d" using holders_add [OF o(1) assms(2)] by simp
    with ab o i keep [OF o(1)] show ?thesis
      by (intro path_invI) (auto simp: busy.conserved_def)
  qed
qed

lemma path_inv_close:
  assumes "path_inv (d, live, ab)" "p \<in> live" "p \<notin> ab" "close_file e p d = Some (rc, d')"
  shows "path_inv (d', live - {p}, ab)"
proof -
  note i = path_invD [OF assms(1)]
  obtain path where path: "opened d p = Some path" using i(4) [OF assms(2)] by blast
  obtain d1 where c: "opened d' = (opened d)(p := None)"
    "buffer_AB_busy_mutex d' = buffer_AB_busy_mutex d + (if has_AB_busy_mutex path then 1 else 0)"
    by (rule close_effect [OF assms(4) path]) (rule that)
  have h: "busy_holders d' = busy_holders d - {p}" by (rule holders_remove [OF c(1)])
  have p: "p \<in> busy_holders d \<longleftrightarrow> has_AB_busy_mutex path" by (simp add: busy_holders_def path)
  have "busy.conserved d'"
  proof (cases "has_AB_busy_mutex path")
    case True
    with h p c(2) show ?thesis by (intro conserved_moved(2) [OF i(1)]) simp_all
  next
    case False
    with h p c(2) i(1) show ?thesis by (subst busy.conserved_cong [of d' d]) simp_all
  qed
  moreover have "\<exists>x. opened d' q = Some x \<and> path_ok ab q x" if "q \<in> live - {p}" for q
    using i(4) [of q] that c(1) by simp
  ultimately show ?thesis using h i(2,3) assms(3) by (intro path_invI) blast+
qed

lemma path_inv_enter:
  assumes "path_inv (d, live, ab)" "p \<in> live" "opened d p = Some x" "f_op x = BridgeABFops" "ioctlAB_enter e p d = Some (rc, d')"
  shows "path_inv (d', live, if rc = 0 then insert p ab else ab)"
proof -
  note i = path_invD [OF assms(1)]
  have h: "busy_holders (down_busy p d) = insert p (busy_holders d)"
    by (rule busy.holders_take) (simp add: is_open_def assms)
  consider "rc = - ERESTARTSYS" "d' = d" | "0 < buffer_AB_busy_mutex d" "d' = down_busy p d"
    using ab_enter_effect [OF assms(5)] by blast
  then show ?thesis
  proof cases
    case 1
    with assms(1) show ?thesis by (simp add: ERESTARTSYS_def)
  next
    case a: 2
    have "busy.conserved d'"
      unfolding a(2) by (rule busy.conserved_take [OF i(1) a(1)]) (simp add: is_open_def assms)
    moreover have "\<exists>x. opened d' q = Some x \<and> path_ok (insert p ab) q x \<and> path_ok ab q x" if "q \<in> live" for q
      using i(4) [OF that] assms(3,4) by (auto simp: a(2) down_busy_def ext_update_def path_ok_def)
    ultimately show ?thesis using i h a(2) assms(2) by (intro path_invI) (auto, blast+)
  qed
qed

lemma path_inv_leave:
  assumes "path_inv (d, live, ab)" "p \<in> ab" "ioctlAB_leave e p ops d = Some (rc, res, d')"
  shows "path_inv (d', live, ab - {p})"
proof -
  note i = path_invD [OF assms(1)]
  obtain i1 where d': "d' = up_busy p (d\<lparr>fd_i2o := i1\<rparr>)" by (rule ab_leave_effect [OF assms(3)])
  have h: "busy_holders d' = busy_holders d - {p}"
    unfolding d' busy.holders_give by (simp add: busy_holders_def)
  have only: "busy_holders d = {p}" using busy.held_count [OF i(1)] assms(2) i(2) by blast
  have "busy.conserved d'"
    by (rule conserved_moved(2) [OF i(1) _ _ h]) (use only d' busy.count_give in auto)
  moreover have "\<exists>x. opened d' q = Some x \<and> path_ok (ab - {p}) q x" if "q \<in> live" for q
    using i(4) [OF that] assms(2) by (auto simp: d' up_busy_def ext_update_def path_ok_def)
  ultimately show ?thesis using i h by (intro path_invI) auto
qed

lemma path_inv_step:
  assumes "file_step ev s s'" "path_inv s"
  shows "path_inv s'"
  using assms
proof (induction rule: file_step.induct)
  case (open_ok d p e dev d' live ab)
  then show ?case using path_inv_open [of d live ab p e dev 0 d'] by simp
next
  case (open_fails d p e dev rc d' live ab)
  then show ?case using path_inv_open [of d live ab p e dev rc d'] by simp
next
  case (close p live ab e d rc d')
  then show ?case by (intro path_inv_close)
next
  case (ab_enter p live d x e rc d' ab)
  then show ?case by (intro path_inv_enter)
next
  case (ab_leave p ab e ops d rc res d' live)
  then show ?case by (intro path_inv_leave)
next
  case (mbox p live d x from_ok to_ok act xch ubc rc m rel ubc' ab)
  note i = path_invD [OF mbox.prems]
  let ?d = "ext_update p (\<lambda>y. y\<lparr>mbc_on_release := rel\<rparr>) (d\<lparr>fd_mbox := m\<rparr>)"
  have "busy_holders ?d = busy_holders d" "buffer_AB_busy_mutex ?d = buffer_AB_busy_mutex d"
    by (auto simp: busy_holders_def ext_update_def)
  moreover have "\<exists>x. opened ?d q = Some x \<and> path_ok ab q x" if "q \<in> live" for q
    using i(4) [OF that] by (auto simp: ext_update_def path_ok_def)
  ultimately show ?case using i by (intro path_invI) (auto simp: busy.conserved_def)
next
  case (transport f d live ab)
  then show ?case by (auto simp: path_inv_def busy.conserved_def busy_holders_def)
qed

lemma path_inv_run:
  "file_run evs s s' \<Longrightarrow> path_inv s \<Longrightarrow> path_inv s'"
  by (induction rule: file_run.induct) (blast intro: path_inv_step)+

lemma path_inv_closed: "closed_dev d \<Longrightarrow> path_inv (d, {}, {})"
  by (simp add: path_inv_def closed_dev_def busy.conserved_def busy_holders_def)

section \<open>The count of A/B clients\<close>

definition ab_clients :: "file_dev \<Rightarrow> nat set \<Rightarrow> nat set" where
  "ab_clients d live = {p \<in> live. \<exists>x. opened d p = Some x \<and> f_op x = BridgeABFops}"

definition clients_ok :: "file_dev \<Rightarrow> nat set \<Rightarrow> bool" where
  "clients_ok d C \<longleftrightarrow> finite C \<and> clients_mutex d = 1 \<and> clients_count d = int (card C) \<and> (i2o_backstop d \<longleftrightarrow> C \<noteq> {})"

text \<open>No wait for the semaphore of the client count is interrupted.\<close>

fun uninterrupted :: "file_ev \<Rightarrow> bool" where
  "uninterrupted (Open e p dev) = (\<not> oe_clients_intr e)"
| "uninterrupted (Close e p) = (\<not> re_clients_intr e)"
| "uninterrupted ev = True"

lemma clients_ok_cong:
  "clients_mutex d' = clients_mutex d \<Longrightarrow> clients_count d' = clients_count d \<Longrightarrow> i2o_backstop d' = i2o_backstop d \<Longrightarrow>
   clients_ok d C \<Longrightarrow> clients_ok d' C"
  by (simp add: clients_ok_def)

lemma clients_ok_onOpen:
  assumes "clients_ok d C" "p \<notin> C" "onOpen False d = (rc, d')"
  shows "clients_ok d' (insert p C)"
  using assms by (auto simp: clients_ok_def onOpen_def acq200_onFirstClientOpenAB_def Let_def split: if_splits)

lemma clients_ok_onRelease:
  assumes "clients_ok d C" "p \<in> C"
  obtains rc d' where "onRelease False d = Some (rc, d')" "clients_ok d' (C - {p})"
proof -
  have f: "finite C" "clients_count d = int (card C)" "i2o_backstop d" "clients_mutex d = 1"
    using assms by (auto simp: clients_ok_def)
  have c: "card (C - {p}) = card C - 1" "0 < card C" using f(1) assms(2) by (auto simp: card_gt_0_iff)
  have one: "clients_count d = 1 \<longleftrightarrow> C - {p} = {}"
  proof
    assume "clients_count d = 1"
    then have "card (C - {p}) = 0" using c f(2) by simp
    then show "C - {p} = {}" using f(1) by simp
  next
    assume "C - {p} = {}"
    then have "card (C - {p}) = 0" by (simp only: card.empty)
    then show "clients_count d = 1" using c f(2) by simp
  qed
  show thesis
  proof (cases "clients_count d = 1")
    case True
    then show ?thesis using f c one
      by (intro that [of 0]) (auto simp: onRelease_def acq200_onLastClientReleaseAB_def clients_ok_def)
  next
    case False
    then show ?thesis using f c one
      by (intro that [of 0]) (auto simp: onRelease_def clients_ok_def)
  qed
qed

definition clients_inv :: "file_dev \<times> nat set \<times> nat set \<Rightarrow> bool" where
  "clients_inv s = (case s of (d, live, ab) \<Rightarrow>
     clients_ok d (ab_clients d live) \<and> (\<forall>p \<in> live. opened d p \<noteq> None))"

lemma ab_clients_add:
  "opened d' = (opened d)(p \<mapsto> fresh_ext fop held) \<Longrightarrow> p \<notin> live \<Longrightarrow>
   ab_clients d' live = ab_clients d live \<and>
   ab_clients d' (insert p live) = (if fop = BridgeABFops then insert p (ab_clients d live) else ab_clients d live)"
  by (auto simp: ab_clients_def fresh_ext_def)

lemma clients_inv_open:
  assumes "clients_inv (d, live, ab)" "opened d p = None" "acq200_open e p dev d = Some (rc, d')" "\<not> oe_clients_intr e"
  shows "clients_inv (d', if rc = 0 then insert p live else live, ab)"
proof -
  obtain fop tb where s: "select_fops (MINOR dev) = (fop, tb)" by (rule prod.exhaust)
  have i: "clients_ok d (ab_clients d live)" "\<And>q. q \<in> live \<Longrightarrow> opened d q \<noteq> None"
    using assms(1) by (auto simp: clients_inv_def)
  have fresh: "p \<notin> live" using i(2) assms(2) by blast
  have known: "\<forall>q \<in> insert p live. opened d' q \<noteq> None" if "opened d' = (opened d)(p \<mapsto> fresh_ext fop held)" for held
    using that i(2) by auto
  have other: ?thesis if "opened d' = (opened d)(p \<mapsto> fresh_ext fop held)" "fop \<noteq> BridgeABFops \<or> rc \<noteq> 0"
    "clients_mutex d' = clients_mutex d" "clients_count d' = clients_count d" "i2o_backstop d' = i2o_backstop d" for held
    using ab_clients_add [OF that(1) fresh] known [OF that(1)] clients_ok_cong [OF that(3-5) i(1)] that(2)
    by (auto simp: clients_inv_def)
  from assms(3) s show ?thesis
  proof (cases rule: open_effect)
    case interrupted
    then show ?thesis by (intro other) (auto simp: ERESTARTSYS_def)
  next
    case taken
    then show ?thesis by (intro other)
        simp_all
  next
    case plain
    then show ?thesis by (intro other) simp_all
  next
    case (ab rc1 d1)
    have o: "opened d' = (opened d)(p \<mapsto> fresh_ext fop False)" using onOpen_frame [OF ab(4)] ab by simp
    have "clients_ok d1 (ab_clients d live)" by (rule clients_ok_cong [OF _ _ _ i(1)]) (use ab in auto)
    moreover have "p \<notin> ab_clients d live" using fresh by (simp add: ab_clients_def)
    moreover have "onOpen False d1 = (rc1, d')" using ab(4) assms(4) by simp
    ultimately have "clients_ok d' (insert p (ab_clients d live))" by (rule clients_ok_onOpen)
    then show ?thesis
      using ab_clients_add [OF o fresh] known [OF o] ab by (auto simp: clients_inv_def)
  qed
qed

lemma clients_inv_close:
  assumes "clients_inv (d, live, ab)" "p \<in> live" "close_file e p d = Some (rc, d')" "\<not> re_clients_intr e"
  shows "clients_inv (d', live - {p}, ab)"
proof -
  have i: "clients_ok d (ab_clients d live)" "\<And>q. q \<in> live \<Longrightarrow> opened d q \<noteq> None"
    using assms(1) by (auto simp: clients_inv_def)
  obtain path where path: "opened d p = Some path" using i(2) assms(2) by blast
  obtain d1 where c: "opened d' = (opened d)(p := None)"
    "clients_mutex d' = clients_mutex d1" "clients_count d' = clients_count d1" "i2o_backstop d' = i2o_backstop d1"
    "if f_op path = BridgeABFops then \<exists>rc1. onRelease (re_clients_intr e) d = Some (rc1, d1) else d1 = d"
    by (rule close_effect [OF assms(3) path]) (rule that)
  have h: "ab_clients d' (live - {p}) = ab_clients d live - {p}" using c(1) by (auto simp: ab_clients_def)
  have "clients_ok d1 (ab_clients d live - {p})"
  proof (cases "f_op path = BridgeABFops")
    case True
    then have "p \<in> ab_clients d live" using path assms(2) by (simp add: ab_clients_def)
    then obtain rc2 d2 where r: "onRelease False d = Some (rc2, d2)" "clients_ok d2 (ab_clients d live - {p})"
      by (rule clients_ok_onRelease [OF i(1)]) (rule that)
    have "d2 = d1" using r(1) True c(5) assms(4) by simp
    with r(2) show ?thesis by simp
  next
    case False
    then have "p \<notin> ab_clients d live" using path by (simp add: ab_clients_def)
    with False c(5) i(1) show ?thesis by simp
  qed
  then have "clients_ok d' (ab_clients d live - {p})" by (rule clients_ok_cong [OF c(2-4)])
  then show ?thesis using h i(2) c(1) by (auto simp: clients_inv_def)
qed

lemma clients_inv_frame:
  assumes "clients_inv (d, live, ab)" "clients_mutex d' = clients_mutex d" "clients_count d' = clients_count d"
    "i2o_backstop d' = i2o_backstop d" "\<And>p. map_option f_op (opened d' p) = map_option f_op (opened d p)"
  shows "clients_inv (d', live, ab')"
proof -
  have "ab_clients d' live = ab_clients d live"
    using assms(5) by (auto simp: ab_clients_def map_option_eq_Some) (metis map_option_eq_Some)+
  moreover have "opened d' p \<noteq> None \<longleftrightarrow> opened d p \<noteq> None" for p
    using assms(5) [of p] by (metis option.map_disc_iff)
  ultimately show ?thesis using assms(1-4) by (auto simp: clients_inv_def clients_ok_def)
qed

lemma clients_inv_step:
  assumes "file_step ev s s'" "clients_inv s" "uninterrupted ev"
  shows "clients_inv s'"
  using assms
proof (induction rule: file_step.induct)
  case (open_ok d p e dev d' live ab)
  then show ?case using clients_inv_open [of d live ab p e dev 0 d'] by simp
next
  case (open_fails d p e dev rc d' live ab)
  then show ?case using clients_inv_open [of d live ab p e dev rc d'] by simp
next
  case (close p live ab e d rc d')
  then show ?case using clients_inv_close by simp
next
  case (ab_enter p live d x e rc d' ab)
  consider "d' = d" | "d' = down_busy p d" using ab_enter_effect [OF ab_enter.hyps(4)] by blast
  then show ?case
  proof cases
    case 1
    show ?thesis unfolding 1 by (rule clients_inv_frame [OF ab_enter.prems(1)]) simp_all
  next
    case 2
    show ?thesis unfolding 2
      by (rule clients_inv_frame [OF ab_enter.prems(1)])
        (simp_all add: down_busy_def ext_update_def option.map_comp comp_def)
  qed
next
  case (ab_leave p ab e ops d rc res d' live)
  obtain i1 where "d' = up_busy p (d\<lparr>fd_i2o := i1\<rparr>)" by (rule ab_leave_effect [OF ab_leave.hyps(2)])
  then show ?case
    by (intro clients_inv_frame [OF ab_leave.prems(1)]) (auto simp: up_busy_def ext_update_def option.map_comp comp_def)
next
  case (mbox p live d x from_ok to_ok act xch ubc rc m rel ubc' ab)
  show ?case
    by (intro clients_inv_frame [OF mbox.prems(1)]) (auto simp: ext_update_def option.map_comp comp_def)
next
  case (transport f d live ab)
  show ?case by (intro clients_inv_frame [OF transport.prems(1)]) simp_all
qed

lemma clients_inv_run:
  "file_run evs s s' \<Longrightarrow> clients_inv s \<Longrightarrow> list_all uninterrupted evs \<Longrightarrow> clients_inv s'"
  by (induction rule: file_run.induct) (auto intro: clients_inv_step)

lemma clients_inv_closed: "closed_dev d \<Longrightarrow> clients_inv (d, {}, {})"
  by (simp add: clients_inv_def closed_dev_def ab_clients_def clients_ok_def)

section \<open>Properties\<close>

definition exclusive_user :: "file_dev \<Rightarrow> nat set \<Rightarrow> nat set \<Rightarrow> nat \<Rightarrow> bool" where
  "exclusive_user d live ab p \<longleftrightarrow> p \<in> ab \<or> (p \<in> live \<and> (\<exists>x. opened d p = Some x \<and> f_op x = BridgeFops))"

definition idle_dev :: file_dev where
  "idle_dev = \<lparr>fd_i2o = example_dev\<lparr>AB := [\<lparr>order = 0, db_va = 0, db_pa = 0\<rparr>, \<lparr>order = 0, db_va = 0, db_pa = 0\<rparr>]\<rparr>,
     fd_mbox = quiet_dev, buffer_AB_busy_mutex = 1, clients_mutex = 1, clients_count = 0, i2o_backstop = False,
     opened = (\<lambda>_. None)\<rparr>"

definition calm_open :: open_env where
  "calm_open = \<lparr>oe_junk = scratch example_path, oe_busy_intr = False, oe_clients_intr = False,
     oe_pages_A = (\<lambda>n. if n = 2 then 0x10000 else 0), oe_pages_B = (\<lambda>n. if n = 1 then 0x30000 else 0),
     oe_dma_map = (\<lambda>va len. word_of_int va), oe_max_order = 12\<rparr>"

definition calm_release :: release_env where
  "calm_release = \<lparr>re_wakes = [], re_sleep = (\<lambda>d. d), re_exchange = acking_exchange, re_clients_intr = False\<rparr>"

lemma idle_closed: "closed_dev idle_dev"
  by (simp add: closed_dev_def idle_dev_def)

lemma single_open_run:
  assumes "acq200_open e p dev idle_dev = Some (0, d)"
  shows "file_run [Open e p dev] (idle_dev, {}, {}) (d, {p}, {})"
proof -
  have "file_step (Open e p dev) (idle_dev, {}, {}) (d, {p}, {})"
    using file_step.open_ok [OF _ assms] by (simp add: idle_dev_def)
  then show ?thesis using run_snoc [OF run_nil] by fastforce
qed

text \<open>C9. Exclusion.  In every interleaving of opens, releases, A/B ioctls, mailbox ioctls and message
traffic, failed and interrupted calls included, at most one path is using the card's message stream
exclusively: an open bridge path, or a path inside the A/B ioctl.  While there is one, the semaphore is taken,
so that every other such call waits.\<close>

theorem bridge_paths_exclusive:
  assumes "closed_dev d0" and "file_run evs (d0, {}, {}) (d, live, ab)"
    and "exclusive_user d live ab p" and "exclusive_user d live ab q"
  shows "p = q \<and> buffer_AB_busy_mutex d = 0"
proof -
  have i: "path_inv (d, live, ab)" by (rule path_inv_run [OF assms(2) path_inv_closed [OF assms(1)]])
  have "exclusive_user d live ab r \<Longrightarrow> r \<in> busy_holders d" for r
    using path_invD(2,4) [OF i] by (force simp: exclusive_user_def busy_holders_def path_ok_def)
  with assms(3,4) show ?thesis
    using busy.exclusive [OF path_invD(1) [OF i]] busy.held_count [OF path_invD(1) [OF i]] by blast
qed

lemma idle_open_bridge:
  obtains d where "acq200_open calm_open 7 3 idle_dev = Some (0, d)" "exclusive_user d {7} {} 7"
proof -
  have "select_fops (MINOR 3) = (BridgeFops, True)" by (simp add: select_fops_def minor_defs)
  then show thesis
    by (intro that) (auto simp: acq200_open_def calm_open_def idle_dev_def acq200_createPath_def ext_update_def
        down_busy_def exclusive_user_def Let_def)
qed

theorem bridge_paths_exclusive_witness:
  "\<exists>d. file_run [Open calm_open 7 3] (idle_dev, {}, {}) (d, {7}, {}) \<and> exclusive_user d {7} {} 7 \<and>
     (\<forall>p. exclusive_user d {7} {} p \<longrightarrow> p = 7) \<and> buffer_AB_busy_mutex d = 0"
proof -
  obtain d where o: "acq200_open calm_open 7 3 idle_dev = Some (0, d)" and x: "exclusive_user d {7} {} 7"
    by (rule idle_open_bridge)
  note r = single_open_run [OF o]
  from bridge_paths_exclusive [OF idle_closed r x] r x show ?thesis by blast
qed


lemma AB_minor: "select_fops (MINOR 124) = (BridgeABFops, False)"
  by (simp add: select_fops_def minor_defs)

definition calm_A :: DmaBuf where "calm_A = \<lparr>order = 2, db_va = 0x10000, db_pa = 0x10000\<rparr>"
definition calm_B :: DmaBuf where "calm_B = \<lparr>order = 1, db_va = 0x30000, db_pa = 0x30000\<rparr>"

lemma idle_alloc_AB:
  "alloc_AB (calm_open\<lparr>oe_clients_intr := c\<rparr>) ((fd_i2o idle_dev)\<lparr>paths := f\<rparr>) =
     Some ((fd_i2o idle_dev)\<lparr>paths := f, AB := [calm_A, calm_B]\<rparr>)"
proof -
  have "get_max_buf (oe_pages_A calm_open) b 12 = Some (b\<lparr>db_va := 0x10000, order := 2\<rparr>)"
    "get_max_buf (oe_pages_B calm_open) b 12 = Some (b\<lparr>db_va := 0x30000, order := 1\<rparr>)" for b
    by (simp_all add: calm_open_def numeral_eq_Suc)
  then show ?thesis
    by (simp add: alloc_AB_def alloc_max_buf_def calm_open_def idle_dev_def calm_A_def calm_B_def)
qed

lemma idle_open_AB:
  obtains d where "acq200_open (calm_open\<lparr>oe_clients_intr := c\<rparr>) 7 124 idle_dev = Some (0, d)"
    "opened d 7 = Some (fresh_ext BridgeABFops False)" "AB (fd_i2o d) = [calm_A, calm_B]"
proof -
  obtain d where d: "acq200_open (calm_open\<lparr>oe_clients_intr := c\<rparr>) 7 124 idle_dev = Some (0, d)"
    "AB (fd_i2o d) = [calm_A, calm_B]"
    using idle_closed by (cases c) (auto simp: closed_dev_def acq200_open_def AB_minor acq200_bridge_openAB_def acq200_createPath_def ext_update_def
        idle_alloc_AB onOpen_def acq200_onFirstClientOpenAB_def path_update_def Let_def)
  show thesis
    by (rule that [OF d(1) _ d(2)]) (simp add: open_AB_effect [OF d(1)] AB_minor)
qed


text \<open>An interrupted A/B open.  The open reports success although the path was not counted, so that its release
takes the count below zero and the next A/B client gets no backstop thread.\<close>

theorem interrupted_open_loses_backstop:
  assumes "closed_dev d" and "fst (select_fops (MINOR dev)) = BridgeABFops"
    and "acq200_open e p dev d = Some (rc, d1)" and "oe_clients_intr e"
    and "close_file r p d1 = Some (rc', d2)" and "\<not> re_clients_intr r"
    and "acq200_open e2 q dev d2 = Some (rc2, d3)" and "\<not> oe_clients_intr e2"
  shows "rc = 0 \<and> clients_count d2 = - 1 \<and> rc2 = 0 \<and> ab_clients d3 {q} = {q} \<and> \<not> i2o_backstop d3"
proof -
  note o1 = open_AB_effect [OF assms(3,2)] and o2 = open_AB_effect [OF assms(7,2)]
  have p: "opened d1 p = Some (fresh_ext BridgeABFops False)" using o1 by simp
  have c: "clients_count d1 = 0" "\<not> i2o_backstop d1" using o1 assms(1,4) by (simp_all add: closed_dev_def)
  have "clients_count d2 = - 1 \<and> \<not> i2o_backstop d2"
    by (rule close_effect [OF assms(5) p]) (use c assms(6) in \<open>auto simp: onRelease_def fresh_ext_def\<close>)
  with o1 o2 assms(8) show ?thesis by (auto simp: ab_clients_def fresh_ext_def)
qed

lemma idle_close_AB:
  assumes "acq200_open e 7 124 idle_dev = Some (0, d1)" "oe_clients_intr e"
  shows "\<exists>d2. close_file calm_release 7 d1 = Some (0, d2) \<and> AB (fd_i2o d2) = AB (fd_i2o d1)"
proof -
  have "clients_count d1 = 0 \<and> opened d1 7 = Some (fresh_ext BridgeABFops False) \<and> rch_list (fd_i2o d1) = [] \<and>
    (\<exists>q. paths (fd_i2o d1) 7 = Some q \<and> last_direction_hack q = 0)"
    using assms
    by (auto simp: acq200_open_def AB_minor acq200_bridge_openAB_def acq200_createPath_def ext_update_def alloc_AB_def
        onOpen_def path_update_def Let_def fresh_ext_def idle_dev_def example_dev_def split: bind_splits if_splits)
  then show ?thesis
    by (auto simp: close_file_def fresh_ext_def acq200_bridge_releaseAB_def onRelease_def calm_release_def bridge_release_file_def
        acq200_bridge_release_def acq200_bridge_release_generic_def LDH_OUTBOUND_def LDH_INBOUND_def
        cleanup_on_bridge_release.simps acq200_release_def acq200_deletePath_def new_mbc_def)
qed

lemma reopen_AB:
  assumes "db_va (AB (fd_i2o d) ! 0) \<noteq> 0"
  shows "\<exists>rc d'. acq200_open e p 124 d = Some (rc, d')"
  using assms
  by (auto simp: acq200_open_def AB_minor acq200_bridge_openAB_def alloc_AB_def acq200_createPath_def ext_update_def Let_def
      split: prod.split)

theorem interrupted_open_loses_backstop_witness:
  "\<exists>d1 d2 d3. acq200_open (calm_open\<lparr>oe_clients_intr := True\<rparr>) 7 124 idle_dev = Some (0, d1) \<and>
     close_file calm_release 7 d1 = Some (0, d2) \<and> acq200_open calm_open 8 124 d2 = Some (0, d3) \<and> \<not> i2o_backstop d3"
proof -
  obtain d1 where d1: "acq200_open (calm_open\<lparr>oe_clients_intr := True\<rparr>) 7 124 idle_dev = Some (0, d1)"
    "AB (fd_i2o d1) = [calm_A, calm_B]" by (rule idle_open_AB)
  obtain d2 where d2: "close_file calm_release 7 d1 = Some (0, d2)" "AB (fd_i2o d2) = [calm_A, calm_B]"
    using idle_close_AB [OF d1(1)] d1(2) by auto
  obtain rc d3 where d3: "acq200_open calm_open 8 124 d2 = Some (rc, d3)"
    using reopen_AB [of d2 calm_open 8] d2(2) by (auto simp: calm_A_def)
  have "fst (select_fops (MINOR 124)) = BridgeABFops" by (simp add: AB_minor)
  from interrupted_open_loses_backstop [OF idle_closed this d1(1) _ d2(1) _ d3] show ?thesis
    using d1 d2 d3 by (auto simp: calm_open_def calm_release_def)
qed

text \<open>C40. A failed copy from user space in the A/B ioctl returns while the semaphore is held: the next A/B
ioctl on any path that is not interrupted sleeps for ever, and so does every bridge open, until the first path is
released.\<close>

theorem ioctlAB_efault_keeps_busy:
  assumes "closed_dev d0" and "file_run evs (d0, {}, {}) (d, live, ab)"
    and "p \<in> live" and "acq200_ioctlAB e p ops d = Some (rc, res, d')" and "\<not> ae_from_ok e" and "\<not> ae_busy_intr e"
    and "\<not> ae_busy_intr e2" and "\<not> oe_busy_intr e3" and "fst (select_fops (MINOR dev)) = BridgeFops"
  shows "rc = - EFAULT \<and> acq200_ioctlAB e2 q ops2 d' = None \<and> acq200_open e3 q dev d' = None"
proof -
  have i: "path_inv (d, live, ab)" by (rule path_inv_run [OF assms(2) path_inv_closed [OF assms(1)]])
  have s: "select_fops (MINOR dev) = (BridgeFops, True)"
    using assms(9) select_fops_busy(1) [OF assms(9)] by (metis prod.collapse)
  have d': "rc = - EFAULT" "d' = down_busy p d" "0 < buffer_AB_busy_mutex d"
    using assms(4,5,6) by (auto simp: acq200_ioctlAB_def ioctlAB_enter_def EFAULT_def split: if_splits)
  have "p \<in> busy_holders d'" using path_invD(4) [OF i assms(3)] busy.holders_take [of p d] d'(2) by (auto simp: is_open_def)
  moreover have "busy.conserved d'"
    unfolding d'(2) by (rule busy.conserved_take [OF path_invD(1) [OF i] d'(3)])
      (use path_invD(4) [OF i assms(3)] in \<open>auto simp: is_open_def\<close>)
  ultimately have "buffer_AB_busy_mutex d' = 0" using busy.held_count by blast
  then show ?thesis using d'(1) assms(7,8)
    by (simp add: acq200_ioctlAB_def ioctlAB_enter_def acq200_open_def s acq200_createPath_def ext_update_def Let_def)
qed

text \<open>C24. The deferred mailbox action.  A control block marked for the release is not carried out by the ioctl: no
register is written then, and it reports success; the release of the path performs it, once, with the mark
removed, so that exactly its selected mailboxes are written, in descending order.\<close>

theorem deferred_action_on_release:
  assumes "mbc_flags ubc AND MBC_FLAGS_ONRELEASE \<noteq> 0" and "opened d p = Some x"
    and "acq200_mbox_ioctl True to_ok act xch (fd_mbox d) (mbc_on_release x) ubc = (rc, m, rel, ubc')"
    and "d1 = ext_update p (\<lambda>y. y\<lparr>mbc_on_release := rel\<rparr>) (d\<lparr>fd_mbox := m\<rparr>)"
    and "\<not> ex_down_interrupted xr"
  shows "rc = 0 \<and> fd_mbox d1 = fd_mbox d \<and>
    (\<exists>d2. acq200_release xr p d1 = Some (0, d2) \<and>
      mbox_writes (fd_mbox d2) = mbox_writes (fd_mbox d) @
        map (\<lambda>i. (i, mbxw ubc ! i)) (filter (\<lambda>i. bit (mbc_flags ubc) (16 + i)) [3, 2, 1, 0]) \<and>
      opened d2 p = None \<and> sem (fd_mbox d2) = sem (fd_mbox d))"
proof -
  let ?mbc = "ubc\<lparr>mbc_flags := mbc_flags ubc AND NOT MBC_FLAGS_ONRELEASE\<rparr>"
  have m: "rc = 0" "m = fd_mbox d" "rel = ubc" using assms(1,3) by (auto simp: acq200_mbox_ioctl_def)
  obtain wrc m2 mbc2 where w: "acq200_ioctl_wbr_mbox xr (fd_mbox d) ?mbc = (wrc, m2, mbc2)" by (rule prod_cases3)
  have d1: "opened d1 p = Some (x\<lparr>mbc_on_release := ubc\<rparr>)" "fd_mbox d1 = fd_mbox d"
    using assms(2,4) m by (simp_all add: ext_update_def)
  obtain d2 where d2: "acq200_release xr p d1 = Some (0, d2)" "fd_mbox d2 = m2" "opened d2 p = None"
    using assms(1) d1 w by (auto simp: acq200_release_def Let_def)
  have "bit (mbc_flags ?mbc) n \<longleftrightarrow> bit (mbc_flags ubc) n" if "n < 20" for n
  proof -
    have f: "MBC_FLAGS_ONRELEASE = push_bit 28 1" by (simp add: MBC_FLAGS_ONRELEASE_def)
    have "mbc_flags ?mbc = mbc_flags ubc AND NOT (push_bit 28 1)" unfolding f by simp
    then show ?thesis using that by (simp only: bit_and_iff bit_not_iff bit_box) auto
  qed
  then have "filter (\<lambda>i. bit (mbc_flags ?mbc) (16 + i)) [3, 2, 1, 0] = filter (\<lambda>i. bit (mbc_flags ubc) (16 + i)) [3, 2, 1, 0]"
    by (intro filter_cong) auto
  then have "mbox_writes m2 = mbox_writes (fd_mbox d) @
        map (\<lambda>i. (i, mbxw ubc ! i)) (filter (\<lambda>i. bit (mbc_flags ubc) (16 + i)) [3, 2, 1, 0])"
    unfolding wbr_cases(1) [OF w assms(5)] selected_writes_4 by simp
  moreover have "sem m2 = sem (fd_mbox d)" by (rule wbr_cases(2) [OF w assms(5)])
  ultimately show ?thesis using m d1 d2 by auto
qed

definition faulty_ab :: ab_env where
  "faulty_ab = \<lparr>ae_busy_intr = False, ae_from_ok = False, ae_to_ok = True, ae_max_buf = 0x300000, ae_wakesA = [], ae_wakesB = [],
     ae_wait = (\<lambda>d. (1, d))\<rparr>"

definition calm_ops :: BufferAB_Ops where
  "calm_ops = \<lparr>ci_recycle = 0, ci_timeout = 100, ds_full = 0, ds_sid = [0, 0], ds_len = [0, 0]\<rparr>"

theorem ioctlAB_efault_keeps_busy_witness:
  "\<exists>d d'. file_run [Open calm_open 7 124] (idle_dev, {}, {}) (d, {7}, {}) \<and>
     acq200_ioctlAB faulty_ab 7 calm_ops d = Some (- EFAULT, None, d') \<and> acq200_ioctlAB (faulty_ab\<lparr>ae_from_ok := True\<rparr>) 7 calm_ops d' = None \<and>
     acq200_open calm_open 8 3 d' = None"
proof -
  have e: "calm_open\<lparr>oe_clients_intr := False\<rparr> = calm_open" by (simp add: calm_open_def)
  obtain d where o: "acq200_open calm_open 7 124 idle_dev = Some (0, d)"
    using idle_open_AB [of False] unfolding e by metis
  note r = single_open_run [OF o]
  have "buffer_AB_busy_mutex d = 1"
    by (rule open_effect [OF o AB_minor]) (auto dest: onOpen_frame simp: idle_dev_def)
  then obtain d' where x: "acq200_ioctlAB faulty_ab 7 calm_ops d = Some (- EFAULT, None, d')"
    by (simp add: acq200_ioctlAB_def ioctlAB_enter_def faulty_ab_def EFAULT_def)
  have "fst (select_fops (MINOR 3)) = BridgeFops" by (simp add: select_fops_def minor_defs)
  from ioctlAB_efault_keeps_busy [OF idle_closed r _ x, of "faulty_ab\<lparr>ae_from_ok := True\<rparr>" calm_open 3 _ calm_ops] this r x
  show ?thesis by (auto simp: faulty_ab_def calm_open_def)
qed

theorem deferred_action_on_release_witness:
  "\<exists>d2. acq200_release acking_exchange 7 (ext_update 7 (\<lambda>y. y\<lparr>mbc_on_release := new_mbc 0x10110064\<rparr>)
      (idle_dev\<lparr>opened := [7 \<mapsto> fresh_ext MboxFops False]\<rparr>)) = Some (0, d2) \<and> mbox_writes (fd_mbox d2) = [(0, 0)]"
proof -
  let ?d = "idle_dev\<lparr>opened := [7 \<mapsto> fresh_ext MboxFops False]\<rparr>"
  have i: "acq200_mbox_ioctl True True WbrMbox acking_exchange (fd_mbox ?d) (mbc_on_release (fresh_ext MboxFops False)) (new_mbc 0x10110064)
    = (0, fd_mbox ?d, new_mbc 0x10110064, new_mbc 0x10110064)"
    by (simp add: acq200_mbox_ioctl_def new_mbc_def MBC_FLAGS_ONRELEASE_def)
  have "\<not> ex_down_interrupted acking_exchange" by (simp add: acking_exchange_def)
  from deferred_action_on_release [of "new_mbc 0x10110064" ?d 7, OF _ _ i refl this] show ?thesis
    by (auto simp: new_mbc_def MBC_FLAGS_ONRELEASE_def idle_dev_def quiet_dev_def)
qed

end
