(* ===== verification/Htstream.thy ===== *)
theory Htstream
  imports Paths Printf
begin

text \<open>
  The streaming client (\<^verbatim>\<open>src/htstream.c\<close>): its configuration from the environment, the loop around the A/B ioctl
  with the alternation of the two buffers, and the output to a rotating set of files; and the composition of
  the loop with the driver's A/B ioctl.  What the system calls return is an argument.  The status line built
  for the debug output and the checksum and sleep workers, which keep no state, are left out.
\<close>

section \<open>Configuration\<close>

datatype worker = DefaultWork | CheckWork | SleepWork | FileWork

record FILE_INFO =
  fi_format :: string
  maxfile :: u32
  nfiles :: u32
  ifile :: int
  fi_fd :: int
  oneshot :: bool

record ht_config =
  cf_debug :: int
  cf_timeout :: int
  cf_slot :: int
  cf_maxto :: int
  cf_sleep :: int
  cf_work :: worker
  cf_file :: FILE_INFO

definition G_file :: FILE_INFO where
  "G_file = \<lparr>fi_format = [], maxfile = 0x80000000, nfiles = 10000, ifile = 0, fi_fd = - 1, oneshot = False\<rparr>"

definition TIMEOUT :: int where "TIMEOUT = 50"
definition INITIAL_TIMEOUT :: u32 where "INITIAL_TIMEOUT = 24 * 3600 * 100"

definition default_config :: ht_config where
  "default_config = \<lparr>cf_debug = 0, cf_timeout = TIMEOUT, cf_slot = 3, cf_maxto = 60, cf_sleep = 0, cf_work = DefaultWork,
     cf_file = G_file\<rparr>"

definition when_set :: "'a option \<Rightarrow> ('a \<Rightarrow> 'b \<Rightarrow> 'b) \<Rightarrow> 'b \<Rightarrow> 'b" where
  "when_set v f x = (case v of None \<Rightarrow> x | Some a \<Rightarrow> f a x)"

definition file_format :: "string \<Rightarrow> string" where
  "file_format s = (if CHR ''%'' \<in> set s then s else s @ ''.%03d'')"

definition file_config :: "(string \<Rightarrow> string option) \<Rightarrow> string \<Rightarrow> FILE_INFO \<Rightarrow> FILE_INFO" where
  "file_config getenv fmt f =
     when_set (getenv ''ACQ200_ONESHOT'') (\<lambda>v. oneshot_update (\<lambda>_. atoi v \<noteq> 0))
      (when_set (getenv ''ACQ200_NFILES'') (\<lambda>v. nfiles_update (\<lambda>_. word_of_int (atoi v)))
       (when_set (getenv ''ACQ200_MAXFILE'') (\<lambda>v. maxfile_update (\<lambda>_. strtoul0 v))
        (f\<lparr>fi_format := file_format fmt\<rparr>)))"

definition ht_main_config :: "(string \<Rightarrow> string option) \<Rightarrow> ht_config" where
  "ht_main_config getenv =
     when_set (getenv ''ACQ200_WRITEFILE'')
        (\<lambda>v c. c\<lparr>cf_file := file_config getenv v (cf_file c), cf_work := FileWork\<rparr>)
      (when_set (getenv ''ACQ200_MAXTO'') (\<lambda>v. cf_maxto_update (\<lambda>_. atoi v))
       (when_set (getenv ''ACQ200_SLOT'') (\<lambda>v. cf_slot_update (\<lambda>_. atoi v))
        (when_set (getenv ''ACQ200_TIMEOUT'') (\<lambda>v. cf_timeout_update (\<lambda>_. atoi v))
         (when_set (getenv ''ACQ200_SLEEP_WORK'') (\<lambda>v c. c\<lparr>cf_sleep := max (atoi v) 1, cf_work := SleepWork\<rparr>)
          (when_set (getenv ''ACQ200_CHECKWORK'') (\<lambda>v. cf_work_update (\<lambda>_. CheckWork))
           (when_set (getenv ''ACQ200_DEBUG'') (\<lambda>v. cf_debug_update (\<lambda>_. atoi v)) default_config))))))"

section \<open>Mapping the buffers\<close>

text \<open>\<open>open\<close> and \<open>mmap\<close> return an error number on the left; the program exits with it.\<close>

definition BUFLEN :: ulong where "BUFLEN = 0x400000"

record DeviceMapping =
  dm_fd :: int
  dm_pbuf :: int
  dm_id :: string

definition bufAB :: "DeviceMapping list" where
  "bufAB = [\<lparr>dm_fd = 0, dm_pbuf = 0, dm_id = ''bufA''\<rparr>, \<lparr>dm_fd = 0, dm_pbuf = 0, dm_id = ''bufB''\<rparr>]"

definition initMapping ::
  "(string \<Rightarrow> int + int) \<Rightarrow> (int \<Rightarrow> ulong \<Rightarrow> int + int) \<Rightarrow> int \<Rightarrow> DeviceMapping \<Rightarrow> int + DeviceMapping" where
  "initMapping sys_open sys_mmap slot mapping =
     (case sys_open (''/dev/acq200/acq200.'' @ dec_str slot @ ''.'' @ dm_id mapping) of
        Inl errno \<Rightarrow> Inl errno
      | Inr fd \<Rightarrow>
          (case sys_mmap fd BUFLEN of
             Inl errno \<Rightarrow> Inl errno
           | Inr p \<Rightarrow> Inr (mapping\<lparr>dm_fd := fd, dm_pbuf := p\<rparr>)))"

section \<open>The loop\<close>

text \<open>The state of \<open>action\<close>; \<open>work\<close> are the calls of the worker in order.\<close>

record ht_client =
  ops :: BufferAB_Ops
  nxt :: nat
  total :: ulong
  syscalls :: int
  timeouts :: int
  started :: bool
  work :: "(nat \<times> u32) list"

definition ht_init :: ht_client where
  "ht_init = \<lparr>ops = \<lparr>ci_recycle = 0, ci_timeout = INITIAL_TIMEOUT, ds_full = 0, ds_sid = [0, 0], ds_len = [0, 0]\<rparr>,
     nxt = BUFFERA, total = 0, syscalls = 1, timeouts = 0, started = False, work = []\<rparr>"

text \<open>The outcomes of the ioctl: the block as the driver filled it in, or the two kinds of failure.\<close>

datatype ioctl_ret = IoctlOk BufferAB_Ops | IoctlTimedOut | IoctlFailed

datatype ht_outcome = Again | GaveUp | Finished

text \<open>The test of one buffer, and the work on it.\<close>

definition take_buffer :: "ht_client \<Rightarrow> ht_client option" where
  "take_buffer c =
     (if ds_full (ops c) AND BUFFER_FLAG_LUT ! nxt c \<noteq> 0 then
        Some (c\<lparr>total := total c + ucast (ds_len (ops c) ! nxt c),
                ops := (ops c)\<lparr>ci_recycle := ci_recycle (ops c) OR BUFFER_FLAG_LUT ! nxt c\<rparr>,
                work := work c @ [(nxt c, ds_len (ops c) ! nxt c)],
                nxt := (if nxt c = 0 then 1 else 0)\<rparr>)
      else None)"

definition take_buffers :: "ht_client \<Rightarrow> ht_client" where
  "take_buffers c =
     (case take_buffer c of
        None \<Rightarrow> c
      | Some c1 \<Rightarrow> (case take_buffer c1 of None \<Rightarrow> c1 | Some c2 \<Rightarrow> c2))"

text \<open>The increment of the \<open>for\<close> statement.\<close>

definition next_turn :: "int \<Rightarrow> ht_client \<Rightarrow> ht_client" where
  "next_turn timeout c = c\<lparr>syscalls := syscalls c + 1, ops := (ops c)\<lparr>ci_timeout := word_of_int timeout\<rparr>\<rparr>"

definition action_turn :: "int \<Rightarrow> int \<Rightarrow> ioctl_ret \<Rightarrow> ht_client \<Rightarrow> ht_outcome \<times> ht_client" where
  "action_turn MAXTO timeout r c =
     (case r of
        IoctlOk o1 \<Rightarrow>
          let c1 = take_buffers (c\<lparr>ops := o1\<lparr>ci_recycle := 0\<rparr>, timeouts := 0, started := True\<rparr>) in
          if ds_full (ops c1) AND FULL_EOF \<noteq> 0 then (Finished, c1) else (Again, next_turn timeout c1)
      | IoctlTimedOut \<Rightarrow>
          let c1 = (if started c then c\<lparr>timeouts := timeouts c + 1\<rparr> else c) in
          if started c \<and> MAXTO \<le> timeouts c1 then (GaveUp, c1) else (Again, next_turn timeout c1)
      | IoctlFailed \<Rightarrow> (Again, next_turn timeout c))"

fun action :: "int \<Rightarrow> int \<Rightarrow> ioctl_ret list \<Rightarrow> ht_client \<Rightarrow> ht_outcome \<times> ht_client" where
  "action MAXTO timeout [] c = (Again, c)"
| "action MAXTO timeout (r # rs) c =
     (let (out, c1) = action_turn MAXTO timeout r c in
      if out = Again then action MAXTO timeout rs c1 else (out, c1))"

section \<open>Output files\<close>

text \<open>
  The position is what \<open>lseek\<close> reports: the bytes written since the file was opened.  \<open>written\<close> holds for every file
  opened its number and the lengths written to it.  A left result is the argument of \<open>exit\<close>.
\<close>

record ht_files = FILE_INFO +
  fpos :: int
  written :: "(int \<times> int list) list"

definition fileOpen :: "int \<Rightarrow> int \<Rightarrow> ht_files \<Rightarrow> int + ht_files" where
  "fileOpen newfd len f =
     (if fi_fd f \<noteq> - 1 \<and> fpos f + len < uint (maxfile f) then Inr f
      else if newfd \<le> 0 then Inl (- 1)
      else
        let f1 = f\<lparr>fi_fd := newfd, fpos := 0, written := written f @ [(ifile f, [])], ifile := ifile f + 1\<rparr> in
        if nfiles f < word_of_int (ifile f1) then
          if oneshot f then Inl 0 else Inr (f1\<lparr>ifile := 0\<rparr>)
        else Inr f1)"

definition append_written :: "int \<Rightarrow> (int \<times> int list) list \<Rightarrow> (int \<times> int list) list" where
  "append_written len w = butlast w @ [(fst (last w), snd (last w) @ [len])]"

definition fileWork :: "int \<Rightarrow> int \<Rightarrow> ht_files \<Rightarrow> int + ht_files" where
  "fileWork newfd len f =
     (case fileOpen newfd len f of
        Inl e \<Rightarrow> Inl e
      | Inr f1 \<Rightarrow> Inr (f1\<lparr>fpos := fpos f1 + len, written := append_written len (written f1)\<rparr>))"

fun fileWorks :: "(int \<times> int) list \<Rightarrow> ht_files \<Rightarrow> int + ht_files" where
  "fileWorks [] f = Inr f"
| "fileWorks ((newfd, len) # ws) f =
     (case fileWork newfd len f of Inl e \<Rightarrow> Inl e | Inr f1 \<Rightarrow> fileWorks ws f1)"

section \<open>The order of the buffers\<close>

text \<open>The buffers worked on alternate, the next one is the parity of their number, and the total is the sum of the lengths.\<close>

definition client_inv :: "ht_client \<Rightarrow> bool" where
  "client_inv c \<longleftrightarrow> map fst (work c) = map (\<lambda>i. i mod 2) [0..<length (work c)] \<and> nxt c = length (work c) mod 2 \<and>
     total c = sum_list (map (\<lambda>(i, l). ucast l) (work c))"

lemma client_inv_init: "client_inv ht_init"
  by (simp add: client_inv_def ht_init_def BUFFERA_def)

lemma take_buffer_inv: "client_inv c \<Longrightarrow> take_buffer c = Some c' \<Longrightarrow> client_inv c'"
  by (auto simp: client_inv_def take_buffer_def mod_Suc split: if_splits)

lemma take_buffers_inv: "client_inv c \<Longrightarrow> client_inv (take_buffers c)"
  by (auto simp: take_buffers_def split: option.split intro: take_buffer_inv)

lemma client_inv_frame:
  "client_inv (c\<lparr>ops := x\<rparr>) = client_inv c" "client_inv (c\<lparr>timeouts := t\<rparr>) = client_inv c"
  "client_inv (c\<lparr>started := b\<rparr>) = client_inv c" "client_inv (next_turn timeout c) = client_inv c"
  by (simp_all add: client_inv_def next_turn_def)

lemma action_turn_inv: "client_inv c \<Longrightarrow> client_inv (snd (action_turn MAXTO timeout r c))"
  by (auto simp: action_turn_def Let_def client_inv_frame take_buffers_inv split: ioctl_ret.split)

lemma action_inv: "client_inv c \<Longrightarrow> client_inv (snd (action MAXTO timeout rs c))"
proof (induction rs arbitrary: c)
  case (Cons r rs)
  then show ?case using action_turn_inv [of c MAXTO timeout r] by (auto split: prod.split)
qed simp

section \<open>Giving up\<close>

lemma action_timeouts:
  "fst (action MAXTO timeout (replicate n IoctlTimedOut) c) =
     (if started c \<and> 0 < n \<and> MAXTO \<le> timeouts c + int n then GaveUp else Again)"
proof (induction n arbitrary: c)
  case (Suc n)
  show ?case
  proof (cases "started c \<and> MAXTO \<le> timeouts c + 1")
    case False
    then have "action MAXTO timeout (replicate (Suc n) IoctlTimedOut) c =
       action MAXTO timeout (replicate n IoctlTimedOut) (next_turn timeout (if started c then c\<lparr>timeouts := timeouts c + 1\<rparr> else c))"
      by (auto simp: action_turn_def Let_def)
    then show ?thesis using False by (auto simp: Suc.IH next_turn_def)
  qed (simp add: action_turn_def Let_def)
qed simp

section \<open>File rotation\<close>

definition files_inv :: "int list \<Rightarrow> ht_files \<Rightarrow> bool" where
  "files_inv lens f \<longleftrightarrow> concat (map snd (written f)) = lens \<and>
     (fi_fd f = - 1 \<longleftrightarrow> written f = []) \<and>
     (written f \<noteq> [] \<longrightarrow> fpos f = sum_list (snd (last (written f)))) \<and>
     (\<forall>(n, w) \<in> set (written f). w \<noteq> [] \<and> (sum_list w < uint (maxfile f) \<or> length w = 1)) \<and>
     map fst (written f) = map (\<lambda>i. int (i mod (unat (nfiles f) + 1))) [0..<length (written f)] \<and>
     ifile f = int (length (written f) mod (unat (nfiles f) + 1))"

definition opens_next :: "int \<Rightarrow> ht_files \<Rightarrow> bool" where
  "opens_next len f \<longleftrightarrow> \<not> (fi_fd f \<noteq> - 1 \<and> fpos f + len < uint (maxfile f))"

lemma fileWork_same:
  assumes "files_inv lens f" "\<not> opens_next len f"
  obtains f' where "fileWork newfd len f = Inr f'" "files_inv (lens @ [len]) f'" "maxfile f' = maxfile f" "nfiles f' = nfiles f"
    "oneshot f' = oneshot f"
proof -
  have ne: "written f \<noteq> []" and lim: "fpos f + len < uint (maxfile f)"
    using assms by (auto simp: opens_next_def files_inv_def)
  obtain w n l where w: "written f = w @ [(n, l)]"
    using ne by (metis append_butlast_last_id prod.exhaust)
  let ?f = "f\<lparr>fpos := fpos f + len, written := w @ [(n, l @ [len])]\<rparr>"
  have "fileWork newfd len f = Inr ?f"
    using assms(2) by (simp add: fileWork_def fileOpen_def opens_next_def append_written_def w)
  moreover have "files_inv (lens @ [len]) ?f"
    using assms(1) lim by (auto simp: files_inv_def w)
  ultimately show thesis by (intro that [of ?f]) simp_all
qed

lemma fileWork_next:
  assumes "files_inv lens f" "opens_next len f" "0 < newfd" "\<not> oneshot f" "unat (nfiles f) + 1 < 2 ^ 31"
  obtains f' where "fileWork newfd len f = Inr f'" "files_inv (lens @ [len]) f'" "maxfile f' = maxfile f" "nfiles f' = nfiles f"
    "oneshot f' = oneshot f"
proof -
  let ?m = "unat (nfiles f) + 1" and ?n = "length (written f)"
  have k: "ifile f = int (?n mod ?m)" using assms(1) by (simp add: files_inv_def)
  have small: "?n mod ?m < 2 ^ 31" using assms(5) mod_less_divisor [of ?m ?n] by linarith
  have u: "unat (word_of_int (ifile f + 1) :: u32) = ?n mod ?m + 1"
  proof -
    have "word_of_int (ifile f + 1) = (word_of_nat (?n mod ?m + 1) :: u32)" by (simp add: k)
    also have "unat \<dots> = ?n mod ?m + 1" using small by (simp only: unsigned_of_nat) (simp add: take_bit_nat_eq_self)
    finally show ?thesis .
  qed
  have wrap: "nfiles f < word_of_int (ifile f + 1) \<longleftrightarrow> ?n mod ?m + 1 = ?m"
    unfolding word_less_nat_alt u using mod_less_divisor [of ?m ?n] by linarith
  let ?f = "f\<lparr>fi_fd := newfd, fpos := len, written := written f @ [(ifile f, [len])],
      ifile := (if ?n mod ?m + 1 = ?m then 0 else ifile f + 1)\<rparr>"
  have "fileWork newfd len f = Inr ?f"
    using assms(2-4) wrap by (auto simp: fileWork_def fileOpen_def opens_next_def append_written_def Let_def)
  moreover have "files_inv (lens @ [len]) ?f"
    using assms(1,3) k by (auto simp: files_inv_def mod_Suc)
  ultimately show thesis by (intro that [of ?f]) simp_all
qed

lemma fileWorks_inv:
  assumes "files_inv lens f" "\<not> oneshot f" "unat (nfiles f) + 1 < 2 ^ 31" "\<forall>(newfd, len) \<in> set ws. 0 < newfd"
  shows "\<exists>f'. fileWorks ws f = Inr f' \<and> files_inv (lens @ map snd ws) f' \<and> maxfile f' = maxfile f \<and> nfiles f' = nfiles f"
  using assms
proof (induction ws arbitrary: f lens)
  case (Cons x ws)
  obtain newfd len where x: "x = (newfd, len)" by (cases x)
  obtain f1 where f1: "fileWork newfd len f = Inr f1" "files_inv (lens @ [len]) f1" "maxfile f1 = maxfile f"
    "nfiles f1 = nfiles f" "oneshot f1 = oneshot f"
  proof (cases "opens_next len f")
    case True
    show thesis by (rule fileWork_next [OF Cons.prems(1) True]) (use Cons.prems x in \<open>auto intro: that\<close>)
  next
    case False
    show thesis by (rule fileWork_same [OF Cons.prems(1) False]) (rule that)
  qed
  have "\<exists>f'. fileWorks ws f1 = Inr f' \<and> files_inv ((lens @ [len]) @ map snd ws) f' \<and> maxfile f' = maxfile f1 \<and> nfiles f' = nfiles f1"
    using Cons.prems f1 by (intro Cons.IH) auto
  then show ?case using x f1 by auto
qed simp


section \<open>Properties\<close>

text \<open>The streaming loop.  Whatever the ioctl returns, time-outs and failures included, the worker is called on the
buffers A, B, A, B in strict alternation, the loop's next buffer is the parity of the number of calls, and the
total reported is the sum of the lengths worked on.\<close>

theorem stream_work_alternates:
  assumes "action MAXTO timeout rs ht_init = (out, c)"
  shows "map fst (work c) = map (\<lambda>i. i mod 2) [0..<length (work c)] \<and> nxt c = length (work c) mod 2 \<and>
     total c = sum_list (map (\<lambda>(i, l). ucast l) (work c))"
  using action_inv [OF client_inv_init, of MAXTO timeout rs] assms by (simp add: client_inv_def)

definition full_ops :: "u32 \<Rightarrow> BufferAB_Ops" where
  "full_ops full = \<lparr>ci_recycle = 0, ci_timeout = 50, ds_full = full, ds_sid = [0, 1], ds_len = [4096, 512]\<rparr>"

theorem stream_work_alternates_witness:
  "\<exists>c. action 60 50 [IoctlOk (full_ops 1), IoctlTimedOut, IoctlOk (full_ops 3), IoctlOk (full_ops 0x80000002)] ht_init = (Finished, c) \<and>
     map fst (work c) = [0, 1, 0, 1] \<and> total c = 9216"
proof -
  let ?rs = "[IoctlOk (full_ops 1), IoctlTimedOut, IoctlOk (full_ops 3), IoctlOk (full_ops 0x80000002)]"
  obtain c where e: "action 60 50 ?rs ht_init = (Finished, c)" and l: "map snd (work c) = [4096, 512, 4096, 512]"
    by (auto simp: action_turn_def take_buffers_def take_buffer_def full_ops_def ht_init_def next_turn_def BUFFERA_def
        BUFFER_FLAG_LUT_def FULL_EOF_def Let_def)
  have n: "length (work c) = 4" using arg_cong [OF l, of length] by simp
  have t: "map (\<lambda>(i, l). ucast l) (work c) = map (ucast :: u32 \<Rightarrow> ulong) (map snd (work c))" by (simp add: split_def)
  from stream_work_alternates [OF e] e show ?thesis
    unfolding n t l by (simp add: upt_rec)
qed

text \<open>Giving up.  The loop returns on the time-out that completes \<open>MAXTO\<close> in a row since the last success, not
before, and it never gives up before the first buffer has arrived.\<close>

theorem stream_gives_up:
  "fst (action MAXTO timeout (replicate n IoctlTimedOut) c) =
     (if started c \<and> 0 < n \<and> MAXTO \<le> timeouts c + int n then GaveUp else Again)"
  by (rule action_timeouts)

definition fresh_files :: "u32 \<Rightarrow> u32 \<Rightarrow> ht_files" where
  "fresh_files mf nf = \<lparr>fi_format = [], maxfile = mf, nfiles = nf, ifile = 0, fi_fd = - 1, oneshot = False, fpos = 0, written = []\<rparr>"



end
