(* ===== verification/Stream_Client.thy ===== *)
theory Stream_Client
  imports Htstream
begin

text \<open>
  The streaming client of \<^verbatim>\<open>src/htstream.c\<close> on the A/B ioctl of \<^verbatim>\<open>src/acq200.c\<close> and \<^verbatim>\<open>src/acq200_i2o.c\<close>: one turn of the
  client's loop with the driver's call in the place of the system call, and runs of such turns with other
  activity in between.
\<close>

section \<open>The composed turn\<close>

text \<open>How the return value of the driver reaches the caller: the block is copied out on success, any
negative code becomes \<open>errno\<close>.\<close>

definition user_result :: "int \<Rightarrow> BufferAB_Ops option \<Rightarrow> ioctl_ret" where
  "user_result rc res =
     (case res of Some o1 \<Rightarrow> IoctlOk o1 | None \<Rightarrow> if rc = - ETIMEDOUT then IoctlTimedOut else IoctlFailed)"

definition stream_turn ::
  "int \<Rightarrow> int \<Rightarrow> nat \<Rightarrow> ab_env \<Rightarrow> ht_client \<Rightarrow> file_dev \<Rightarrow> (ht_outcome \<times> ht_client \<times> file_dev) option" where
  "stream_turn MAXTO timeout p e c d =
     do { (rc, res, d1) \<leftarrow> acq200_ioctlAB e p (ops c) d;
          let (out, c1) = action_turn MAXTO timeout (user_result rc res) c;
          Some (out, c1, d1) }"

text \<open>Before each call the device does something else.\<close>

fun client_run ::
  "int \<Rightarrow> int \<Rightarrow> nat \<Rightarrow> ((file_dev \<Rightarrow> file_dev) \<times> ab_env) list \<Rightarrow> ht_client \<Rightarrow> file_dev \<Rightarrow>
   (ht_outcome \<times> ht_client \<times> file_dev) option" where
  "client_run MAXTO timeout p [] c d = Some (Again, c, d)"
| "client_run MAXTO timeout p ((g, e) # es) c d =
     do { (out, c1, d1) \<leftarrow> stream_turn MAXTO timeout p e c (g d);
          if out = Again then client_run MAXTO timeout p es c1 d1 else Some (out, c1, d1) }"

section \<open>The buffer the driver fills next\<close>

definition path_next :: "i2o_dev \<Rightarrow> nat \<Rightarrow> nat option" where
  "path_next d p = map_option ab_next (paths d p)"

lemma recycleRch_paths: "i2o_recycleRch r d = Some d' \<Longrightarrow> paths d' = paths d"
  by (auto simp: i2o_recycleRch_def rchRemove_def rch_update_def Let_def
      split: bind_splits option.splits if_splits kbuf_ptr.splits)

lemma recycle_AB_next: "recycle_AB p b d = Some d' \<Longrightarrow> path_next d' p = path_next d p"
  by (auto simp: recycle_AB_def path_next_def path_update_def split: bind_splits option.splits dest!: recycleRch_paths)

lemma bufferABrecycle_next: "acq200_bufferABrecycle p o1 d = Some d' \<Longrightarrow> path_next d' p = path_next d p"
  by (auto simp: acq200_bufferABrecycle_def split: bind_splits if_splits dest!: recycle_AB_next)

lemma send_next: "acq200_sendI2O_kbuf p d = Some (rc, d') \<Longrightarrow> path_next d' p = path_next d p"
  by (auto simp: acq200_sendI2O_kbuf_def path_next_def path_update_def Let_def split: option.splits list.splits if_splits)

lemma queue_next: "acq200_bufferAB_queue mb p b ws d = Some d' \<Longrightarrow> path_next d' p = path_next d p"
  by (auto simp: acq200_bufferAB_queue_def alloc_rch_def Let_def split: bind_splits dest!: send_next)
    (auto simp: path_next_def rchAppend_def buildRch_def rch_update_def path_update_def build_hrd_message_def Let_def)

section \<open>Filling in the status\<close>

definition other :: "nat \<Rightarrow> nat" where "other b = (if b = 0 then 1 else 0)"

text \<open>What the driver reports of a buffer is what its completed request holds.\<close>

definition filled :: "i2o_dev \<Rightarrow> nat \<Rightarrow> nat \<times> u32 \<Rightarrow> bool" where
  "filled d p w = (\<exists>path r. paths d p = Some path \<and> rchAB path ! fst w = Some r \<and> valid (rchReturn (rchs d ! r)) \<noteq> 0 \<and>
     snd w = word_of_int (nbytes (rchReturn (rchs d ! r))))"

lemma fill_cases:
  assumes "fillDeviceStatus p o1 d = Some (got, o2, d')" "path_next d p = Some b" "b < 2" "length (ds_len o1) = 2"
  obtains (empty) "got = 0" "o2 = o1" "d' = d"
    | (full) l eof where "got = 1" "path_next d' p = Some (other b)" "filled d p (b, l)" "ds_len o2 = (ds_len o1)[b := l]"
      "ds_full o2 = ds_full o1 OR BUFFER_FLAG_LUT ! b OR (if eof then FULL_EOF else 0)" "ci_recycle o2 = ci_recycle o1"
      "\<And>w. filled d' p w = filled d p w"
proof -
  obtain path where path: "paths d p = Some path" "ab_next path = b" using assms(2) by (auto simp: path_next_def)
  obtain r where r: "rchAB path ! b = Some r" using assms(1) path by (auto simp: fillDeviceStatus_def Let_def split: bind_splits)
  show thesis
  proof (cases "valid (rchReturn (rchs d ! r)) = 0")
    case True
    then show thesis using assms(1) path r by (intro empty) (auto simp: fillDeviceStatus_def Let_def)
  next
    case False
    let ?l = "word_of_int (nbytes (rchReturn (rchs d ! r)))"
    have f: "filled d p (b, ?l)" using path r False by (auto simp: filled_def)
    have "filled d' p w = filled d p w" for w
      using assms(1) path r False by (auto simp: filled_def fillDeviceStatus_def path_update_def Let_def)
    with f show thesis using assms(1,3) path r False
      by (intro full [of ?l "nbytes (rchReturn (rchs d ! r)) = 0"])
        (auto simp: fillDeviceStatus_def path_next_def path_update_def other_def BUFFERA_def BUFFERB_def or.assoc Let_def)
  qed
qed

lemma flag_tests:
  assumes "b < 2"
  shows "((BUFFER_FLAG_LUT ! b OR (if e then FULL_EOF else 0)) AND BUFFER_FLAG_LUT ! b = 0) = False"
    "((BUFFER_FLAG_LUT ! b OR (if e then FULL_EOF else 0)) AND BUFFER_FLAG_LUT ! other b = 0) = True"
    "((BUFFER_FLAG_LUT ! b OR (if e then FULL_EOF else 0)) OR BUFFER_FLAG_LUT ! other b OR (if e' then FULL_EOF else 0))
       AND BUFFER_FLAG_LUT ! b \<noteq> 0"
    "((BUFFER_FLAG_LUT ! b OR (if e then FULL_EOF else 0)) OR BUFFER_FLAG_LUT ! other b OR (if e' then FULL_EOF else 0))
       AND BUFFER_FLAG_LUT ! other b \<noteq> 0"
proof -
  consider "b = 0" | "b = 1" using assms by linarith
  then show "((BUFFER_FLAG_LUT ! b OR (if e then FULL_EOF else 0)) AND BUFFER_FLAG_LUT ! b = 0) = False"
    "((BUFFER_FLAG_LUT ! b OR (if e then FULL_EOF else 0)) AND BUFFER_FLAG_LUT ! other b = 0) = True"
    "((BUFFER_FLAG_LUT ! b OR (if e then FULL_EOF else 0)) OR BUFFER_FLAG_LUT ! other b OR (if e' then FULL_EOF else 0))
       AND BUFFER_FLAG_LUT ! b \<noteq> 0"
    "((BUFFER_FLAG_LUT ! b OR (if e then FULL_EOF else 0)) OR BUFFER_FLAG_LUT ! other b OR (if e' then FULL_EOF else 0))
       AND BUFFER_FLAG_LUT ! other b \<noteq> 0"
    by (cases; simp add: BUFFER_FLAG_LUT_def FULL_EOF_def other_def)+
qed

lemma other_other: "b < 2 \<Longrightarrow> other (other b) = b" "other b < 2" "b < 2 \<Longrightarrow> other b \<noteq> b"
  by (auto simp: other_def)

text \<open>The client's walk over the reported buffers follows the driver's.\<close>

lemma take_buffer_full:
  assumes "ds_full (ops c) AND BUFFER_FLAG_LUT ! nxt c \<noteq> 0" "nxt c < 2"
  obtains c' where "take_buffer c = Some c'" "nxt c' = other (nxt c)" "work c' = work c @ [(nxt c, ds_len (ops c) ! nxt c)]"
    "ds_full (ops c') = ds_full (ops c)" "ds_len (ops c') = ds_len (ops c)"
  using assms by (auto simp: take_buffer_def other_def)

lemma take_buffer_empty: "ds_full (ops c) AND BUFFER_FLAG_LUT ! nxt c = 0 \<Longrightarrow> take_buffer c = None"
  by (simp add: take_buffer_def)

definition fill_both :: "nat \<Rightarrow> BufferAB_Ops \<Rightarrow> i2o_dev \<Rightarrow> (int \<times> BufferAB_Ops \<times> i2o_dev) option" where
  "fill_both p o1 d =
     do { (got, o2, d1) \<leftarrow> fillDeviceStatus p (o1\<lparr>ds_full := 0\<rparr>) d;
          (if got \<noteq> 0 then do { (got2, o3, d2) \<leftarrow> fillDeviceStatus p o2 d1; Some (0, o3, d2) } else Some (0, o2, d1)) }"

lemma take_buffers_one:
  assumes "nxt c < 2" "ds_full (ops c) = BUFFER_FLAG_LUT ! nxt c OR (if eof then FULL_EOF else 0)"
  shows "nxt (take_buffers c) = other (nxt c)" "work (take_buffers c) = work c @ [(nxt c, ds_len (ops c) ! nxt c)]"
proof -
  have "ds_full (ops c) AND BUFFER_FLAG_LUT ! nxt c \<noteq> 0"
    unfolding assms(2) using flag_tests(1) [OF assms(1)] by blast
  then obtain c1 where c1: "take_buffer c = Some c1" "nxt c1 = other (nxt c)" "work c1 = work c @ [(nxt c, ds_len (ops c) ! nxt c)]"
    "ds_full (ops c1) = ds_full (ops c)" by (rule take_buffer_full [OF _ assms(1)]) (rule that)
  have "take_buffer c1 = None"
    by (rule take_buffer_empty) (unfold c1 assms(2), use flag_tests(2) [OF assms(1)] in blast)
  then have "take_buffers c = c1" by (simp add: take_buffers_def c1)
  then show "nxt (take_buffers c) = other (nxt c)" "work (take_buffers c) = work c @ [(nxt c, ds_len (ops c) ! nxt c)]"
    using c1 by simp_all
qed

lemma take_buffers_two:
  assumes "nxt c < 2" and bits: "ds_full (ops c) = (BUFFER_FLAG_LUT ! nxt c OR (if eof then FULL_EOF else 0)) OR
      BUFFER_FLAG_LUT ! other (nxt c) OR (if eof2 then FULL_EOF else 0)"
  shows "nxt (take_buffers c) = nxt c"
    "work (take_buffers c) = work c @ [(nxt c, ds_len (ops c) ! nxt c), (other (nxt c), ds_len (ops c) ! other (nxt c))]"
proof -
  have "ds_full (ops c) AND BUFFER_FLAG_LUT ! nxt c \<noteq> 0"
    unfolding bits by (rule flag_tests(3) [OF assms(1)])
  then obtain c1 where c1: "take_buffer c = Some c1" "nxt c1 = other (nxt c)" "work c1 = work c @ [(nxt c, ds_len (ops c) ! nxt c)]"
    "ds_full (ops c1) = ds_full (ops c)" "ds_len (ops c1) = ds_len (ops c)" by (rule take_buffer_full [OF _ assms(1)]) (rule that)
  have "ds_full (ops c1) AND BUFFER_FLAG_LUT ! nxt c1 \<noteq> 0"
    unfolding c1 bits by (rule flag_tests(4) [OF assms(1)])
  then obtain c2 where c2: "take_buffer c1 = Some c2" "nxt c2 = other (nxt c1)" "work c2 = work c1 @ [(nxt c1, ds_len (ops c1) ! nxt c1)]"
    using take_buffer_full other_other(2) c1(2) by metis
  have "take_buffers c = c2" by (simp add: take_buffers_def c1 c2)
  then show "nxt (take_buffers c) = nxt c"
    "work (take_buffers c) = work c @ [(nxt c, ds_len (ops c) ! nxt c), (other (nxt c), ds_len (ops c) ! other (nxt c))]"
    using c1 c2 other_other(1) [OF assms(1)] by simp_all
qed

lemma fill_both_in_step:
  assumes "fill_both p o1 d = Some (rc, o2, d')" "path_next d p = Some (nxt c)" "nxt c < 2" "length (ds_len o1) = 2"
    "ds_full (ops c) = ds_full o2" "ds_len (ops c) = ds_len o2"
  shows "path_next d' p = Some (nxt (take_buffers c)) \<and> nxt (take_buffers c) < 2 \<and> length (ds_len o2) = 2 \<and>
    (\<exists>ws. work (take_buffers c) = work c @ ws \<and> (\<forall>w \<in> set ws. filled d' p w))"
proof -
  let ?b = "nxt c"
  obtain got oa da where fa: "fillDeviceStatus p (o1\<lparr>ds_full := 0\<rparr>) d = Some (got, oa, da)"
    and rest: "if got \<noteq> 0 then \<exists>got2. fillDeviceStatus p oa da = Some (got2, o2, d') else o2 = oa \<and> d' = da"
    using assms(1) by (auto simp: fill_both_def split: bind_splits if_splits)
  have l1: "length (ds_len (o1\<lparr>ds_full := 0\<rparr>)) = 2" using assms(4) by simp
  from fa assms(2,3) l1 show ?thesis
  proof (cases rule: fill_cases)
    case empty
    then have "take_buffers c = c"
      using rest assms(5) by (simp add: take_buffers_def take_buffer_empty)
    then show ?thesis using empty rest assms by auto
  next
    case (full l eof)
    then obtain got2 where fb: "fillDeviceStatus p oa da = Some (got2, o2, d')" using rest by auto
    have len: "length (ds_len oa) = 2" using full(4) assms(4) by simp
    have fulla: "ds_full oa = BUFFER_FLAG_LUT ! ?b OR (if eof then FULL_EOF else 0)" using full(5) by simp
    have la: "ds_len oa ! ?b = l" using full(4) assms(3,4) by simp
    from fb full(2) other_other(2) len show ?thesis
    proof (cases rule: fill_cases)
      case empty
      have "ds_full (ops c) = BUFFER_FLAG_LUT ! ?b OR (if eof then FULL_EOF else 0)"
        unfolding assms(5) empty(2) fulla ..
      note t = take_buffers_one [OF assms(3) this]
      show ?thesis unfolding t using full empty assms(6) la len other_other(2) by auto
    next
      case (full l2 eof2)
      note full2 = full
      have "ds_full (ops c) = (BUFFER_FLAG_LUT ! ?b OR (if eof then FULL_EOF else 0)) OR BUFFER_FLAG_LUT ! other ?b OR
          (if eof2 then FULL_EOF else 0)"
        unfolding assms(5) full2(5) fulla by simp
      note t = take_buffers_two [OF assms(3) this]
      have v: "ds_len (ops c) ! ?b = l" "ds_len (ops c) ! other ?b = l2"
        using assms(6) full2(4) la len other_other(1,3) [OF assms(3)] other_other(2) [of ?b] by auto
      show ?thesis
        unfolding t using \<open>filled d p (?b, l)\<close> \<open>\<And>w. filled da p w = filled d p w\<close> full2 v len other_other assms(3) by auto
    qed
  qed
qed

section \<open>Turns and runs\<close>

lemma bufferABaction_cases:
  assumes "acq200_bufferABaction mb p o1 wsA wsB wait d = Some (rc, o2, d')"
    and "\<And>x. path_next (snd (wait x)) p = path_next x p"
  obtains (failed) "rc \<noteq> 0" "path_next d' p = path_next d p"
    | (ok) d4 where "path_next d4 p = path_next d p" "fill_both p o1 d4 = Some (rc, o2, d')" "rc = 0"
proof -
  have act: "acq200_bufferABaction mb p o1 wsA wsB wait d =
     do { d1 \<leftarrow> acq200_bufferABrecycle p o1 d;
          path1 \<leftarrow> paths d1 p;
          d2 \<leftarrow> (if rchAB path1 ! BUFFERA = None then acq200_bufferAB_queue mb p BUFFERA wsA d1 else Some d1);
          path2 \<leftarrow> paths d2 p;
          d3 \<leftarrow> (if rchAB path2 ! BUFFERB = None then acq200_bufferAB_queue mb p BUFFERB wsB d2 else Some d2);
          (let (rc, d4) = wait d3 in
           if rc = 0 then Some (- ETIMEDOUT, o1, d4) else if rc < 0 then Some (rc, o1, d4) else fill_both p o1 d4) }"
    unfolding acq200_bufferABaction_def fill_both_def by simp
  obtain d1 d2 d3 and path1 path2 :: Acq200Path where s: "acq200_bufferABrecycle p o1 d = Some d1"
    "(if rchAB path1 ! BUFFERA = None then acq200_bufferAB_queue mb p BUFFERA wsA d1 else Some d1) = Some d2"
    "(if rchAB path2 ! BUFFERB = None then acq200_bufferAB_queue mb p BUFFERB wsB d2 else Some d2) = Some d3"
    and r: "(let (rc, d4) = wait d3 in
          if rc = 0 then Some (- ETIMEDOUT, o1, d4)
          else if rc < 0 then Some (rc, o1, d4)
          else fill_both p o1 d4) = Some (rc, o2, d')"
    using assms(1) unfolding act bind_eq_Some_conv by (elim exE conjE) (rule that; assumption)
  have "path_next d1 p = path_next d p" by (rule bufferABrecycle_next [OF s(1)])
  moreover have "path_next d2 p = path_next d1 p" using s(2) queue_next by (auto split: if_splits)
  moreover have "path_next d3 p = path_next d2 p" using s(3) queue_next by (auto split: if_splits)
  moreover obtain wrc d4 where w: "wait d3 = (wrc, d4)" by (rule prod.exhaust)
  ultimately have n: "path_next d4 p = path_next d p" using assms(2) [of d3] by simp
  consider "rc = - ETIMEDOUT" "d' = d4" | "rc < 0" "d' = d4" | "fill_both p o1 d4 = Some (rc, o2, d')"
    using r w by (auto split: if_splits)
  then show thesis
  proof cases
    case 3
    moreover have "rc = 0" using 3 by (auto simp: fill_both_def split: bind_splits if_splits)
    ultimately show thesis by (intro ok [OF n])
  qed (use n failed in \<open>auto simp: ETIMEDOUT_def\<close>)
qed

text \<open>Client and driver agree on the buffer that comes next.\<close>

definition in_step :: "nat \<Rightarrow> ht_client \<Rightarrow> file_dev \<Rightarrow> bool" where
  "in_step p c d \<longleftrightarrow> path_next (fd_i2o d) p = Some (nxt c) \<and> nxt c < 2 \<and> length (ds_len (ops c)) = 2"

text \<open>The hypotheses on a turn: the answer can be copied out, and nobody else changes which buffer comes next.\<close>

definition calm_turn :: "nat \<Rightarrow> ab_env \<Rightarrow> bool" where
  "calm_turn p e \<longleftrightarrow> ae_to_ok e \<and> (\<forall>x. path_next (snd (ae_wait e x)) p = path_next x p)"

lemma stream_turn_in_step:
  assumes "stream_turn MAXTO timeout p e c d = Some (out, c', d')" "in_step p c d" "calm_turn p e"
  shows "in_step p c' d' \<and> (\<exists>ws. work c' = work c @ ws \<and> (\<forall>w \<in> set ws. filled (fd_i2o d') p w))"
proof -
  obtain rc res where io: "acq200_ioctlAB e p (ops c) d = Some (rc, res, d')"
    and a: "action_turn MAXTO timeout (user_result rc res) c = (out, c')"
    using assms(1) by (auto simp: stream_turn_def Let_def split: bind_splits prod.splits)
  have fail: ?thesis if "res = None" "path_next (fd_i2o d') p = path_next (fd_i2o d) p"
    using a that assms(2) by (auto simp: action_turn_def user_result_def in_step_def next_turn_def Let_def split: if_splits)
  have busy: "fd_i2o (down_busy p d) = fd_i2o d" "fd_i2o (up_busy p (d1\<lparr>fd_i2o := i\<rparr>)) = i" for d1 i
    by (simp_all add: down_busy_def up_busy_def ext_update_def)
  obtain rc1 d1 where en: "ioctlAB_enter e p d = Some (rc1, d1)"
    and lv: "if rc1 = 0 then ioctlAB_leave e p (ops c) d1 = Some (rc, res, d') else rc = rc1 \<and> res = None \<and> d' = d1"
    using io by (auto simp: acq200_ioctlAB_def split: bind_splits if_splits)
  have d1: "fd_i2o d1 = fd_i2o d" using ab_enter_effect [OF en] busy(1) by auto
  show ?thesis
  proof (cases "rc1 = 0")
    case False
    then show ?thesis using lv d1 fail by simp
  next
    case True
    then obtain arc o2 i where act: "acq200_bufferABaction (ae_max_buf e) p (ops c) (ae_wakesA e) (ae_wakesB e) (ae_wait e) (fd_i2o d1)
        = Some (arc, o2, i)" and d': "fd_i2o d' = i" and res: "res = (if arc = 0 then Some o2 else None)"
      using lv assms(3) busy(2) by (auto simp: ioctlAB_leave_def calm_turn_def Let_def split: bind_splits if_splits)
    have wait: "path_next (snd (ae_wait e x)) p = path_next x p" for x using assms(3) by (simp add: calm_turn_def)
    from act wait show ?thesis
    proof (cases rule: bufferABaction_cases)
      case failed
      then show ?thesis using fail res d' d1 by simp
    next
      case (ok d4)
      let ?c = "c\<lparr>ops := o2\<lparr>ci_recycle := 0\<rparr>, timeouts := 0, started := True\<rparr>"
      have "path_next i p = Some (nxt (take_buffers ?c)) \<and> nxt (take_buffers ?c) < 2 \<and> length (ds_len o2) = 2 \<and>
        (\<exists>ws. work (take_buffers ?c) = work ?c @ ws \<and> (\<forall>w \<in> set ws. filled i p w))"
        using ok assms(2) d1 by (intro fill_both_in_step) (auto simp: in_step_def)
      moreover have "c' = take_buffers ?c \<or> c' = next_turn timeout (take_buffers ?c)"
        using a res ok(3) by (auto simp: action_turn_def user_result_def Let_def split: if_splits)
      moreover have "ds_len (ops (take_buffers ?c)) = ds_len o2"
        by (auto simp: take_buffers_def take_buffer_def split: option.split if_splits)
      ultimately show ?thesis using d' by (auto simp: in_step_def next_turn_def)
    qed
  qed
qed

lemma stream_run_in_step:
  assumes "client_run MAXTO timeout p es c d = Some (out, c', d')" "in_step p c d"
    "\<forall>(g, e) \<in> set es. calm_turn p e \<and> (\<forall>x. path_next (fd_i2o (g x)) p = path_next (fd_i2o x) p)"
  shows "in_step p c' d'"
  using assms
proof (induction es arbitrary: c d)
  case (Cons ge es)
  obtain g e where ge: "ge = (g, e)" by (cases ge)
  obtain o1 c1 d1 where t: "stream_turn MAXTO timeout p e c (g d) = Some (o1, c1, d1)"
    and r: "if o1 = Again then client_run MAXTO timeout p es c1 d1 = Some (out, c', d') else c' = c1 \<and> d' = d1"
    using Cons.prems(1) ge by (auto split: bind_splits if_splits)
  have "in_step p c (g d)" using Cons.prems(2,3) ge by (auto simp: in_step_def)
  then have "in_step p c1 d1" using stream_turn_in_step [OF t] Cons.prems(3) ge by auto
  then show ?case using r Cons.IH [of c1 d1] Cons.prems(3) by (auto split: if_splits)
qed simp

lemma stream_run_client_inv:
  "client_run MAXTO timeout p es c d = Some (out, c', d') \<Longrightarrow> client_inv c \<Longrightarrow> client_inv c'"
proof (induction es arbitrary: c d)
  case (Cons ge es)
  obtain g e where ge: "ge = (g, e)" by (cases ge)
  obtain o1 c1 d1 where t: "stream_turn MAXTO timeout p e c (g d) = Some (o1, c1, d1)"
    and r: "if o1 = Again then client_run MAXTO timeout p es c1 d1 = Some (out, c', d') else c' = c1"
    using Cons.prems(1) ge by (auto split: bind_splits if_splits)
  have "client_inv c1"
    using t action_turn_inv [OF Cons.prems(2)] by (auto simp: stream_turn_def Let_def split: bind_splits prod.splits) (metis snd_conv)
  then show ?case using r Cons.IH by (auto split: if_splits)
qed simp

section \<open>Properties\<close>

text \<open>C12. Client and driver in step.  From the first call on a fresh path, in every run of the client's loop on the driver,
with time-outs, interrupted and failed calls and any other activity in between that leaves the path's alternation alone,
the buffer the client expects next is the buffer the driver fills next, and it is the parity of the buffers
worked on so far.\<close>

theorem stream_client_in_step:
  assumes "path_next (fd_i2o d) p = Some BUFFERA"
    and "\<forall>(g, e) \<in> set es. calm_turn p e \<and> (\<forall>x. path_next (fd_i2o (g x)) p = path_next (fd_i2o x) p)"
    and "client_run MAXTO timeout p es ht_init d = Some (out, c, d')"
  shows "path_next (fd_i2o d') p = Some (nxt c) \<and> nxt c = length (work c) mod 2"
proof -
  have "in_step p ht_init d" using assms(1) by (simp add: in_step_def ht_init_def BUFFERA_def)
  from stream_run_in_step [OF assms(3) this assms(2)] stream_run_client_inv [OF assms(3) client_inv_init]
  show ?thesis by (simp add: in_step_def client_inv_def)
qed

text \<open>A path with both requests answered.\<close>

definition answered :: "int \<Rightarrow> ReturnCommandHandler" where
  "answered n = zeroed_rch\<lparr>rch_path := Some 7, rch_device := True, rchReturn := (rchReturn zeroed_rch)\<lparr>valid := 1, nbytes := n\<rparr>\<rparr>"

definition ready_dev :: file_dev where
  "ready_dev = idle_dev\<lparr>fd_i2o := (fd_i2o idle_dev)\<lparr>rchs := [answered 4096, answered 512], rch_list := [0, 1],
       paths := [7 \<mapsto> example_path\<lparr>rchAB := [Some 0, Some 1]\<rparr>]\<rparr>,
     opened := [7 \<mapsto> fresh_ext BridgeABFops False]\<rparr>"

definition ready_ab :: ab_env where
  "ready_ab = faulty_ab\<lparr>ae_from_ok := True\<rparr>"

lemma ready_turn:
  "\<exists>c d. stream_turn 60 50 7 ready_ab ht_init ready_dev = Some (Again, c, d) \<and> work c = [(0, 4096), (1, 512)]"
  by (simp add: stream_turn_def acq200_ioctlAB_def ioctlAB_enter_def ioctlAB_leave_def ready_ab_def faulty_ab_def ready_dev_def
      idle_dev_def down_busy_def up_busy_def ext_update_def acq200_bufferABaction_def acq200_bufferABrecycle_def ht_init_def
      example_dev_def example_path_def BUFFERA_def BUFFERB_def fillDeviceStatus_def answered_def zeroed_rch_def path_update_def
      BUFFER_FLAG_LUT_def FULL_EOF_def user_result_def action_turn_def take_buffers_def take_buffer_def next_turn_def Let_def)

lemma ready_calm: "calm_turn 7 ready_ab" "path_next (fd_i2o ready_dev) 7 = Some BUFFERA" "in_step 7 ht_init ready_dev"
  by (simp_all add: calm_turn_def ready_ab_def faulty_ab_def path_next_def ready_dev_def example_path_def in_step_def ht_init_def BUFFERA_def)

theorem stream_client_in_step_witness:
  "\<exists>c d. client_run 60 50 7 [(\<lambda>d. d, ready_ab)] ht_init ready_dev = Some (Again, c, d) \<and> work c = [(0, 4096), (1, 512)] \<and>
     path_next (fd_i2o d) 7 = Some (nxt c) \<and> nxt c = 0"
proof -
  obtain c d where t: "stream_turn 60 50 7 ready_ab ht_init ready_dev = Some (Again, c, d)" "work c = [(0, 4096), (1, 512)]"
    using ready_turn by blast
  then have r: "client_run 60 50 7 [(\<lambda>d. d, ready_ab)] ht_init ready_dev = Some (Again, c, d)" by simp
  from stream_client_in_step [OF ready_calm(2) _ r] ready_calm(1) r t(2) show ?thesis by simp
qed



text \<open>C38. A time-out in the client.  The recycle flags are cleared only after a successful call, so that after a time-out the
client asks again for a buffer it has already returned; the driver then unlinks and frees the handler of the
request that the timed-out call had posted for this buffer and that the card has not answered.\<close>

theorem timeout_recycles_outstanding:
  assumes "paths d p = Some path" and "rchAB path ! BUFFERA = Some r" and "r \<in> set (rch_list d)" and "r < length (rchs d)"
    and "rch_path (rchs d ! r) = Some p" and "rch_device (rchs d ! r)" and "rr_flags (rchReturn (rchs d ! r)) = 0"
    and "valid (rchReturn (rchs d ! r)) = 0" and "ci_recycle (ops c) = BUFFER_A_FLAG"
    and "action_turn MAXTO timeout IoctlTimedOut c = (Again, c')"
  shows "\<exists>d'. acq200_bufferABrecycle p (ops c') d = Some d' \<and> rch_list d' = remove1 r (rch_list d) \<and>
    pool d' = acq200_pool_free_rch (pool d) r \<and> valid (rchReturn (rchs d' ! r)) = 0"
proof -
  have "ci_recycle (ops c') = BUFFER_A_FLAG"
    using assms(9,10) by (auto simp: action_turn_def next_turn_def Let_def split: if_splits)
  then show ?thesis
    using assms by (auto simp: acq200_bufferABrecycle_def BUFFER_A_FLAG_def BUFFER_B_FLAG_def recycle_AB_def i2o_recycleRch_def
        rchRemove_def list_del_def rch_update_def path_update_def Let_def split: option.split)
qed

definition waiting_dev :: i2o_dev where
  "waiting_dev = (fd_i2o ready_dev)\<lparr>rchs := [(answered 0)\<lparr>rchReturn := rchReturn zeroed_rch\<rparr>, answered 512]\<rparr>"

theorem timeout_recycles_outstanding_witness:
  "\<exists>c' d'. action_turn 60 50 IoctlTimedOut (ht_init\<lparr>ops := (ops ht_init)\<lparr>ci_recycle := 1\<rparr>, started := True\<rparr>) = (Again, c') \<and>
     acq200_bufferABrecycle 7 (ops c') waiting_dev = Some d' \<and> rch_list d' = [1]"
proof -
  let ?c = "ht_init\<lparr>ops := (ops ht_init)\<lparr>ci_recycle := 1\<rparr>, started := True\<rparr>"
  obtain c' where a: "action_turn 60 50 IoctlTimedOut ?c = (Again, c')" by (simp add: action_turn_def ht_init_def)
  have w: "paths waiting_dev 7 = Some (example_path\<lparr>rchAB := [Some 0, Some 1]\<rparr>)" "rch_list waiting_dev = [0, 1]"
    "rchs waiting_dev = [(answered 0)\<lparr>rchReturn := rchReturn zeroed_rch\<rparr>, answered 512]"
    by (simp_all add: waiting_dev_def ready_dev_def)
  have "\<exists>d'. acq200_bufferABrecycle 7 (ops c') waiting_dev = Some d' \<and> rch_list d' = remove1 0 (rch_list waiting_dev) \<and>
    pool d' = acq200_pool_free_rch (pool waiting_dev) 0 \<and> valid (rchReturn (rchs d' ! 0)) = 0"
    by (rule timeout_recycles_outstanding [OF w(1) _ _ _ _ _ _ _ _ a])
      (simp_all add: w answered_def zeroed_rch_def BUFFERA_def BUFFER_A_FLAG_def)
  then show ?thesis using a by (auto simp: w(2))
qed

end
