(* ===== verification/Devices.thy ===== *)
theory Devices
  imports Paths Printf
begin

text \<open>
  The cards: creation, initialisation and removal (\<^verbatim>\<open>src/acq200.c\<close>), the mapping of their registers
  (\<^verbatim>\<open>src/acq200_mmap.c\<close>), the table of devices with its three searches, and the attribute files (\<^verbatim>\<open>src/acq200_if.c\<close>).

  The table keeps an entry for every card ever created; \<open>ca_freed\<close> marks one whose memory has been freed, and reading
  it is an access to freed memory, an oops here.  What the kernel holds for the driver (interrupt handlers, character
  devices, memory regions, attribute files) is part of the state; what it answers is an argument.
\<close>

section \<open>State\<close>

definition MAXDEV :: nat where "MAXDEV = 16"
definition COMMSBUF_ORDER :: nat where "COMMSBUF_ORDER = 12"
definition DEV_TYPE_ACQ196 :: int where "DEV_TYPE_ACQ196 = 0x1000"
definition DEV_TYPE_ACQ216 :: int where "DEV_TYPE_ACQ216 = 0x2100"
definition CSR_SIZE :: int where "CSR_SIZE = 0x80"

record card =
  ca_idx :: nat
  ca_pci :: nat
  ca_class :: "nat option"
  ca_major :: int
  ca_name :: string
  ca_model :: string
  ca_type :: int
  ca_llhost :: DmaBuf
  ca_dma :: DmaBuf
  ca_AB :: "DmaBuf list"
  ca_csr :: IoMapping
  ca_data :: "nat \<Rightarrow> u32"
  ca_pool :: "BigBufPool option"
  ca_rchs :: "ReturnCommandHandler list"
  ca_mbox :: mbox_dev
  ca_busy :: int
  ca_irqs :: "int list"
  ca_channels :: "u32 \<times> u32"
  ca_onetime :: bool
  ca_freed :: bool

record driver =
  devices :: "card list"
  slots :: "nat \<Rightarrow> int"
  k_irqs :: "(int \<times> nat) list"
  k_chrdevs :: "(int \<times> string) list"
  k_regions :: "(ulong \<times> int) list"
  k_attrs :: "(nat \<times> string) list"
  k_class :: "nat list"
  k_free_pages :: "(int \<times> nat) list"

definition null_buf :: DmaBuf where "null_buf = \<lparr>order = 0, db_va = 0, db_pa = 0\<rparr>"

definition card_update :: "nat \<Rightarrow> (card \<Rightarrow> card) \<Rightarrow> driver \<Rightarrow> driver" where
  "card_update i f v = v\<lparr>devices := (devices v)[i := f (devices v ! i)]\<rparr>"

section \<open>Searches\<close>

text \<open>All three walk the table up to \<open>idx\<close>; the result is \<open>None\<close> for an access to freed memory.\<close>

fun search :: "(card \<Rightarrow> bool) \<Rightarrow> nat \<Rightarrow> card list \<Rightarrow> nat option option" where
  "search P i [] = Some None"
| "search P i (c # cs) = (if ca_freed c then None else if P c then Some (Some i) else search P (Suc i) cs)"

definition acq200_lookupDevice :: "nat \<Rightarrow> driver \<Rightarrow> nat option option" where
  "acq200_lookupDevice dev v = search (\<lambda>c. ca_pci c = dev) 0 (devices v)"

definition acq200_lookupDeviceFromClass :: "nat \<Rightarrow> driver \<Rightarrow> nat option option" where
  "acq200_lookupDeviceFromClass dev v = search (\<lambda>c. ca_class c = Some dev) 0 (devices v)"

text \<open>Here not to find a device is a failed assertion.\<close>

definition search_major :: "int \<Rightarrow> driver \<Rightarrow> nat option option" where
  "search_major major v = search (\<lambda>c. ca_major c = major) 0 (devices v)"

definition acq200_lookup_device :: "int \<Rightarrow> driver \<Rightarrow> nat option" where
  "acq200_lookup_device major v = (case search_major major v of None \<Rightarrow> None | Some r \<Rightarrow> r)"

section \<open>Register mapping\<close>

definition PCI_BASE_ADDRESS_MEM_MASK :: ulong where "PCI_BASE_ADDRESS_MEM_MASK = NOT 0xf"

record region_env =
  rg_bar :: ulong
  rg_ok :: bool
  rg_va :: int

definition acq200_makeIoMapping :: "region_env \<Rightarrow> nat \<Rightarrow> string \<Rightarrow> int \<Rightarrow> driver \<Rightarrow> int \<times> driver" where
  "acq200_makeIoMapping e i ident len v =
     (let pim = \<lparr>io_va = io_va (ca_csr (devices v ! i)), io_pa = rg_bar e AND PCI_BASE_ADDRESS_MEM_MASK, io_len = len,
                 io_name = ca_name (devices v ! i) @ ''.'' @ ident\<rparr> in
      if rg_ok e then
        (0, (card_update i (\<lambda>c. c\<lparr>ca_csr := pim\<lparr>io_va := rg_va e\<rparr>\<rparr>) v)\<lparr>k_regions := (io_pa pim, len) # k_regions v\<rparr>)
      else (- ENODEV, card_update i (\<lambda>c. c\<lparr>ca_csr := pim\<rparr>) v))"

definition acq200_map_pci_memory :: "region_env \<Rightarrow> nat \<Rightarrow> driver \<Rightarrow> int \<times> driver" where
  "acq200_map_pci_memory e i v = acq200_makeIoMapping e i ''csr'' CSR_SIZE v"

definition clearIoMapping :: "nat \<Rightarrow> driver \<Rightarrow> driver" where
  "clearIoMapping i v =
     (let m = ca_csr (devices v ! i);
          v1 = (if length (io_name m) \<noteq> 0 then v\<lparr>k_regions := remove1 (io_pa m, io_len m) (k_regions v)\<rparr> else v)
      in card_update i (\<lambda>c. c\<lparr>ca_csr := null_mapping\<rparr>) v1)"

definition acq200_unmap_pci_memory :: "nat \<Rightarrow> driver \<Rightarrow> driver" where
  "acq200_unmap_pci_memory i v = clearIoMapping i v"

section \<open>Attribute files\<close>

definition device_attrs :: "string list" where
  "device_attrs = [''host_pa'', ''host_len'', ''llhost_pa'', ''llhost_len'', ''heartbeat'', ''cpci_slot'', ''buffer_AB_busy_mutex'',
     ''interrupt_count'', ''available_input_channels'', ''available_output_channels'', ''buffers'']"

definition class_attrs :: "string list" where "class_attrs = [''imask'', ''dev'']"

definition pool_attrs :: "string list" where "pool_attrs = [''pool'', ''rch_list'']"

definition create_files :: "nat \<Rightarrow> string list \<Rightarrow> driver \<Rightarrow> driver" where
  "create_files i names v = v\<lparr>k_attrs := k_attrs v @ map (Pair i) names\<rparr>"

definition remove_files :: "nat \<Rightarrow> string list \<Rightarrow> driver \<Rightarrow> driver" where
  "remove_files i names v = v\<lparr>k_attrs := filter (\<lambda>(j, a). \<not> (j = i \<and> a \<in> set names)) (k_attrs v)\<rparr>"

definition acq200_create_sysfs_device :: "nat \<Rightarrow> driver \<Rightarrow> driver" where
  "acq200_create_sysfs_device i v = create_files i device_attrs v"
definition acq200_remove_sysfs_device :: "nat \<Rightarrow> driver \<Rightarrow> driver" where
  "acq200_remove_sysfs_device i v = remove_files i device_attrs v"
definition acq200_create_sysfs_class :: "nat \<Rightarrow> driver \<Rightarrow> driver" where
  "acq200_create_sysfs_class i v = create_files i class_attrs v"
definition acq200_remove_sysfs_class :: "nat \<Rightarrow> driver \<Rightarrow> driver" where
  "acq200_remove_sysfs_class i v = remove_files i class_attrs v"

text \<open>The two files of the pools.\<close>

definition create_dev_sysfs :: "nat \<Rightarrow> driver \<Rightarrow> driver" where
  "create_dev_sysfs i v = create_files i pool_attrs v"
definition remove_dev_sysfs :: "nat \<Rightarrow> driver \<Rightarrow> driver" where
  "remove_dev_sysfs i v = remove_files i pool_attrs v"

section \<open>Creation\<close>

record create_env =
  cr_kmalloc :: bool
  cr_llhost_va :: int
  cr_llhost_pa :: u32
  cr_pages :: "nat \<Rightarrow> int"
  cr_dma_map :: "int \<Rightarrow> int \<Rightarrow> u32"
  cr_region :: region_env
  cr_mailboxes :: "u32 list"
  cr_pool_kmalloc :: "bool list"

definition alloc_llhost_buf :: "create_env \<Rightarrow> DmaBuf \<Rightarrow> DmaBuf" where
  "alloc_llhost_buf e b = b\<lparr>db_va := cr_llhost_va e, order := 0, db_pa := cr_llhost_pa e\<rparr>"

text \<open>The table entry of a card once its memory is cleared and its number assigned.\<close>

definition new_card :: "create_env \<Rightarrow> nat \<Rightarrow> nat \<Rightarrow> card" where
  "new_card e pci idx =
     \<lparr>ca_idx = idx, ca_pci = pci, ca_class = None, ca_major = 0, ca_name = ''acq200.'' @ dec_nat idx, ca_model = [], ca_type = 0,
      ca_llhost = alloc_llhost_buf e null_buf, ca_dma = null_buf, ca_AB = [null_buf, null_buf], ca_csr = null_mapping,
      ca_data = (\<lambda>_. 0), ca_pool = None,
      ca_rchs = [], ca_mbox = \<lparr>mbox = cr_mailboxes e, mbox_writes = [], sem = 1, using_interrupt = False, mb_response_received = False\<rparr>,
      ca_busy = 1, ca_irqs = [0, 0, 0, 0], ca_channels = (0, 0), ca_onetime = False, ca_freed = False\<rparr>"

text \<open>The ramp is written over the words of the buffer; \<open>idx\<close> is the number of devices, this one included.\<close>

definition fill_ramp :: "nat \<Rightarrow> int \<Rightarrow> (nat \<Rightarrow> u32) \<Rightarrow> nat \<Rightarrow> u32" where
  "fill_ramp idx len data =
     (let ilen = nat (len div 4); id = push_bit 28 (of_nat idx :: u32)
      in (\<lambda>ii. if ii < ilen then id OR of_nat ii else data ii))"

definition acq200_device_create :: "create_env \<Rightarrow> nat \<Rightarrow> driver \<Rightarrow> (nat \<times> driver) option" where
  "acq200_device_create e pci v =
     (let i = length (devices v) in
      if \<not> cr_kmalloc e \<or> MAXDEV \<le> i then None
      else
        let v1 = v\<lparr>devices := devices v @ [new_card e pci i]\<rparr> in
        do { dma \<leftarrow> alloc_max_buf (cr_pages e) (cr_dma_map e) null_buf COMMSBUF_ORDER;
             let v2 = card_update i (\<lambda>c. c\<lparr>ca_dma := dma, ca_data := fill_ramp (Suc i) (dma_buf_len dma) (ca_data c)\<rparr>) v1;
             let (rc, v3) = acq200_map_pci_memory (cr_region e) i v2;
             (p, rchs) \<leftarrow> acq200_pool_create (cr_pool_kmalloc e) i dma;
             Some (i, create_dev_sysfs i (card_update i (\<lambda>c. c\<lparr>ca_pool := Some p, ca_rchs := rchs\<rparr>) v3)) })"

text \<open>\<open>k_free_pages\<close> records what is handed to \<open>__free_pages\<close>, in order.\<close>

definition kbuf_free :: "DmaBuf \<Rightarrow> driver \<Rightarrow> driver" where
  "kbuf_free b v = (if db_va b \<noteq> 0 then v\<lparr>k_free_pages := k_free_pages v @ [(db_va b, order b)]\<rparr> else v)"

definition acq200_device_free :: "nat \<Rightarrow> driver \<Rightarrow> driver" where
  "acq200_device_free i v =
     (let c = devices v ! i;
          v0 = (if ca_pool c \<noteq> None then remove_dev_sysfs i v else v);
          v1 = card_update i (\<lambda>c. c\<lparr>ca_pool := snd (acq200_pool_delete (ca_pool c))\<rparr>) v0;
          v2 = acq200_unmap_pci_memory i v1;
          v3 = v2\<lparr>k_free_pages := k_free_pages v2 @ [(db_va (ca_llhost c), order (ca_llhost c))]\<rparr>
      in card_update i (\<lambda>c. c\<lparr>ca_freed := True\<rparr>)
           (kbuf_free (ca_AB c ! 1) (kbuf_free (ca_AB c ! 0) (kbuf_free (ca_dma c) v3))))"

section \<open>Initialisation\<close>

definition acq200_get_cpci_slot :: "u32 \<Rightarrow> int" where
  "acq200_get_cpci_slot devfn = (if 72 \<le> devfn \<and> devfn \<le> 120 then 9 - (uint devfn div 8 - 8) else - 1)"

record init_env =
  in_enable :: int
  in_devfn :: u32
  in_register :: int
  in_use_interrupts :: bool
  in_irq :: int
  in_request_irq :: int
  in_ints :: exchange
  in_dmabuf :: exchange
  in_channels :: exchange
  in_HZ :: u32
  in_class :: nat

text \<open>A mailbox access needs the register mapping.\<close>

definition with_mbox :: "nat \<Rightarrow> (mbox_dev \<Rightarrow> int \<times> mbox_dev) \<Rightarrow> driver \<Rightarrow> (int \<times> driver) option" where
  "with_mbox i f v =
     (if io_va (ca_csr (devices v ! i)) = 0 then None
      else let (rc, m) = f (ca_mbox (devices v ! i)) in Some (rc, card_update i (\<lambda>c. c\<lparr>ca_mbox := m\<rparr>) v))"

definition init_interrupt_command :: "init_env \<Rightarrow> nat \<Rightarrow> driver \<Rightarrow> (int \<times> driver) option" where
  "init_interrupt_command e i v =
     (if using_interrupt (ca_mbox (devices v ! i)) then
        with_mbox i (\<lambda>m. acq200_sendCommand (in_HZ e) (in_ints e) m (BP_SET_FUNCODE BP_FC_SET_INTERRUPTS + BP_SET_A1 3)) v
      else Some (0, v))"

definition init_channels :: "init_env \<Rightarrow> nat \<Rightarrow> driver \<Rightarrow> (int \<times> driver) option" where
  "init_channels e i v =
     (if io_va (ca_csr (devices v ! i)) = 0 then None
      else
        let (rc, m, chans) = acq200_getAvailableChannels (in_HZ e) (in_channels e) (ca_mbox (devices v ! i)) (ca_channels (devices v ! i))
        in Some (rc, card_update i (\<lambda>c. c\<lparr>ca_mbox := m, ca_channels := chans\<rparr>) v))"

text \<open>The one-time set-up: the card is told the DMA buffer, then asked for its channels.  The flag tells whether to go on.\<close>

definition init_onetime :: "init_env \<Rightarrow> nat \<Rightarrow> int \<Rightarrow> driver \<Rightarrow> (int \<times> bool \<times> driver) option" where
  "init_onetime e i rc v =
     (if ca_onetime (devices v ! i) then Some (rc, True, v)
      else
        do { (rc1, v1) \<leftarrow> with_mbox i (\<lambda>m. acq200_sendCommandA3A4 (in_HZ e) (in_dmabuf e) m
               (BP_SET_FUNCODE BP_FC_SET_HOST_DMABUF OR BP_SET_A1 (of_nat NMAPPINGS))
               (db_pa (ca_dma (devices v ! i))) (word_of_int (dma_buf_len (ca_dma (devices v ! i))))) v;
             let v2 = card_update i (\<lambda>c. c\<lparr>ca_onetime := True\<rparr>) v1;
             (if rc1 \<noteq> 0 then Some (rc1, False, v2)
              else do { (rc2, v3) \<leftarrow> init_channels e i v2; Some (rc2, True, v3) }) })"

definition acq200_device_init :: "init_env \<Rightarrow> nat \<Rightarrow> driver \<Rightarrow> (int \<times> driver) option" where
  "acq200_device_init e i v =
     (if in_enable e \<noteq> 0 then Some (in_enable e, v)
      else
        let v1 = v\<lparr>slots := (slots v)(ca_idx (devices v ! i) := acq200_get_cpci_slot (in_devfn e))\<rparr>;
            v2 = card_update i (\<lambda>c. c\<lparr>ca_major := 0\<rparr>) v1 in
        if in_register e < 0 then Some (in_register e, v2)
        else
          let v3 = (card_update i (\<lambda>c. c\<lparr>ca_major := in_register e\<rparr>) v2)
                     \<lparr>k_chrdevs := (in_register e, ca_name (devices v ! i)) # k_chrdevs v\<rparr>;
              use_irq = (in_use_interrupts e \<and> in_irq e \<noteq> 0);
              rc3 = (if use_irq then in_request_irq e else in_register e) in
          if use_irq \<and> in_request_irq e \<noteq> 0 then Some (in_request_irq e, v3)
          else
            let v4 = (if use_irq then v3\<lparr>k_irqs := (in_irq e, i) # k_irqs v\<rparr> else v3) in
            do { (rc5, v5) \<leftarrow> init_interrupt_command e i v4;
                 if rc5 \<noteq> 0 then Some (rc5, v5)
                 else
                   do { (rc6, go_on, v6) \<leftarrow> init_onetime e i rc3 v5;
                        if \<not> go_on then Some (rc6, v6)
                        else
                          let v7 = acq200_create_sysfs_device i v6;
                              v8 = (card_update i (\<lambda>c. c\<lparr>ca_class := Some (in_class e)\<rparr>) v7)
                                     \<lparr>k_class := ca_idx (devices v7 ! i) # k_class v7\<rparr>
                          in Some (rc6, acq200_create_sysfs_class i v8) } })"

definition acq200_set_dev_type :: "bool \<Rightarrow> nat \<Rightarrow> driver \<Rightarrow> driver" where
  "acq200_set_dev_type vendor_intel i v =
     card_update i (\<lambda>c. if vendor_intel then c\<lparr>ca_type := DEV_TYPE_ACQ196, ca_model := ''acq196''\<rparr>
                        else c\<lparr>ca_type := DEV_TYPE_ACQ216, ca_model := ''acq216''\<rparr>) v"

definition acq200_probe :: "create_env \<Rightarrow> init_env \<Rightarrow> bool \<Rightarrow> nat \<Rightarrow> driver \<Rightarrow> (int \<times> driver) option" where
  "acq200_probe ce ie vendor_intel pci v =
     do { (i, v1) \<leftarrow> acq200_device_create ce pci v;
          acq200_device_init ie i (acq200_set_dev_type vendor_intel i v1) }"

definition acq200_remove :: "int \<Rightarrow> nat \<Rightarrow> driver \<Rightarrow> driver option" where
  "acq200_remove irq pci v =
     do { r \<leftarrow> acq200_lookupDevice pci v;
          (case r of
             None \<Rightarrow> Some v
           | Some i \<Rightarrow>
               let c = devices v ! i;
                   v1 = (if using_interrupt (ca_mbox c) then
                           card_update i (\<lambda>c. c\<lparr>ca_mbox := (ca_mbox c)\<lparr>using_interrupt := False\<rparr>\<rparr>)
                             (v\<lparr>k_irqs := remove1 (irq, i) (k_irqs v)\<rparr>)
                         else v);
                   v2 = acq200_remove_sysfs_device i (acq200_remove_sysfs_class i v1);
                   v3 = v2\<lparr>k_class := remove1 (ca_idx c) (k_class v2), k_chrdevs := remove1 (ca_major c, ca_name c) (k_chrdevs v2)\<rparr>
               in Some (acq200_device_free i v3)) }"

section \<open>Lemmas on the searches\<close>

lemma search_freed:
  "i < length cs \<Longrightarrow> ca_freed (cs ! i) \<Longrightarrow> \<forall>j < i. \<not> P (cs ! j) \<Longrightarrow> search P k cs = None"
proof (induction cs arbitrary: i k)
  case (Cons c cs)
  show ?case
  proof (cases i)
    case 0
    then show ?thesis using Cons.prems by simp
  next
    case (Suc n)
    have "\<not> P c" "\<forall>j < n. \<not> P (cs ! j)" using Cons.prems(3) Suc by force+
    then show ?thesis using Cons.IH [of n "Suc k"] Cons.prems Suc by simp
  qed
qed simp

lemma search_finds:
  "i < length cs \<Longrightarrow> P (cs ! i) \<Longrightarrow> \<forall>j \<le> i. \<not> ca_freed (cs ! j) \<Longrightarrow> \<forall>j < i. \<not> P (cs ! j) \<Longrightarrow>
   search P k cs = Some (Some (k + i))"
proof (induction cs arbitrary: i k)
  case (Cons c cs)
  show ?case
  proof (cases i)
    case 0
    then show ?thesis using Cons.prems by simp
  next
    case (Suc n)
    have "\<not> P c" "\<not> ca_freed c" "\<forall>j < n. \<not> P (cs ! j)" "\<forall>j \<le> n. \<not> ca_freed (cs ! j)" using Cons.prems(3,4) Suc by force+
    then show ?thesis using Cons.IH [of n "Suc k"] Cons.prems Suc by simp
  qed
qed simp

lemma search_found:
  "search P k cs = Some (Some n) \<Longrightarrow> \<exists>i < length cs. n = k + i \<and> P (cs ! i) \<and> (\<forall>j \<le> i. \<not> ca_freed (cs ! j))"
proof (induction cs arbitrary: k)
  case (Cons c cs)
  show ?case
  proof (cases "P c")
    case True
    then show ?thesis using Cons.prems by (intro exI [of _ 0]) (simp split: if_splits)
  next
    case False
    then obtain i where "i < length cs" "n = Suc k + i" "P (cs ! i)" "\<forall>j \<le> i. \<not> ca_freed (cs ! j)" "\<not> ca_freed c"
      using Cons.IH [of "Suc k"] Cons.prems by (auto split: if_splits)
    then show ?thesis by (intro exI [of _ "Suc i"]) (auto simp: nth_Cons split: nat.split)
  qed
qed simp

text \<open>
  What the clients of the device table rely on, whatever they search by: the first card with the key is found while the entries up to
  it are alive, a freed entry stops every search for a key that no earlier entry has, and what is found is alive and has the key.
\<close>

locale card_search =
  fixes key :: "card \<Rightarrow> 'k option" and find :: "'k \<Rightarrow> driver \<Rightarrow> nat option option"
  assumes find: "find k v = search (\<lambda>c. key c = Some k) 0 (devices v)"
begin

lemma finds_first:
  "i < length (devices v) \<Longrightarrow> key (devices v ! i) = Some k \<Longrightarrow> \<forall>c \<in> set (devices v). \<not> ca_freed c \<Longrightarrow>
   \<forall>j < i. key (devices v ! j) \<noteq> Some k \<Longrightarrow> find k v = Some (Some i)"
  unfolding find using search_finds [of i "devices v" "\<lambda>c. key c = Some k" 0] by simp

lemma stopped_by_freed:
  "i < length (devices v) \<Longrightarrow> ca_freed (devices v ! i) \<Longrightarrow> \<forall>j < i. key (devices v ! j) \<noteq> Some k \<Longrightarrow> find k v = None"
  unfolding find by (rule search_freed)

lemma found_alive:
  "find k v = Some (Some i) \<Longrightarrow> i < length (devices v) \<and> key (devices v ! i) = Some k \<and> \<not> ca_freed (devices v ! i)"
  unfolding find using search_found [of "\<lambda>c. key c = Some k" 0 "devices v" i] by auto

end

interpretation by_pci: card_search "\<lambda>c. Some (ca_pci c)" acq200_lookupDevice
  by unfold_locales (simp add: acq200_lookupDevice_def)

interpretation by_class: card_search ca_class acq200_lookupDeviceFromClass
  by unfold_locales (simp add: acq200_lookupDeviceFromClass_def)

interpretation by_major: card_search "\<lambda>c. Some (ca_major c)" search_major
  by unfold_locales (simp add: search_major_def)

section \<open>Lemmas on the operations\<close>

lemma card_update_simps [simp]:
  "devices (card_update i f v) = (devices v)[i := f (devices v ! i)]" "k_irqs (card_update i f v) = k_irqs v"
  "k_chrdevs (card_update i f v) = k_chrdevs v" "k_regions (card_update i f v) = k_regions v" "k_attrs (card_update i f v) = k_attrs v"
  "slots (card_update i f v) = slots v" "k_class (card_update i f v) = k_class v" "k_free_pages (card_update i f v) = k_free_pages v"
  by (simp_all add: card_update_def)

lemma map_pci_memory_effect:
  assumes "acq200_map_pci_memory e i v = (rc, v')"
  shows "\<exists>m rs. v' = (card_update i (\<lambda>c. c\<lparr>ca_csr := m\<rparr>) v)\<lparr>k_regions := rs\<rparr> \<and> io_name m = ca_name (devices v ! i) @ ''.csr''"
proof -
  have "\<exists>m. v' = (card_update i (\<lambda>c. c\<lparr>ca_csr := m\<rparr>) v)\<lparr>k_regions := k_regions v'\<rparr> \<and> io_name m = ca_name (devices v ! i) @ ''.csr''"
    using assms unfolding acq200_map_pci_memory_def acq200_makeIoMapping_def Let_def
    by (cases "rg_ok e") (auto simp: card_update_def)
  then show ?thesis by blast
qed

lemma create_effect:
  assumes "acq200_device_create e pci v = Some (i, v')"
  shows "i = length (devices v) \<and> i < MAXDEV \<and>
    (\<exists>dma dat m p rchs rs. alloc_max_buf (cr_pages e) (cr_dma_map e) null_buf COMMSBUF_ORDER = Some dma \<and>
      io_name m = ''acq200.'' @ dec_nat i @ ''.csr'' \<and> v' = v\<lparr>k_regions := rs,
        devices := devices v @ [(new_card e pci i)\<lparr>ca_dma := dma, ca_data := dat, ca_csr := m, ca_pool := Some p, ca_rchs := rchs\<rparr>],
        k_attrs := k_attrs v @ map (Pair i) pool_attrs\<rparr>)"
proof -
  let ?i = "length (devices v)"
  have ok: "cr_kmalloc e" "?i < MAXDEV"
    using assms unfolding acq200_device_create_def Let_def by (simp_all split: if_splits)
  let ?v1 = "\<lambda>dma. card_update ?i (\<lambda>c. c\<lparr>ca_dma := dma, ca_data := fill_ramp (Suc ?i) (dma_buf_len dma) (ca_data c)\<rparr>)
               (v\<lparr>devices := devices v @ [new_card e pci ?i]\<rparr>)"
  obtain dma p rchs where r: "i = ?i"
    and a: "alloc_max_buf (cr_pages e) (cr_dma_map e) null_buf COMMSBUF_ORDER = Some dma" and w:
    "v' = create_dev_sysfs ?i (card_update ?i (\<lambda>c. c\<lparr>ca_pool := Some p, ca_rchs := rchs\<rparr>) (snd (acq200_map_pci_memory (cr_region e) ?i (?v1 dma))))"
    using assms ok unfolding acq200_device_create_def Let_def
    by (simp del: card_update_simps add: bind_eq_Some_conv case_prod_beta) blast
  obtain rc v3 where m: "acq200_map_pci_memory (cr_region e) ?i (?v1 dma) = (rc, v3)" by fastforce
  obtain x rs where x: "v3 = (card_update ?i (\<lambda>c. c\<lparr>ca_csr := x\<rparr>) (?v1 dma))\<lparr>k_regions := rs\<rparr>" "io_name x = ''acq200.'' @ dec_nat ?i @ ''.csr''"
    using map_pci_memory_effect [OF m] by (auto simp: card_update_def new_card_def)
  have "v' = v\<lparr>k_regions := rs,
      devices := devices v @ [(new_card e pci i)\<lparr>ca_dma := dma, ca_data := fill_ramp (Suc ?i) (dma_buf_len dma) (ca_data (new_card e pci i)),
        ca_csr := x, ca_pool := Some p, ca_rchs := rchs\<rparr>], k_attrs := k_attrs v @ map (Pair i) pool_attrs\<rparr>"
    unfolding w m snd_conv x(1) r by (simp add: card_update_def create_dev_sysfs_def create_files_def)
  then show ?thesis
    using ok a x(2) r by blast
qed

lemma dmabuf_command_writes:
  assumes "acq200_sendCommandA3A4 DEFTO x d command a3 a4 = (0, d')" "DEFTO < 0x10000"
  shows "mbox_writes d' = mbox_writes d @ [(BP_MB_A4, a4), (BP_MB_A3, a3),
      (BP_MB_COMMAND, command OR BP_CI_DONE OR BP_CI_COMMAND OR of_nat BP_MB_A3 OR of_nat BP_MB_A4)]"
    and "sem d' = sem d" and "using_interrupt d' = using_interrupt d"
proof -
  obtain mbc' where e: "acq200_ioctl_wbr_mbox x d (commandA3A4_mbc DEFTO command a3 a4) = (0, d', mbc')"
    using assms(1) by (auto simp: acq200_sendCommandA3A4_def split: prod.splits)
  then have n: "\<not> ex_down_interrupted x"
    by (auto simp: acq200_ioctl_wbr_mbox_def ERESTARTSYS_def)
  note w = wbr_cases [OF e n]
  have "\<not> bit DEFTO 19" using timeout_bits [OF assms(2), of 19] by auto
  then show "mbox_writes d' = mbox_writes d @ [(BP_MB_A4, a4), (BP_MB_A3, a3),
      (BP_MB_COMMAND, command OR BP_CI_DONE OR BP_CI_COMMAND OR of_nat BP_MB_A3 OR of_nat BP_MB_A4)]"
    unfolding w(1) selected_writes_4 commandA3A4_mbc_bits
    by (simp add: commandA3A4_mbc_def new_mbc_def BP_MB_COMMAND_def BP_MB_A3_def BP_MB_A4_def)
  show "sem d' = sem d" "using_interrupt d' = using_interrupt d" by (rule w(2), rule w(3))
qed

lemma channels_query:
  assumes "acq200_getAvailableChannels DEFTO x d ch = (0, d', ch')" "DEFTO < 0x10000"
  shows "mbox_writes d' = mbox_writes d @ [(BP_MB_COMMAND, BP_SET_FUNCODE BPFC_GET_NCHANNELS OR BP_CI_QUERY OR BP_CI_DONE)]"
    and "sem d' = sem d" and "using_interrupt d' = using_interrupt d"
    and "ch' = (BP_GET_A1 (mbox d' ! BP_MB_COMMAND), BP_GET_A2 (mbox d' ! BP_MB_COMMAND))"
proof -
  let ?q = "query_mbc DEFTO (BP_SET_FUNCODE BPFC_GET_NCHANNELS) False False"
  obtain mbc' where e: "acq200_ioctl_wbr_mbox x d ?q = (0, d', mbc')"
    and c: "ch' = (let q = query_answer True True False False (mbxr mbc') in (the (q_a1 q), the (q_a2 q)))"
    using assms(1) by (auto simp: acq200_getAvailableChannels_def acq200_sendQuery_def split: prod.splits if_splits)
  then have n: "\<not> ex_down_interrupted x"
    by (auto simp: acq200_ioctl_wbr_mbox_def ERESTARTSYS_def)
  note w = wbr_cases [OF e n]
  have b: "\<not> bit DEFTO 17" "\<not> bit DEFTO 18" "\<not> bit DEFTO 19" using timeout_bits [OF assms(2)] by force+
  then show "mbox_writes d' = mbox_writes d @ [(BP_MB_COMMAND, BP_SET_FUNCODE BPFC_GET_NCHANNELS OR BP_CI_QUERY OR BP_CI_DONE)]"
    unfolding w(1) selected_writes_4 query_mbc_bits by (simp add: query_mbc_def new_mbc_def BP_MB_COMMAND_def)
  show "sem d' = sem d" "using_interrupt d' = using_interrupt d" by (rule w(2), rule w(3))
  have "bit (MBC_FROM_MBXR ?q) 0" using bit_from_mbx(2) [of 0 ?q] by (simp add: query_mbc_bits)
  moreover have "length (mbxr ?q) = 4" by (simp add: query_mbc_def new_mbc_def Let_def)
  ultimately have "mbxr mbc' ! BP_MB_COMMAND = mbox d' ! BP_MB_COMMAND"
    unfolding w(6) by (simp add: read_boxes_nth BP_MB_COMMAND_def)
  then show "ch' = (BP_GET_A1 (mbox d' ! BP_MB_COMMAND), BP_GET_A2 (mbox d' ! BP_MB_COMMAND))"
    unfolding c by (simp add: query_answer_def stored_def Let_def)
qed

text \<open>A successful initialisation of a card that polls and has not been set up before.\<close>

lemma device_init_effect:
  assumes "acq200_device_init e i v = Some (0, v')" "i < length (devices v)"
    and "\<not> ca_onetime (devices v ! i)" "\<not> using_interrupt (ca_mbox (devices v ! i))"
  shows "\<exists>m1 m2 ch. let c = devices v ! i; I = (if in_use_interrupts e \<and> in_irq e \<noteq> 0 then [(in_irq e, i)] else []) in
      acq200_sendCommandA3A4 (in_HZ e) (in_dmabuf e) (ca_mbox c) (BP_SET_FUNCODE BP_FC_SET_HOST_DMABUF OR BP_SET_A1 (of_nat NMAPPINGS))
        (db_pa (ca_dma c)) (word_of_int (dma_buf_len (ca_dma c))) = (0, m1) \<and>
      acq200_getAvailableChannels (in_HZ e) (in_channels e) m1 (ca_channels c) = (0, m2, ch) \<and>
      0 \<le> in_register e \<and> io_va (ca_csr c) \<noteq> 0 \<and>
      devices v' = (devices v)[i := c\<lparr>ca_major := in_register e, ca_onetime := True, ca_mbox := m2, ca_channels := ch,
                                      ca_class := Some (in_class e)\<rparr>] \<and>
      k_irqs v' = I @ k_irqs v \<and> k_chrdevs v' = (in_register e, ca_name c) # k_chrdevs v \<and>
      k_attrs v' = k_attrs v @ map (Pair i) (device_attrs @ class_attrs)"
proof -
  let ?c = "devices v ! i"
  obtain rc1 m1 where m1: "acq200_sendCommandA3A4 (in_HZ e) (in_dmabuf e) (ca_mbox ?c)
      (BP_SET_FUNCODE BP_FC_SET_HOST_DMABUF OR BP_SET_A1 (of_nat NMAPPINGS)) (db_pa (ca_dma ?c)) (word_of_int (dma_buf_len (ca_dma ?c))) = (rc1, m1)"
    by fastforce
  obtain rc2 m2 ch1 ch2 where m2: "acq200_getAvailableChannels (in_HZ e) (in_channels e) m1 (ca_channels ?c) = (rc2, m2, ch1, ch2)"
    by (cases "acq200_getAvailableChannels (in_HZ e) (in_channels e) m1 (ca_channels ?c)") auto
  show ?thesis
    using assms m1 m2
    unfolding acq200_device_init_def init_interrupt_command_def init_onetime_def with_mbox_def init_channels_def Let_def
    by (auto simp: bind_eq_Some_conv acq200_create_sysfs_device_def acq200_create_sysfs_class_def create_files_def
        intro!: exI [of _ m1] exI [of _ m2] split: if_split_asm)
qed

lemma probe_effect:
  assumes "acq200_probe ce ie intel pci v = Some (0, v')"
  shows "\<exists>c m1. let i = length (devices v) in devices v' = devices v @ [c] \<and> i < MAXDEV \<and> ca_idx c = i \<and> ca_pci c = pci \<and>
      ca_name c = ''acq200.'' @ dec_nat i \<and> ca_major c = in_register ie \<and> ca_onetime c \<and> \<not> ca_freed c \<and> io_va (ca_csr c) \<noteq> 0 \<and>
      acq200_sendCommandA3A4 (in_HZ ie) (in_dmabuf ie) (ca_mbox (new_card ce pci i))
        (BP_SET_FUNCODE BP_FC_SET_HOST_DMABUF OR BP_SET_A1 (of_nat NMAPPINGS))
        (db_pa (ca_dma c)) (word_of_int (dma_buf_len (ca_dma c))) = (0, m1) \<and>
      acq200_getAvailableChannels (in_HZ ie) (in_channels ie) m1 (0, 0) = (0, ca_mbox c, ca_channels c) \<and>
      k_irqs v' = (if in_use_interrupts ie \<and> in_irq ie \<noteq> 0 then [(in_irq ie, i)] else []) @ k_irqs v \<and>
      k_chrdevs v' = (in_register ie, ca_name c) # k_chrdevs v \<and> k_attrs v' = k_attrs v @ map (Pair i) (pool_attrs @ device_attrs @ class_attrs)"
proof -
  let ?i = "length (devices v)"
  obtain i v1 where c: "acq200_device_create ce pci v = Some (i, v1)" and d: "acq200_device_init ie i (acq200_set_dev_type intel i v1) = Some (0, v')"
    using assms unfolding acq200_probe_def by (auto simp: bind_eq_Some_conv)
  note e = create_effect [OF c]
  then have i: "i = ?i" "?i < MAXDEV" by blast+
  obtain dma dat m p rchs rs where v1: "v1 = v\<lparr>k_regions := rs,
        devices := devices v @ [(new_card ce pci ?i)\<lparr>ca_dma := dma, ca_data := dat, ca_csr := m, ca_pool := Some p, ca_rchs := rchs\<rparr>],
        k_attrs := k_attrs v @ map (Pair ?i) pool_attrs\<rparr>"
    using e unfolding i by blast
  let ?u = "acq200_set_dev_type intel ?i v1"
  have u: "devices ?u ! ?i = (if intel then (devices v1 ! ?i)\<lparr>ca_type := DEV_TYPE_ACQ196, ca_model := ''acq196''\<rparr>
        else (devices v1 ! ?i)\<lparr>ca_type := DEV_TYPE_ACQ216, ca_model := ''acq216''\<rparr>)"
    "devices ?u = devices v @ [devices ?u ! ?i]"
    "k_irqs ?u = k_irqs v" "k_chrdevs ?u = k_chrdevs v" "k_attrs ?u = k_attrs v @ map (Pair ?i) pool_attrs"
    by (simp_all add: acq200_set_dev_type_def v1)
  have f: "\<not> ca_onetime (devices ?u ! ?i)" "\<not> using_interrupt (ca_mbox (devices ?u ! ?i))" "?i < length (devices ?u)"
    "ca_mbox (devices ?u ! ?i) = ca_mbox (new_card ce pci ?i)" "ca_channels (devices ?u ! ?i) = (0, 0)" "ca_idx (devices ?u ! ?i) = ?i"
    "ca_name (devices ?u ! ?i) = ''acq200.'' @ dec_nat ?i" "ca_pci (devices ?u ! ?i) = pci" "\<not> ca_freed (devices ?u ! ?i)"
    unfolding u(1) by (simp_all add: v1 new_card_def) (simp add: acq200_set_dev_type_def)
  have upd: "(devices ?u)[?i := x] = devices v @ [x]" for x
    by (subst u(2)) simp
  show ?thesis
    using device_init_effect [OF d [unfolded i(1)] f(3,1,2)] i(2)
    unfolding Let_def upd u(3-5) f(4-8)
  proof (elim exE conjE, goal_cases)
    case (1 m1 m2 ch)
    show ?case
      by (rule exI [of _ "(devices ?u ! ?i)\<lparr>ca_major := in_register ie, ca_onetime := True, ca_mbox := m2, ca_channels := ch,
            ca_class := Some (in_class ie)\<rparr>"], rule exI [of _ m1]) (use 1 f in simp)
  qed
qed

lemma device_free_effect:
  "devices (acq200_device_free i v) = (devices v)[i := (devices v ! i)\<lparr>ca_pool := None, ca_csr := null_mapping, ca_freed := True\<rparr>]"
  "k_irqs (acq200_device_free i v) = k_irqs v"
proof -
  have k: "devices (kbuf_free b u) = devices u" "k_irqs (kbuf_free b u) = k_irqs u"
    "devices (remove_dev_sysfs i u) = devices u" "k_irqs (remove_dev_sysfs i u) = k_irqs u" for b u
    by (simp_all add: kbuf_free_def remove_dev_sysfs_def remove_files_def)
  have p: "snd (acq200_pool_delete x) = None" for x by (simp add: acq200_pool_delete_def split: option.split)
  show "devices (acq200_device_free i v) = (devices v)[i := (devices v ! i)\<lparr>ca_pool := None, ca_csr := null_mapping, ca_freed := True\<rparr>]"
    by (cases "i < length (devices v)")
      (simp_all add: acq200_device_free_def acq200_unmap_pci_memory_def clearIoMapping_def Let_def k p list_update_beyond)
  show "k_irqs (acq200_device_free i v) = k_irqs v"
    by (simp add: acq200_device_free_def acq200_unmap_pci_memory_def clearIoMapping_def Let_def k)
qed

text \<open>Removing a card that never took its interrupt.\<close>

lemma remove_effect:
  assumes "i < length (devices v)" "\<forall>c \<in> set (devices v). \<not> ca_freed c" "\<forall>j < i. ca_pci (devices v ! j) \<noteq> ca_pci (devices v ! i)"
  shows "\<exists>v'. acq200_remove irq (ca_pci (devices v ! i)) v = Some v' \<and> length (devices v') = length (devices v) \<and>
     (\<forall>j. j \<noteq> i \<longrightarrow> devices v' ! j = devices v ! j) \<and> ca_freed (devices v' ! i) \<and>
     k_irqs v' = (if using_interrupt (ca_mbox (devices v ! i)) then remove1 (irq, i) (k_irqs v) else k_irqs v)"
proof -
  have "acq200_lookupDevice (ca_pci (devices v ! i)) v = Some (Some i)"
    using by_pci.finds_first [OF assms(1) _ assms(2)] assms(3) by simp
  then show ?thesis
    unfolding acq200_remove_def Let_def using assms(1)
    by (simp add: device_free_effect acq200_remove_sysfs_device_def acq200_remove_sysfs_class_def remove_files_def)
qed

section \<open>An example\<close>

definition example_create :: create_env where
  "example_create = \<lparr>cr_kmalloc = True, cr_llhost_va = 0x9000, cr_llhost_pa = 0x2000, cr_pages = (\<lambda>_. 0x100000), cr_dma_map = (\<lambda>_ _. 0x8000000),
     cr_region = \<lparr>rg_bar = 0xfebc0000, rg_ok = True, rg_va = 0xd000\<rparr>, cr_mailboxes = [0, 0, 0, 0], cr_pool_kmalloc = replicate 5 True\<rparr>"

definition example_init :: init_env where
  "example_init = \<lparr>in_enable = 0, in_devfn = 80, in_register = 251, in_use_interrupts = True, in_irq = 11, in_request_irq = 0,
     in_ints = acking_exchange, in_dmabuf = acking_exchange, in_channels = acking_exchange, in_HZ = 100, in_class = 7\<rparr>"

definition example_driver :: driver where
  "example_driver = \<lparr>devices = [], slots = (\<lambda>_. 0), k_irqs = [], k_chrdevs = [], k_regions = [], k_attrs = [], k_class = [], k_free_pages = []\<rparr>"

lemma acking_rc: "fst (acq200_ioctl_wbr_mbox acking_exchange d mbc) = 0" if "\<not> using_interrupt d"
proof -
  obtain rc d' mbc' where e: "acq200_ioctl_wbr_mbox acking_exchange d mbc = (rc, d', mbc')" by (rule prod_cases3)
  have "\<not> ex_down_interrupted acking_exchange" by (simp add: acking_exchange_def)
  from wbr_cases(4) [OF e this] show ?thesis using that by (simp add: e wbr_wait_def acking_poll)
qed

lemma acking_command:
  "\<not> using_interrupt d \<Longrightarrow> \<exists>d'. acq200_sendCommandA3A4 h acking_exchange d c a3 a4 = (0, d') \<and> \<not> using_interrupt d'"
  "\<not> using_interrupt d \<Longrightarrow> \<exists>d' a b. acq200_getAvailableChannels h acking_exchange d ch = (0, d', a, b)"
proof -
  assume u: "\<not> using_interrupt d"
  have n: "\<not> ex_down_interrupted acking_exchange" by (simp add: acking_exchange_def)
  have "\<exists>d' mbc'. acq200_ioctl_wbr_mbox acking_exchange d mbc = (0, d', mbc') \<and> \<not> using_interrupt d'" for mbc
  proof -
    obtain rc d' mbc' where e: "acq200_ioctl_wbr_mbox acking_exchange d mbc = (rc, d', mbc')" by (rule prod_cases3)
    show ?thesis using wbr_cases(3) [OF e n] acking_rc [OF u, of mbc] u by (simp add: e)
  qed
  then show "\<exists>d'. acq200_sendCommandA3A4 h acking_exchange d c a3 a4 = (0, d') \<and> \<not> using_interrupt d'"
    "\<exists>d' a b. acq200_getAvailableChannels h acking_exchange d ch = (0, d', a, b)"
    unfolding acq200_sendCommandA3A4_def acq200_getAvailableChannels_def acq200_sendQuery_def by (metis (no_types, lifting) old.prod.case surj_pair)+
qed

lemma example_device_init:
  assumes "i < length (devices v)" "\<not> ca_onetime (devices v ! i)" "\<not> using_interrupt (ca_mbox (devices v ! i))" "io_va (ca_csr (devices v ! i)) \<noteq> 0"
  shows "\<exists>v'. acq200_device_init example_init i v = Some (0, v')"
proof -
  let ?c = "devices v ! i"
  obtain m1 where m1: "acq200_sendCommandA3A4 100 acking_exchange (ca_mbox ?c) (BP_SET_FUNCODE BP_FC_SET_HOST_DMABUF OR BP_SET_A1 (of_nat NMAPPINGS))
      (db_pa (ca_dma ?c)) (word_of_int (dma_buf_len (ca_dma ?c))) = (0, m1)" "\<not> using_interrupt m1"
    using acking_command(1) [OF assms(3)] by blast
  obtain m2 a b where m2: "acq200_getAvailableChannels 100 acking_exchange m1 (ca_channels ?c) = (0, m2, a, b)"
    using acking_command(2) [OF m1(2)] by blast
  show ?thesis
    unfolding acq200_device_init_def init_interrupt_command_def init_onetime_def with_mbox_def init_channels_def Let_def
    using assms m1 m2 by (simp add: example_init_def)
qed

lemma example_probe: "\<exists>v'. acq200_probe example_create example_init True 5 example_driver = Some (0, v')"
proof -
  let ?dma = "\<lparr>order = 12, db_va = 0x100000, db_pa = 0x8000000\<rparr> :: DmaBuf"
  have a: "alloc_max_buf (cr_pages example_create) (cr_dma_map example_create) null_buf COMMSBUF_ORDER = Some ?dma"
    by (simp add: alloc_max_buf_def COMMSBUF_ORDER_def example_create_def null_buf_def eval_nat_numeral)
  obtain p rchs where b: "acq200_pool_create (replicate 5 True) 0 ?dma = Some (p, rchs)"
    by (simp add: acq200_pool_create_def create_mappings_def create_handlers_def Let_def)
  let ?c = "(new_card example_create 5 0)\<lparr>ca_dma := ?dma, ca_data := fill_ramp 1 (dma_buf_len ?dma) (\<lambda>_. 0), ca_csr := \<lparr>io_va = 0xd000, io_pa = 0xfebc0000, io_len = CSR_SIZE,
       io_name = ''acq200.'' @ dec_nat 0 @ ''.csr''\<rparr>, ca_pool := Some p, ca_rchs := rchs\<rparr>"
  let ?v = "example_driver\<lparr>k_regions := [(0xfebc0000, CSR_SIZE)], k_attrs := map (Pair 0) pool_attrs, devices := [?c]\<rparr>"
  have c: "acq200_device_create example_create 5 example_driver = Some (0, ?v)"
    unfolding acq200_device_create_def Let_def a
    by (simp add: acq200_map_pci_memory_def acq200_makeIoMapping_def example_create_def example_driver_def b MAXDEV_def new_card_def card_update_def
        PCI_BASE_ADDRESS_MEM_MASK_def null_mapping_def create_dev_sysfs_def create_files_def Let_def)
  show ?thesis
    unfolding acq200_probe_def c bind.simps prod.case
    by (rule example_device_init) (simp_all add: acq200_set_dev_type_def new_card_def)
qed

section \<open>Properties\<close>

text \<open>C17. A successful probe.  The new card is the last entry of the table and carries its number, its major number and its
name; no other card changes.  The card has been told, argument words first and command word last, the bus address and the
length of its communications buffer, and has then been asked for its channels, whose numbers are the answer; the mailbox mutex is
free.  The registers are mapped, the character device and all attribute files exist, and opening the new major number finds
the card, provided the table holds no freed entry and no older card with that number.\<close>

theorem probe_sets_up:
  assumes "acq200_probe ce ie intel pci v = Some (0, v')" and "in_HZ ie < 0x10000"
    and "\<forall>c \<in> set (devices v). \<not> ca_freed c \<and> ca_major c \<noteq> in_register ie"
  shows "\<exists>c. let i = length (devices v) in
      devices v' = devices v @ [c] \<and> i < MAXDEV \<and> ca_idx c = i \<and> ca_pci c = pci \<and> ca_major c = in_register ie \<and>
      ca_onetime c \<and> io_va (ca_csr c) \<noteq> 0 \<and> sem (ca_mbox c) = 1 \<and>
      mbox_writes (ca_mbox c) =
        [(BP_MB_A4, word_of_int (dma_buf_len (ca_dma c))), (BP_MB_A3, db_pa (ca_dma c)),
         (BP_MB_COMMAND, BP_SET_FUNCODE BP_FC_SET_HOST_DMABUF OR BP_SET_A1 (of_nat NMAPPINGS) OR BP_CI_DONE OR BP_CI_COMMAND OR
            of_nat BP_MB_A3 OR of_nat BP_MB_A4),
         (BP_MB_COMMAND, BP_SET_FUNCODE BPFC_GET_NCHANNELS OR BP_CI_QUERY OR BP_CI_DONE)] \<and>
      ca_channels c = (BP_GET_A1 (mbox (ca_mbox c) ! BP_MB_COMMAND), BP_GET_A2 (mbox (ca_mbox c) ! BP_MB_COMMAND)) \<and>
      (in_register ie, ''acq200.'' @ dec_nat i) \<in> set (k_chrdevs v') \<and>
      set (k_attrs v') = set (k_attrs v) \<union> Pair i ` set (pool_attrs @ device_attrs @ class_attrs) \<and>
      acq200_lookup_device (in_register ie) v' = Some i"
proof -
  let ?i = "length (devices v)"
  obtain c m1 where p: "devices v' = devices v @ [c]" "?i < MAXDEV" "ca_idx c = ?i" "ca_pci c = pci"
      "ca_name c = ''acq200.'' @ dec_nat ?i" "ca_major c = in_register ie" "ca_onetime c" "\<not> ca_freed c" "io_va (ca_csr c) \<noteq> 0"
      "k_chrdevs v' = (in_register ie, ca_name c) # k_chrdevs v" "k_attrs v' = k_attrs v @ map (Pair ?i) (pool_attrs @ device_attrs @ class_attrs)"
    and m1: "acq200_sendCommandA3A4 (in_HZ ie) (in_dmabuf ie) (ca_mbox (new_card ce pci ?i))
        (BP_SET_FUNCODE BP_FC_SET_HOST_DMABUF OR BP_SET_A1 (of_nat NMAPPINGS)) (db_pa (ca_dma c)) (word_of_int (dma_buf_len (ca_dma c))) = (0, m1)"
    and m2: "acq200_getAvailableChannels (in_HZ ie) (in_channels ie) m1 (0, 0) = (0, ca_mbox c, ca_channels c)"
    using probe_effect [OF assms(1)] unfolding Let_def by blast
  note w = dmabuf_command_writes [OF m1 assms(2)] channels_query [OF m2 assms(2)]
  have "acq200_lookup_device (in_register ie) v' = Some ?i"
    unfolding acq200_lookup_device_def
    using by_major.finds_first [of ?i v' "in_register ie"] assms(3) p by (auto simp: nth_append)
  moreover have "ca_mbox (new_card ce pci ?i) = \<lparr>mbox = cr_mailboxes ce, mbox_writes = [], sem = 1, using_interrupt = False, mb_response_received = False\<rparr>"
    by (simp add: new_card_def)
  ultimately show ?thesis
    unfolding Let_def by (intro exI [of _ c]) (use p w in \<open>auto simp: or.assoc\<close>)
qed

theorem probe_sets_up_witness:
  "\<exists>v' c. acq200_probe example_create example_init True 5 example_driver = Some (0, v') \<and> devices v' = [c] \<and>
     ca_major c = 251 \<and> map fst (mbox_writes (ca_mbox c)) = [BP_MB_A4, BP_MB_A3, BP_MB_COMMAND, BP_MB_COMMAND] \<and>
     acq200_lookup_device 251 v' = Some 0"
proof -
  obtain v' where p: "acq200_probe example_create example_init True 5 example_driver = Some (0, v')"
    using example_probe by blast
  show ?thesis
    using probe_sets_up [OF p] p unfolding Let_def by (auto simp: example_init_def example_driver_def)
qed

text \<open>Removing a card leaves the table as it was, with the entry now pointing to freed memory: the search that opening a
device makes runs into it for every major number that no earlier card has, so with several cards, removing one makes every
later one impossible to open without reading freed memory.\<close>

theorem remove_leaves_dangling:
  assumes "i < length (devices v)" "\<forall>c \<in> set (devices v). \<not> ca_freed c" "\<forall>j < i. ca_pci (devices v ! j) \<noteq> ca_pci (devices v ! i)"
  shows "\<exists>v'. acq200_remove irq (ca_pci (devices v ! i)) v = Some v' \<and> length (devices v') = length (devices v) \<and>
     (\<forall>major. (\<forall>j < i. ca_major (devices v ! j) \<noteq> major) \<longrightarrow> acq200_lookup_device major v' = None)"
proof -
  obtain v' where r: "acq200_remove irq (ca_pci (devices v ! i)) v = Some v'" "length (devices v') = length (devices v)"
    "\<forall>j. j \<noteq> i \<longrightarrow> devices v' ! j = devices v ! j" "ca_freed (devices v' ! i)"
    using remove_effect [OF assms, of irq] by blast
  have "acq200_lookup_device major v' = None" if "\<forall>j < i. ca_major (devices v ! j) \<noteq> major" for major
    unfolding acq200_lookup_device_def using by_major.stopped_by_freed [of i v' major] r(2-4) assms(1) that by simp
  then show ?thesis using r(1,2) by blast
qed

theorem remove_leaves_dangling_witness:
  "\<exists>v v'. length (devices v) = 2 \<and> acq200_lookup_device 252 v = Some 1 \<and> acq200_remove 11 5 v = Some v' \<and> acq200_lookup_device 252 v' = None"
proof -
  let ?a = "(new_card example_create 5 0)\<lparr>ca_major := 251\<rparr>" and ?b = "(new_card example_create 6 1)\<lparr>ca_major := 252\<rparr>"
  let ?v = "example_driver\<lparr>devices := [?a, ?b]\<rparr>"
  have "\<exists>v'. acq200_remove 11 (ca_pci (devices ?v ! 0)) ?v = Some v' \<and> length (devices v') = length (devices ?v) \<and>
     (\<forall>major. (\<forall>j < 0. ca_major (devices ?v ! j) \<noteq> major) \<longrightarrow> acq200_lookup_device major v' = None)"
    by (rule remove_leaves_dangling) (simp_all add: new_card_def)
  then obtain v' where r: "acq200_remove 11 (ca_pci (devices ?v ! 0)) ?v = Some v'" "acq200_lookup_device 252 v' = None" by auto
  have "ca_pci (devices ?v ! 0) = 5" "acq200_lookup_device 252 ?v = Some 1"
    by (simp_all add: new_card_def acq200_lookup_device_def search_major_def)
  then show ?thesis using r by (intro exI [of _ ?v] exI [of _ v']) simp
qed

text \<open>The interrupt handler that a successful probe installs is never taken out again: nothing sets the flag by which removal
decides to free it, so after probe and removal the kernel still holds a handler whose device has been freed.\<close>

theorem probe_irq_never_freed:
  assumes "acq200_probe ce ie intel pci v = Some (0, v')" "in_HZ ie < 0x10000" "in_use_interrupts ie" "in_irq ie \<noteq> 0"
    and "\<forall>c \<in> set (devices v). \<not> ca_freed c \<and> ca_pci c \<noteq> pci"
  shows "\<exists>v''. acq200_remove (in_irq ie) pci v' = Some v'' \<and>
     (in_irq ie, length (devices v)) \<in> set (k_irqs v'') \<and> ca_freed (devices v'' ! length (devices v))"
proof -
  let ?i = "length (devices v)"
  obtain c m1 where p: "devices v' = devices v @ [c]" "ca_pci c = pci" "\<not> ca_freed c" "k_irqs v' = [(in_irq ie, ?i)] @ k_irqs v"
    and m1: "acq200_sendCommandA3A4 (in_HZ ie) (in_dmabuf ie) (ca_mbox (new_card ce pci ?i))
        (BP_SET_FUNCODE BP_FC_SET_HOST_DMABUF OR BP_SET_A1 (of_nat NMAPPINGS)) (db_pa (ca_dma c)) (word_of_int (dma_buf_len (ca_dma c))) = (0, m1)"
    and m2: "acq200_getAvailableChannels (in_HZ ie) (in_channels ie) m1 (0, 0) = (0, ca_mbox c, ca_channels c)"
    using probe_effect [OF assms(1)] assms(3,4) unfolding Let_def by auto
  have "\<not> using_interrupt (ca_mbox c)"
    using dmabuf_command_writes(3) [OF m1 assms(2)] channels_query(3) [OF m2 assms(2)] by (simp add: new_card_def)
  moreover have "\<forall>j < ?i. ca_pci (devices v' ! j) \<noteq> ca_pci (devices v' ! ?i)" "\<forall>c \<in> set (devices v'). \<not> ca_freed c"
    using assms(5) p by (auto simp: nth_append)
  ultimately show ?thesis
    using remove_effect [of ?i v' "in_irq ie"] p by auto
qed

theorem probe_irq_never_freed_witness:
  "\<exists>v' v''. acq200_probe example_create example_init True 5 example_driver = Some (0, v') \<and> acq200_remove 11 5 v' = Some v'' \<and>
     (11, 0) \<in> set (k_irqs v'') \<and> ca_freed (devices v'' ! 0)"
proof -
  obtain v' where p: "acq200_probe example_create example_init True 5 example_driver = Some (0, v')"
    using example_probe by blast
  show ?thesis
    using probe_irq_never_freed [OF p] p by (auto simp: example_init_def example_driver_def)
qed

end
