(* ===== verification/Sysfs.thy ===== *)
theory Sysfs
  imports Devices
begin

text \<open>
  The attribute files of a card (\<^verbatim>\<open>src/acq200_if.c\<close>): what a read returns.  A result is \<open>None\<close> for an access to freed memory or through
  a null pointer, an error number on the left, or the text on the right.
\<close>

section \<open>Operations\<close>

definition show_card :: "(card \<Rightarrow> string) \<Rightarrow> nat \<Rightarrow> driver \<Rightarrow> (int + string) option" where
  "show_card f dev v =
     (case acq200_lookupDevice dev v of
        None \<Rightarrow> None
      | Some None \<Rightarrow> Some (Inl (- ENODEV))
      | Some (Some i) \<Rightarrow> Some (Inr (f (devices v ! i))))"

definition dec_line :: "int \<Rightarrow> string" where "dec_line i = dec_str i @ [CHR 0x0A]"
definition hex_line :: "u32 \<Rightarrow> string" where "hex_line w = ''0x'' @ hex8 w @ [CHR 0x0A]"

text \<open>\<open>s1\<close>, \<open>s2\<close> and \<open>s3\<close> are the status mailbox at the looks the heartbeat takes.\<close>

definition show_heartbeat :: "u32 \<Rightarrow> u32 \<Rightarrow> u32 \<Rightarrow> nat \<Rightarrow> driver \<Rightarrow> (int + string) option" where
  "show_heartbeat s1 s2 s3 = show_card (\<lambda>device. dec_line (sint (acq200_getHeartbeat s1 s2 s3)))"

definition show_cpci_slot :: "u32 \<Rightarrow> nat \<Rightarrow> driver \<Rightarrow> (int + string) option" where
  "show_cpci_slot devfn = show_card (\<lambda>device. dec_line (acq200_get_cpci_slot devfn))"

text \<open>\<open>down_trylock\<close> answers zero when it took the semaphore, which is then given back.\<close>

definition down_trylock :: "int \<Rightarrow> int \<times> int" where
  "down_trylock count = (if 0 < count then (0, count - 1) else (1, count))"

definition busy_probe :: "int \<Rightarrow> int \<times> int" where
  "busy_probe count = (let (rc, c1) = down_trylock count in (rc, if rc = 0 then c1 + 1 else c1))"

definition show_buffer_AB_busy_mutex :: "nat \<Rightarrow> driver \<Rightarrow> ((int + string) \<times> driver) option" where
  "show_buffer_AB_busy_mutex dev v =
     (case acq200_lookupDevice dev v of
        None \<Rightarrow> None
      | Some None \<Rightarrow> Some (Inl (- ENODEV), v)
      | Some (Some i) \<Rightarrow>
          let (rc, count) = busy_probe (ca_busy (devices v ! i))
          in Some (Inr (dec_line rc), card_update i (\<lambda>c. c\<lparr>ca_busy := count\<rparr>) v))"

definition show_interrupt_count :: "nat \<Rightarrow> driver \<Rightarrow> (int + string) option" where
  "show_interrupt_count = show_card (\<lambda>device. dec_str (ca_irqs device ! 0) @ '' '' @ dec_str (ca_irqs device ! 1) @ '' '' @
     dec_line (ca_irqs device ! 2))"

definition show_host_pa :: "nat \<Rightarrow> driver \<Rightarrow> (int + string) option" where
  "show_host_pa = show_card (\<lambda>device. hex_line (db_pa (ca_dma device)))"

definition show_host_len :: "nat \<Rightarrow> driver \<Rightarrow> (int + string) option" where
  "show_host_len = show_card (\<lambda>device. dec_line (dma_buf_len (ca_dma device)))"

definition show_llhost_pa :: "nat \<Rightarrow> driver \<Rightarrow> (int + string) option" where
  "show_llhost_pa = show_card (\<lambda>device. hex_line (db_pa (ca_llhost device)))"

definition show_llhost_len :: "nat \<Rightarrow> driver \<Rightarrow> (int + string) option" where
  "show_llhost_len = show_card (\<lambda>device. dec_line (dma_buf_len (ca_llhost device)))"

definition show_available_input_channels :: "nat \<Rightarrow> driver \<Rightarrow> (int + string) option" where
  "show_available_input_channels = show_card (\<lambda>device. dec_line (sint (fst (ca_channels device))))"

definition show_available_output_channels :: "nat \<Rightarrow> driver \<Rightarrow> (int + string) option" where
  "show_available_output_channels = show_card (\<lambda>device. dec_line (sint (snd (ca_channels device))))"

text \<open>
  \<open>snprintf\<close> stores at most \<open>maxbuf\<close> characters, the terminating zero included, and returns the length the whole text would have.
  \<open>fmt_p\<close> is the kernel's pointer format.
\<close>

definition pad_left :: "nat \<Rightarrow> string \<Rightarrow> string" where "pad_left n s = replicate (n - length s) CHR '' '' @ s"

definition dump_text :: "(int \<Rightarrow> string) \<Rightarrow> DmaBuf \<Rightarrow> string \<Rightarrow> string" where
  "dump_text fmt_p b name = pad_left 10 name @ '':'' @ dec_nat (order b) @ '' '' @ fmt_p (db_va b) @ '' 0x'' @ hex8 (db_pa b) @ '' len '' @
     dec_line (dma_buf_len b)"

definition dumpDmaBuf :: "(int \<Rightarrow> string) \<Rightarrow> DmaBuf \<Rightarrow> nat \<Rightarrow> string \<Rightarrow> string \<times> nat" where
  "dumpDmaBuf fmt_p b maxbuf name = (let t = dump_text fmt_p b name in (take (maxbuf - 1) t @ [CHR 0x00], length t))"

definition write_at :: "nat \<Rightarrow> string \<Rightarrow> string \<Rightarrow> string" where
  "write_at off t page = take off page @ t @ drop (off + length t) page"

definition dump_at :: "(int \<Rightarrow> string) \<Rightarrow> DmaBuf \<Rightarrow> string \<Rightarrow> string \<times> nat \<Rightarrow> string \<times> nat" where
  "dump_at fmt_p b name s =
     (let (page, cc) = s; (t, n) = dumpDmaBuf fmt_p b 80 name in (write_at cc t page, cc + n))"

text \<open>The device is not tested for null here.  The page is \<open>page\<close>; the text is its first \<open>cc\<close> characters.\<close>

definition show_buffers :: "(int \<Rightarrow> string) \<Rightarrow> string \<Rightarrow> nat \<Rightarrow> driver \<Rightarrow> (int + string) option" where
  "show_buffers fmt_p page dev v =
     (case acq200_lookupDevice dev v of
        Some (Some i) \<Rightarrow>
          let d = devices v ! i;
              s1 = dump_at fmt_p (ca_dma d) ''dma_buf'' (page, 0);
              s2 = (if db_va (ca_AB d ! 0) \<noteq> 0 then dump_at fmt_p (ca_AB d ! 0) ''buffer A'' s1 else s1);
              s3 = (if db_va (ca_AB d ! 1) \<noteq> 0 then dump_at fmt_p (ca_AB d ! 1) ''buffer B'' s2 else s2)
          in Some (Inr (take (snd s3) (fst s3)))
      | _ \<Rightarrow> None)"

definition show_dev :: "nat \<Rightarrow> driver \<Rightarrow> (int + string) option" where
  "show_dev dev v =
     (case acq200_lookupDeviceFromClass dev v of
        None \<Rightarrow> None
      | Some None \<Rightarrow> Some (Inl (- ENODEV))
      | Some (Some i) \<Rightarrow> Some (Inr (dec_str (ca_major (devices v ! i)) @ '':'' @ dec_line 0)))"

section \<open>Reading the files back\<close>

lemma newline_no_digit: "digit_val 10 CHR 0x0A = None" "digit_val 16 CHR 0x0A = None"
  by (simp_all add: digit_val_def code_def)

lemma atoi_dec_line: "atoi (dec_line i) = i"
  unfolding dec_line_def by (rule atoi_dec_str_stop) (simp add: newline_no_digit)

lemma digit_val_hex: "n < 16 \<Longrightarrow> digit_val 16 (hex_digit n) = Some n"
  by (auto simp: digit_val_def hex_digit_def code_def)

lemma digits_hex:
  "digits 16 acc (map (\<lambda>i. hex_digit (x div 16 ^ i mod 16)) (rev [0..<n])) = acc * 16 ^ n + x mod 16 ^ n"
proof (induction n arbitrary: acc)
  case (Suc n)
  have "x mod 16 ^ Suc n = x div 16 ^ n mod 16 * 16 ^ n + x mod 16 ^ n"
    unfolding power_Suc2 mod_mult2_eq [of x "16 ^ n" 16] by simp
  then show ?case using Suc by (simp add: digit_val_hex algebra_simps)
qed simp

lemma hex8_digits: "digits 16 0 (hex8 w) = unat w"
proof -
  have "unat (drop_bit (4 * i) w AND 0xf) = unat w div 16 ^ i mod 16" for i
  proof -
    have "(0xf :: u32) = mask 4" by (simp add: mask_eq_exp_minus_1)
    then have "drop_bit (4 * i) w AND 0xf = take_bit 4 (drop_bit (4 * i) w)"
      by (simp only: take_bit_eq_mask)
    then have "unat (drop_bit (4 * i) w AND 0xf) = unat (take_bit 4 (drop_bit (4 * i) w))" by (rule arg_cong)
    also have "\<dots> = take_bit 4 (unat (drop_bit (4 * i) w))" by (simp add: unsigned_take_bit_eq)
    also have "unat (drop_bit (4 * i) w) = drop_bit (4 * i) (unat w)" by (simp add: unat_drop_bit_eq)
    also have "\<dots> = unat w div 16 ^ i" by (simp add: drop_bit_eq_div power_mult)
    finally show ?thesis by (simp add: take_bit_eq_mod)
  qed
  moreover have "unat w < 16 ^ 8" using unsigned_less [of w] by simp
  ultimately show ?thesis
    using digits_hex [of 0 "unat w" 8] by (simp only: hex8_def mult_zero_left add_0 mod_less)
qed

lemma strtoul0_hex_line: "strtoul0 (hex_line w) = w"
proof -
  have "dropWhile is_space (hex_line w) = hex_line w" by (simp add: hex_line_def is_space_def)
  moreover have "digits 16 0 (hex8 w @ [CHR 0x0A]) = unat w"
    using digits_end [OF newline_no_digit(2)] hex8_digits by simp
  ultimately show ?thesis by (simp add: strtoul0_def hex_line_def)
qed

section \<open>The buffer listing\<close>

text \<open>A buffer of at most \<open>2^12\<close> pages, with an address printed in at most eighteen characters, fills less than eighty.\<close>

lemma dump_text_short:
  assumes "order b \<le> 12" "length (fmt_p (db_va b)) \<le> 18" "length name \<le> 10"
  shows "length (dump_text fmt_p b name) < 80"
proof -
  have "(2 :: int) ^ order b \<le> 2 ^ 12" using assms(1) by (intro power_increasing) auto
  then have len: "0 \<le> dma_buf_len b" "dma_buf_len b < 10 ^ 8" by (simp_all add: dma_buf_len_def PAGE_SIZE_def)
  then have "length (dec_nat (nat (dma_buf_len b))) \<le> 8" by (intro length_dec_nat) auto
  then have "length (dec_line (dma_buf_len b)) \<le> 9" using len by (simp add: dec_line_def dec_str_def)
  moreover have "length (dec_nat (order b)) \<le> 2" using assms(1) by (intro length_dec_nat) auto
  ultimately show ?thesis using assms(2,3) by (simp add: dump_text_def pad_left_def hex8_def)
qed

lemma dump_at_short:
  assumes "length (dump_text fmt_p b name) < 80" "take cc page = done" "length done = cc" "cc + 80 \<le> length page"
  shows "\<exists>page'. dump_at fmt_p b name (page, cc) = (page', cc + length (dump_text fmt_p b name)) \<and> length page' = length page \<and>
    take (cc + length (dump_text fmt_p b name)) page' = done @ dump_text fmt_p b name"
  using assms by (simp add: dump_at_def dumpDmaBuf_def write_at_def Let_def)

section \<open>Properties\<close>

text \<open>What a client reads from the attribute files of a card is the card's data: the number parsed from the address files is
the bus address of the buffer, the one from the length files its length, and the channel files give the
numbers the card answered.\<close>

theorem sysfs_reads_back:
  assumes "acq200_lookupDevice dev v = Some (Some i)"
  shows "let c = devices v ! i in
    (\<exists>pa len lpa llen ich och.
       show_host_pa dev v = Some (Inr pa) \<and> strtoul0 pa = db_pa (ca_dma c) \<and>
       show_host_len dev v = Some (Inr len) \<and> atoi len = dma_buf_len (ca_dma c) \<and>
       show_llhost_pa dev v = Some (Inr lpa) \<and> strtoul0 lpa = db_pa (ca_llhost c) \<and>
       show_llhost_len dev v = Some (Inr llen) \<and> atoi llen = dma_buf_len (ca_llhost c) \<and>
       show_available_input_channels dev v = Some (Inr ich) \<and> atoi ich = sint (fst (ca_channels c)) \<and>
       show_available_output_channels dev v = Some (Inr och) \<and> atoi och = sint (snd (ca_channels c)))"
  using assms
  by (simp add: show_host_pa_def show_host_len_def show_llhost_pa_def show_llhost_len_def show_available_input_channels_def
      show_available_output_channels_def show_card_def strtoul0_hex_line atoi_dec_line)

theorem sysfs_reads_back_witness:
  "\<exists>v pa len. show_host_pa 5 v = Some (Inr pa) \<and> strtoul0 pa = 0x8000000 \<and> show_host_len 5 v = Some (Inr len) \<and> atoi len = 0x1000000"
proof -
  let ?v = "example_driver\<lparr>devices := [(new_card example_create 5 0)\<lparr>ca_dma := \<lparr>order = 12, db_va = 0x100000, db_pa = 0x8000000\<rparr>\<rparr>]\<rparr>"
  have "acq200_lookupDevice 5 ?v = Some (Some 0)" by (simp add: acq200_lookupDevice_def new_card_def)
  from sysfs_reads_back [OF this] show ?thesis
    by (intro exI [of _ ?v]) (auto simp: Let_def dma_buf_len_def PAGE_SIZE_def)
qed

text \<open>The listing of the buffers never runs together or loses text: with the buffers the driver allocates every line is shorter
than the eighty characters reserved for it, so the file holds exactly the line of the communications buffer followed by
the lines of those stream buffers that are allocated, and no more than its page.\<close>

theorem show_buffers_lines:
  assumes "acq200_lookupDevice dev v = Some (Some i)" "\<forall>p. length (fmt_p p) \<le> 18" "length page = 4096"
    and "order (ca_dma (devices v ! i)) \<le> 12" "order (ca_AB (devices v ! i) ! 0) \<le> 12" "order (ca_AB (devices v ! i) ! 1) \<le> 12"
  shows "let c = devices v ! i; line = (\<lambda>b name. if db_va b \<noteq> 0 then dump_text fmt_p b name else []) in
     show_buffers fmt_p page dev v =
       Some (Inr (dump_text fmt_p (ca_dma c) ''dma_buf'' @ line (ca_AB c ! 0) ''buffer A'' @ line (ca_AB c ! 1) ''buffer B''))"
proof -
  let ?c = "devices v ! i"
  let ?t0 = "dump_text fmt_p (ca_dma ?c) ''dma_buf''" and ?tA = "dump_text fmt_p (ca_AB ?c ! 0) ''buffer A''"
    and ?tB = "dump_text fmt_p (ca_AB ?c ! 1) ''buffer B''"
  have s: "length ?t0 < 80" "length ?tA < 80" "length ?tB < 80" using assms by (auto intro!: dump_text_short)
  obtain p1 where p1: "dump_at fmt_p (ca_dma ?c) ''dma_buf'' (page, 0) = (p1, length ?t0)" "length p1 = 4096" "take (length ?t0) p1 = ?t0"
    using dump_at_short [OF s(1), of 0 page "[]"] assms(3) by auto
  obtain p2 where p2: "dump_at fmt_p (ca_AB ?c ! 0) ''buffer A'' (p1, length ?t0) = (p2, length ?t0 + length ?tA)" "length p2 = 4096"
      "take (length ?t0 + length ?tA) p2 = ?t0 @ ?tA"
    using dump_at_short [OF s(2) p1(3)] p1(2) s by auto
  obtain p3 where p3: "dump_at fmt_p (ca_AB ?c ! 1) ''buffer B'' (p1, length ?t0) = (p3, length ?t0 + length ?tB)"
      "take (length ?t0 + length ?tB) p3 = ?t0 @ ?tB"
    using dump_at_short [OF s(3) p1(3)] p1(2) s by auto
  obtain p4 where p4: "dump_at fmt_p (ca_AB ?c ! 1) ''buffer B'' (p2, length ?t0 + length ?tA) = (p4, length ?t0 + length ?tA + length ?tB)"
      "take (length ?t0 + length ?tA + length ?tB) p4 = (?t0 @ ?tA) @ ?tB"
    using dump_at_short [OF s(3) p2(3)] p2(2) s by auto
  show ?thesis
    unfolding show_buffers_def assms(1) Let_def using p1 p2 p3 p4 by simp
qed

theorem show_buffers_lines_witness:
  "let c = (new_card example_create 5 0)\<lparr>ca_dma := \<lparr>order = 12, db_va = 0x100000, db_pa = 0x8000000\<rparr>\<rparr>; v = example_driver\<lparr>devices := [c]\<rparr> in
    show_buffers (\<lambda>_. replicate 16 CHR ''0'') (replicate 4096 CHR 0x00) 5 v =
      Some (Inr (dump_text (\<lambda>_. replicate 16 CHR ''0'') (ca_dma c) ''dma_buf''))"
proof -
  let ?c = "(new_card example_create 5 0)\<lparr>ca_dma := \<lparr>order = 12, db_va = 0x100000, db_pa = 0x8000000\<rparr>\<rparr>"
  let ?v = "example_driver\<lparr>devices := [?c]\<rparr>"
  have l: "acq200_lookupDevice 5 ?v = Some (Some 0)" by (simp add: acq200_lookupDevice_def new_card_def)
  show ?thesis
    using show_buffers_lines [OF l, of "\<lambda>_. replicate 16 CHR ''0''" "replicate 4096 CHR 0x00"]
    by (simp add: Let_def new_card_def null_buf_def)
qed

text \<open>Looking at the busy flag of the stream buffers leaves the driver as it was and tells one exactly when the
semaphore is taken.\<close>

theorem busy_file_harmless:
  assumes "acq200_lookupDevice dev v = Some (Some i)"
  shows "show_buffer_AB_busy_mutex dev v = Some (Inr (dec_line (if 0 < ca_busy (devices v ! i) then 0 else 1)), v)"
proof -
  have "i < length (devices v)"
    using by_pci.found_alive [OF assms] by blast
  then show ?thesis
    using assms by (simp add: show_buffer_AB_busy_mutex_def busy_probe_def down_trylock_def card_update_def)
qed

theorem busy_file_harmless_witness:
  "\<exists>v. acq200_lookupDevice 5 v = Some (Some 0) \<and> show_buffer_AB_busy_mutex 5 v = Some (Inr (dec_line 0), v)"
proof -
  let ?v = "example_driver\<lparr>devices := [new_card example_create 5 0]\<rparr>"
  have l: "acq200_lookupDevice 5 ?v = Some (Some 0)" by (simp add: acq200_lookupDevice_def new_card_def)
  with busy_file_harmless [OF l] show ?thesis by (intro exI [of _ ?v]) (simp add: new_card_def)
qed

end
