(* ===== verification/Kernel_Log.thy ===== *)
theory Kernel_Log
  imports Sysfs
begin

text \<open>
  The driver's messages to the kernel log: the macros of \<^verbatim>\<open>src/acq200_debug.h\<close> and the places that format data with them,
  \<open>acq200_mbox_dbg\<close> of \<^verbatim>\<open>src/acq200.c\<close> with the mailbox calls that use it, \<open>dumpHrd\<close> of \<^verbatim>\<open>src/acq200_i2o.c\<close>, and two functions that do
  nothing but log.  The log is a list of a level and a text per line.  The name of the function in which a macro is expanded is the argument
  \<open>FN\<close>; a format with its arguments is the text; the kernel's rate limiter is an argument of the macro that asks it.
\<close>

section \<open>Macros\<close>

type_synonym klog = "(nat \<times> string) list"

definition KERN_ALERT :: nat where "KERN_ALERT = 1"
definition KERN_CRIT :: nat where "KERN_CRIT = 2"
definition KE :: nat where "KE = 3"
definition KW :: nat where "KW = 4"
definition KERN_NOTICE :: nat where "KERN_NOTICE = 5"
definition KI :: nat where "KI = 6"
definition KERN_DEBUG :: nat where "KERN_DEBUG = 7"
definition KD :: nat where "KD = KI"

lemmas kern_levels = KERN_ALERT_def KERN_CRIT_def KE_def KW_def KERN_NOTICE_def KI_def KERN_DEBUG_def KD_def

definition eol :: string where "eol = [CHR 0x0A]"

definition printk :: "nat \<Rightarrow> string \<Rightarrow> klog" where "printk level text = [(level, text)]"

definition T_log :: "string \<Rightarrow> klog" where "T_log text = printk KERN_DEBUG (''acq200_core:'' @ text)"
definition E_log :: "string \<Rightarrow> klog" where "E_log text = printk KERN_NOTICE (''acq200_core:'' @ text)"

definition LOCAL_DEBUG :: int where "LOCAL_DEBUG = 0"

definition DBG_FIRED :: "int \<Rightarrow> int \<Rightarrow> bool" where
  "DBG_FIRED acq200_debug lvl \<longleftrightarrow> lvl \<le> acq200_debug \<or> lvl \<le> LOCAL_DEBUG"

definition kdbg :: "int \<Rightarrow> bool \<Rightarrow> int \<Rightarrow> string \<Rightarrow> string \<Rightarrow> klog" where
  "kdbg acq200_debug printk_ratelimit lvl FN text =
     (if DBG_FIRED acq200_debug lvl \<and> printk_ratelimit then printk KD (FN @ '': '' @ text @ eol) else [])"

definition kerr :: "string \<Rightarrow> string \<Rightarrow> klog" where "kerr FN text = printk KE (''ERROR:'' @ FN @ '': '' @ text @ eol)"
definition kinfo :: "string \<Rightarrow> string \<Rightarrow> klog" where "kinfo FN text = printk KI (FN @ '': '' @ text @ eol)"
definition kwarn :: "string \<Rightarrow> string \<Rightarrow> klog" where "kwarn FN text = printk KW (FN @ '': '' @ text @ eol)"

text \<open>An assertion: what is logged, and whether the code goes on; \<open>BUG()\<close> does not return.\<close>

definition kassert :: "string \<Rightarrow> nat \<Rightarrow> string \<Rightarrow> bool \<Rightarrow> klog \<times> bool" where
  "kassert FILE LINE expr p =
     (if \<not> p then (printk KERN_CRIT (''BUG at '' @ FILE @ '':'' @ dec_nat LINE @ '' assert('' @ expr @ '')'' @ eol), False) else ([], True))"

definition MARK :: "string \<Rightarrow> nat \<Rightarrow> string \<Rightarrow> klog" where
  "MARK FILE LINE FN = printk KI (FILE @ '':'' @ dec_nat LINE @ '' '' @ FN @ '' MARK'' @ eol)"

definition DMARK :: "int \<Rightarrow> bool \<Rightarrow> string \<Rightarrow> nat \<Rightarrow> string \<Rightarrow> klog" where
  "DMARK acq200_debug ratelimit FILE LINE FN = kdbg acq200_debug ratelimit 1 FN (FILE @ '':'' @ dec_nat LINE @ '' '' @ FN @ '' DMARK'' @ eol)"

section \<open>Users\<close>

definition disable_local_APIC :: klog where
  "disable_local_APIC = kerr ''disable_local_APIC'' '' function not supported by this kernel''"

definition hello_exit :: klog where "hello_exit = printk KERN_ALERT (''Ciao'' @ eol)"

definition MBX_READ :: bool where "MBX_READ = True"

definition acq200_mbox_dbg :: "MailboxControl \<Rightarrow> bool \<Rightarrow> klog" where
  "acq200_mbox_dbg mbc rd =
     (let regs = (if rd then mbxr mbc else mbxw mbc);
          m = (if rd then MBC_FROM_MBXR mbc else MBC_FROM_MBXW mbc)
      in kinfo ''acq200_mbox_dbg'' (pad_left 5 (if rd then ''READ'' else ''WRITE'') @ '': ['' @ hex_nat (unat m) @ ''] '' @
           hex8 (regs ! 0) @ '' '' @ hex8 (regs ! 1) @ '' '' @ hex8 (regs ! 2) @ '' '' @ hex8 (regs ! 3)))"

text \<open>The log of a mailbox exchange: the values to write before the registers are written, the values read after they were read; nothing when
the wait for the mutex is interrupted.\<close>

definition wbr_log :: "int \<Rightarrow> exchange \<Rightarrow> mbox_dev \<Rightarrow> MailboxControl \<Rightarrow> klog" where
  "wbr_log acq200_debug_mbox x device mbc =
     (if acq200_debug_mbox = 0 \<or> ex_down_interrupted x then []
      else acq200_mbox_dbg mbc (\<not> MBX_READ) @ acq200_mbox_dbg (snd (snd (acq200_ioctl_wbr_mbox x device mbc))) MBX_READ)"

definition dumpHrd :: "int \<Rightarrow> bool \<Rightarrow> string \<Rightarrow> HOST_REQUEST_DATA_RECORD \<Rightarrow> klog" where
  "dumpHrd acq200_debug ratelimit name hrd =
     kdbg acq200_debug ratelimit 1 ''dumpHrd'' (pad_left 10 name @ '' c:'' @ pad_left 2 (dec_nat (unat (hrd_chan hrd AND 0x3f))) @ '' '' @
       hex_nat (unat (hrd_chan hrd)) @ '' pci:'' @ hex8 (hrd_pci hrd) @ '' start:'' @ dec_str (sint (hrd_start hrd)) @
       '' n:'' @ dec_str (sint (hrd_nsamples hrd)) @ '' s:'' @ dec_nat (unat (hrd_stride hrd)) @ eol)"

section \<open>Properties\<close>

text \<open>Which messages appear.  Errors, warnings and notes always do, one line each, the graver ones at the smaller number; a debug message
appears at the level of a note if its level is reached and the rate limiter lets it pass, never more often with a lower setting, and not at all
for positive levels in a driver loaded with the default; an assertion logs and stops exactly if it fails.\<close>

theorem log_discipline:
  "map fst (kerr FN t @ kwarn FN t @ kinfo FN t) = [3, 4, 6] \<and>
   map fst (kdbg d limit lvl FN t) = (if (lvl \<le> d \<or> lvl \<le> 0) \<and> limit then [6] else []) \<and>
   (d \<le> d' \<longrightarrow> set (kdbg d limit lvl FN t) \<subseteq> set (kdbg d' limit lvl FN t)) \<and> (0 < lvl \<longrightarrow> kdbg 0 limit lvl FN t = []) \<and>
   (snd (kassert file line e p) \<longleftrightarrow> p) \<and> map fst (fst (kassert file line e p)) = (if p then [] else [2])"
  by (auto simp: kerr_def kwarn_def kinfo_def kdbg_def printk_def DBG_FIRED_def LOCAL_DEBUG_def kassert_def kern_levels)

theorem log_discipline_witness:
  "kdbg 0 True 1 ''f'' ''x'' = [] \<and> set (kdbg 1 True 2 ''f'' ''x'') \<subseteq> set (kdbg 2 True 2 ''f'' ''x'') \<and>
   kdbg 2 True 2 ''f'' ''x'' = [(6, ''f: x'' @ [CHR 0x0A])]"
  using log_discipline [of "''f''" "''x''" 0 True 1 0 "[]" 0 "[]" True] log_discipline [of "''f''" "''x''" 1 True 2 2 "[]" 0 "[]" True]
  by (simp add: kdbg_def printk_def DBG_FIRED_def LOCAL_DEBUG_def kern_levels eol_def)

text \<open>The four register values of a logged transaction, read back from the end of the line.\<close>

definition logged_regs :: "string \<Rightarrow> u32 list" where
  "logged_regs line = map (\<lambda>i. of_nat (digits 16 0 (take 8 (drop (length line - 36 + 9 * i) line)))) [0..<4]"

lemma length_hex8 [simp]: "length (hex8 w) = 8" by (simp add: hex8_def)

lemma logged_regs_line:
  "logged_regs (pre @ hex8 a @ '' '' @ hex8 b @ '' '' @ hex8 c @ '' '' @ hex8 d @ eol) = [a, b, c, d]"
  by (simp add: logged_regs_def eol_def upt_rec hex8_digits)

text \<open>The trace of a mailbox exchange is true: with the tracing switched on an exchange that gets the mutex logs two lines.  The words of the first
are the words the client asked to write, those selected by the mask being the ones that reach the registers, in descending order; the words
of the second are what the client gets back.\<close>

theorem mailbox_trace:
  assumes "acq200_ioctl_wbr_mbox x d mbc = (rc, d', mbc')" "\<not> ex_down_interrupted x" "acq200_debug_mbox \<noteq> 0"
    "length (mbxw mbc) = 4" "length (mbxr mbc) = 4"
  shows "\<exists>w r. wbr_log acq200_debug_mbox x d mbc = [(6, w), (6, r)] \<and> logged_regs w = mbxw mbc \<and> logged_regs r = mbxr mbc' \<and>
    mbox_writes d' = mbox_writes d @ map (\<lambda>i. (i, logged_regs w ! i)) (filter (\<lambda>i. bit (mbc_flags mbc) (16 + i)) [3, 2, 1, 0])"
proof -
  note f = wbr_cases [OF assms(1,2)]
  have four: "[xs ! 0, xs ! 1, xs ! 2, xs ! 3] = xs" if "length xs = 4" for xs :: "u32 list"
    using that by (auto simp: list_eq_iff_nth_eq less_Suc_eq numeral_eq_Suc nth_Cons')
  have l: "length (mbxr mbc') = 4" unfolding f(6) using assms(5) by (simp add: length_read_boxes)
  have line: "\<exists>w. acq200_mbox_dbg m rd = [(6, w)] \<and> logged_regs w = (let v = (if rd then mbxr m else mbxw m) in [v ! 0, v ! 1, v ! 2, v ! 3])" for m rd
    unfolding acq200_mbox_dbg_def kinfo_def printk_def Let_def
    using logged_regs_line [of "''acq200_mbox_dbg: '' @ pad_left 5 (if rd then ''READ'' else ''WRITE'') @ '': ['' @
      hex_nat (unat (if rd then MBC_FROM_MBXR m else MBC_FROM_MBXW m)) @ ''] ''"]
    by (simp add: KI_def)
  obtain w where w: "acq200_mbox_dbg mbc False = [(6, w)]" "logged_regs w = mbxw mbc" using line [of mbc False] four [OF assms(4)] by auto
  obtain r where r: "acq200_mbox_dbg mbc' True = [(6, r)]" "logged_regs r = mbxr mbc'" using line [of mbc' True] four [OF l] by auto
  have "wbr_log acq200_debug_mbox x d mbc = [(6, w), (6, r)]"
    using assms(1-3) w(1) r(1) by (simp add: wbr_log_def MBX_READ_def)
  with w(2) r(2) f(1) show ?thesis by (auto simp: selected_writes_4)
qed

theorem mailbox_trace_witness:
  "let x = \<lparr>ex_down_interrupted = False, ex_wait = 0, ex_cmd = (\<lambda>_. 0), ex_late = (\<lambda>_. True), ex_card = (\<lambda>m. m[3 := 0xabcd])\<rparr>;
       d = \<lparr>mbox = [0, 0, 0, 0], mbox_writes = [], sem = 1, using_interrupt = True, mb_response_received = False\<rparr>;
       mbc = \<lparr>mbc_flags = 0x850005, mbxw = [0x11, 0x22, 0x33, 0x44], mbxr = [0, 0, 0, 0]\<rparr> in
   \<exists>w r. wbr_log 1 x d mbc = [(6, w), (6, r)] \<and> logged_regs w = [0x11, 0x22, 0x33, 0x44] \<and> logged_regs r = [0, 0, 0, 0xabcd]"
proof -
  let ?x = "\<lparr>ex_down_interrupted = False, ex_wait = 0, ex_cmd = (\<lambda>_. 0), ex_late = (\<lambda>_. True), ex_card = (\<lambda>m. m[3 := 0xabcd])\<rparr> :: exchange"
  let ?d = "\<lparr>mbox = [0, 0, 0, 0], mbox_writes = [], sem = 1, using_interrupt = True, mb_response_received = False\<rparr> :: mbox_dev"
  let ?m = "\<lparr>mbc_flags = 0x850005, mbxw = [0x11, 0x22, 0x33, 0x44], mbxr = [0, 0, 0, 0]\<rparr>"
  obtain rc d' mbc' where e: "acq200_ioctl_wbr_mbox ?x ?d ?m = (rc, d', mbc')" by (metis surj_pair)
  have b: "MBC_FROM_MBXR ?m = 8" "MBC_FROM_MBXW ?m = 5"
    by (simp_all add: MBC_FROM_MBXR_def MBC_FROM_MBXW_def MBC_FLAGS_MBXR_def MBC_FLAGS_MBXW_def)
  have four: "read_boxes 4 = read_boxes (Suc (Suc (Suc (Suc 0))))" "write_boxes 4 = write_boxes (Suc (Suc (Suc (Suc 0))))"
    by (simp_all add: eval_nat_numeral)
  have "mbxr mbc' = [0, 0, 0, 0xabcd]"
    using wbr_cases(5,6) [OF e] by (simp add: b four MBOX_WRITE_def)
  with mailbox_trace [OF e, of 1] show ?thesis by (auto simp: Let_def)
qed

end
