(* ===== verification/Pool_Listing.thy ===== *)
theory Pool_Listing
  imports Sysfs
begin

text \<open>
  The attribute files of the pools (\<^verbatim>\<open>src/acq200_bigbuf_alloc.c\<close>): the state of every pool entry, and the list of outstanding
  return command handlers.  How an address is printed is an argument for every kind of object.
\<close>

record fmt_ptr =
  fp_mapping :: "nat \<Rightarrow> string"
  fp_rch :: "nat \<Rightarrow> string"
  fp_handler :: "rch_handler option \<Rightarrow> string"
  fp_kbuf :: "kbuf_ptr option \<Rightarrow> string"
  fp_path :: "nat option \<Rightarrow> string"

definition dec2 :: "nat \<Rightarrow> string" where "dec2 n = pad_left 2 (dec_nat n)"

definition entry_line :: "(nat \<Rightarrow> string) \<Rightarrow> Pool \<Rightarrow> nat \<Rightarrow> string" where
  "entry_line fmt p ii = ''['' @ dec2 ii @ ''] '' @ (if ii = cursor p then ''*'' else '' '') @ '' '' @ fmt (item (entries p ! ii)) @ '' '' @
     dec_str (if reserved (entries p ! ii) then 1 else 0)"

definition mapping_line :: "fmt_ptr \<Rightarrow> Pool \<Rightarrow> nat \<Rightarrow> string" where
  "mapping_line f p ii = entry_line (fp_mapping f) p ii @ [CHR 0x0A]"

definition handler_line :: "fmt_ptr \<Rightarrow> Pool \<Rightarrow> ReturnCommandHandler list \<Rightarrow> nat \<Rightarrow> string" where
  "handler_line f p rs ii =
     (let rch = rs ! item (entries p ! ii)
      in entry_line (fp_rch f) p ii @ '' hdlr:'' @ fp_handler f (handler rch) @ '' kbuf '' @ fp_kbuf f (kbuf (rchReturn rch)) @ '' valid '' @
         dec_line (valid (rchReturn rch)))"

text \<open>The pool of the device is read before the device is tested for null, so an unknown device is an oops here.\<close>

definition show_pool :: "fmt_ptr \<Rightarrow> nat \<Rightarrow> driver \<Rightarrow> string option" where
  "show_pool f dev v =
     (case acq200_lookupDevice dev v of
        Some (Some i) \<Rightarrow>
          (case ca_pool (devices v ! i) of
             None \<Rightarrow> None
           | Some bb \<Rightarrow>
               Some (''MAPPINGS'' @ [CHR 0x0A] @
                 concat (map (mapping_line f (mappings bb)) [0..<max_entries (mappings bb)]) @ ''HANDLERS'' @ [CHR 0x0A] @
                 concat (map (handler_line f (handlers bb) (ca_rchs (devices v ! i))) [0..<max_entries (handlers bb)])))
      | _ \<Rightarrow> None)"

text \<open>The list belongs to the transport state of the device; \<open>None\<close> is a device that is not found.\<close>

definition rch_line :: "fmt_ptr \<Rightarrow> ReturnCommandHandler list \<Rightarrow> nat \<Rightarrow> string" where
  "rch_line f rs r =
     (let rch = rs ! r
      in fp_rch f r @ '' hdlr:'' @ fp_handler f (handler rch) @ '' kbuf '' @ fp_kbuf f (kbuf (rchReturn rch)) @ '' valid '' @
         dec_str (valid (rchReturn rch)) @ '' path '' @ fp_path f (rch_path rch) @ [CHR 0x0A])"

definition show_rch_list :: "fmt_ptr \<Rightarrow> i2o_dev option \<Rightarrow> string" where
  "show_rch_list f dev =
     (case dev of
        None \<Rightarrow> ''ERROR: device not found'' @ [CHR 0x0A]
      | Some d \<Rightarrow> ''RCH LISTING'' @ [CHR 0x0A] @ concat (map (rch_line f (rchs d)) (rch_list d)))"

section \<open>Lemmas\<close>

text \<open>Addresses of at most eighteen characters, as the kernel prints them.\<close>

definition short_ptrs :: "fmt_ptr \<Rightarrow> bool" where
  "short_ptrs f \<longleftrightarrow> (\<forall>x. length (fp_mapping f x) \<le> 18) \<and> (\<forall>x. length (fp_rch f x) \<le> 18) \<and> (\<forall>x. length (fp_handler f x) \<le> 18) \<and>
     (\<forall>x. length (fp_kbuf f x) \<le> 18) \<and> (\<forall>x. length (fp_path f x) \<le> 18)"

definition flag_value :: "int \<Rightarrow> bool" where "flag_value x \<longleftrightarrow> x = - 1 \<or> x = 0 \<or> x = 1"

lemma length_flag: "flag_value x \<Longrightarrow> length (dec_str x) \<le> 2"
  by (auto simp: flag_value_def dec_str_def dec_nat.simps)

lemma length_concat_le: "\<forall>x \<in> set xs. length (g x) \<le> n \<Longrightarrow> length (concat (map g xs)) \<le> n * length xs"
  by (induction xs) (auto simp: algebra_simps intro: add_mono)

lemma length_entry:
  assumes "\<forall>x. length (fmt x) \<le> 18" "ii < 100"
  shows "length (entry_line fmt p ii) \<le> 27"
proof -
  have "length (dec_nat ii) \<le> 2" using assms(2) by (intro length_dec_nat) auto
  moreover have "length (dec_str (if reserved (entries p ! ii) then 1 else 0)) \<le> 1" by (simp add: dec_str_def dec_nat.simps)
  ultimately show ?thesis
    using spec [OF assms(1), of "item (entries p ! ii)"] unfolding entry_line_def dec2_def pad_left_def
    by (cases "ii = cursor p") simp_all
qed

lemma length_handler:
  assumes "short_ptrs f" "ii < 100" "flag_value (valid (rchReturn (rs ! item (entries p ! ii))))"
  shows "length (handler_line f p rs ii) \<le> 85"
proof -
  let ?r = "rs ! item (entries p ! ii)"
  have "length (entry_line (fp_rch f) p ii) \<le> 27" using assms(1,2) by (intro length_entry) (auto simp: short_ptrs_def)
  moreover have "length (fp_handler f (handler ?r)) \<le> 18" "length (fp_kbuf f (kbuf (rchReturn ?r))) \<le> 18"
    using assms(1) by (auto simp: short_ptrs_def)
  ultimately show ?thesis using length_flag [OF assms(3)] by (simp add: handler_line_def dec_line_def Let_def)
qed

lemma length_rch:
  assumes "short_ptrs f" "flag_value (valid (rchReturn (rs ! r)))"
  shows "length (rch_line f rs r) \<le> 100"
proof -
  have "length (fp_rch f r) \<le> 18" "length (fp_handler f (handler (rs ! r))) \<le> 18" "length (fp_kbuf f (kbuf (rchReturn (rs ! r)))) \<le> 18"
    "length (fp_path f (rch_path (rs ! r))) \<le> 18"
    using assms(1) by (auto simp: short_ptrs_def)
  then show ?thesis using length_flag [OF assms(2)] by (simp add: rch_line_def Let_def)
qed

section \<open>Properties\<close>

text \<open>The listings fit the page they are printed into without a check of its size: with the four mappings and sixteen
handlers of a pool, and for a handler list that keeps the invariant of the transport, they stay below 4096 characters.\<close>

theorem show_pool_fits:
  assumes "show_pool f dev v = Some t" "acq200_lookupDevice dev v = Some (Some i)" "ca_pool (devices v ! i) = Some bb" "short_ptrs f"
    and "max_entries (mappings bb) = NMAPPINGS" "max_entries (handlers bb) = NHANDLERS"
    and "\<forall>r \<in> set (ca_rchs (devices v ! i)). flag_value (valid (rchReturn r))"
    and "\<forall>e < NHANDLERS. item (entries (handlers bb) ! e) < length (ca_rchs (devices v ! i))"
  shows "length t < 4096"
proof -
  let ?m = "concat (map (mapping_line f (mappings bb)) [0..<NMAPPINGS])"
    and ?h = "concat (map (handler_line f (handlers bb) (ca_rchs (devices v ! i))) [0..<NHANDLERS])"
  have "length t = 18 + length ?m + length ?h" using assms(1-3,5,6) by (auto simp: show_pool_def)
  moreover have "length ?m \<le> 28 * length [0..<NMAPPINGS]"
    using length_entry [of "fp_mapping f" _ "mappings bb"] assms(4)
    by (intro length_concat_le) (auto simp: mapping_line_def short_ptrs_def NMAPPINGS_def)
  moreover have "length ?h \<le> 85 * length [0..<NHANDLERS]"
    using assms(4,7,8) by (intro length_concat_le ballI length_handler) (auto simp: NHANDLERS_def)
  ultimately show ?thesis by (simp add: NMAPPINGS_def NHANDLERS_def)
qed

theorem show_rch_list_fits:
  assumes "i2o_inv d" "length (rchs d) = NHANDLERS" "\<forall>r \<in> set (rchs d). flag_value (valid (rchReturn r))" "short_ptrs f"
  shows "length (show_rch_list f (Some d)) < 4096"
proof -
  have r: "distinct (rch_list d)" "\<forall>r \<in> set (rch_list d). r < length (rchs d)"
    using assms(1) by (auto simp: i2o_inv_def rch_inv_def linked_ok_def)
  then have "set (rch_list d) \<subseteq> {0..<NHANDLERS}" using assms(2) by auto
  then have "length (rch_list d) \<le> NHANDLERS"
    using card_mono [of "{0..<NHANDLERS}" "set (rch_list d)"] distinct_card [OF r(1)] by simp
  moreover have "length (concat (map (rch_line f (rchs d)) (rch_list d))) \<le> 100 * length (rch_list d)"
    using assms(3,4) r(2) by (intro length_concat_le ballI length_rch) auto
  ultimately show ?thesis by (simp add: show_rch_list_def NHANDLERS_def)
qed

end
