(* ===== verification/Imask.thy ===== *)
theory Imask
  imports Irq_Mask
begin

text \<open>
  The interrupt mask of a device (\<open>acq200_intsMask\<close>, \<open>acq200_bkl\<close> of \<^verbatim>\<open>src/acq200_utils.c\<close>)
  and the \<open>imask\<close> attribute that drives it (\<^verbatim>\<open>src/acq200_if.c\<close>).  \<open>NR_IRQS\<close> is a constant of the
  kernel the driver is built for, so it is an argument; \<open>imask\<close> and \<open>imask_a\<close> are the arrays of the
  device structure, of \<open>NR_IRQS/4+1\<close> bytes.  \<open>acq200_bkl\<close> takes a spinlock: taking it while it is
  held never returns, which is \<open>None\<close> here.
\<close>

section \<open>State\<close>

record imask_dev =
  imask :: string
  imask_a :: "u8 list"
  bkl_lock :: bool
  bkl_is_locked :: int

definition NUL :: char where "NUL = CHR 0x00"

definition cstr :: "string \<Rightarrow> string" where
  "cstr arr = takeWhile (\<lambda>c. c \<noteq> NUL) arr"

definition strlen :: "string \<Rightarrow> nat" where
  "strlen arr = length (cstr arr)"

text \<open>\<open>strncpy\<close> of a string without its terminator: \<open>n\<close> bytes, padded with zeros.\<close>

definition strncpy :: "string \<Rightarrow> string \<Rightarrow> nat \<Rightarrow> string" where
  "strncpy dst src n = take n (src @ replicate n NUL) @ drop n dst"

definition strncmp_eq :: "string \<Rightarrow> string \<Rightarrow> nat \<Rightarrow> bool" where
  "strncmp_eq s t n \<longleftrightarrow> take n s = take n t"

section \<open>Masking by hexadecimal digits\<close>

definition char_code :: "char \<Rightarrow> nat" where "char_code c = of_char c"

definition isxdigit :: "char \<Rightarrow> bool" where
  "isxdigit c \<longleftrightarrow> (48 \<le> char_code c \<and> char_code c \<le> 57) \<or> (65 \<le> char_code c \<and> char_code c \<le> 70)
     \<or> (97 \<le> char_code c \<and> char_code c \<le> 102)"

definition xdigit_value :: "char \<Rightarrow> nat" where
  "xdigit_value c =
     (if char_code c \<le> 57 then char_code c - 48
      else if char_code c \<le> 70 then char_code c - 55 else char_code c - 87)"

text \<open>\<open>simple_strtoul\<close> base 16 of a one-character string: 0 when the character is no digit.\<close>

definition get_mask :: "char \<Rightarrow> u32" where
  "get_mask mdef = (if isxdigit mdef then of_nat (xdigit_value mdef) else 0)"

primrec intsMask_bits :: "int \<Rightarrow> u32 \<Rightarrow> u32 list \<Rightarrow> u32 \<Rightarrow> int \<Rightarrow> u32 \<times> int \<times> irq_call list" where
  "intsMask_bits debug new_mask [] active_mask irq = (active_mask, irq, [])"
| "intsMask_bits debug new_mask (b # bs) active_mask irq =
     (let (active1, calls) =
        (if 2 < debug then (active_mask, [])
         else if new_mask AND b \<noteq> 0 then (active_mask OR b, [DisableIrq irq])
         else if active_mask AND b \<noteq> 0 then (active_mask AND NOT b, [EnableIrq irq])
         else (active_mask, []));
        (active2, irq2, calls2) = intsMask_bits debug new_mask bs active1 (irq + 1)
      in (active2, irq2, calls @ calls2))"

text \<open>The outer loop; its first argument is \<open>ia + 1\<close>.\<close>

fun intsMask_loop :: "int \<Rightarrow> string \<Rightarrow> nat \<Rightarrow> int \<Rightarrow> int \<Rightarrow> u8 list \<Rightarrow> u8 list \<times> irq_call list" where
  "intsMask_loop debug im 0 inew irq act = (act, [])"
| "intsMask_loop debug im (Suc ia) inew irq act =
     (let new_mask = (if 0 \<le> inew then get_mask (im ! nat inew) else 0);
          (active_mask, irq1, calls) =
            intsMask_bits debug new_mask [0x1, 0x2, 0x4, 0x8] (ucast (act ! ia)) irq;
          (act2, calls2) =
            intsMask_loop debug im ia (inew - 1) irq1 (act[ia := ucast active_mask])
      in (act2, calls @ calls2))"

definition acq200_intsMask :: "nat \<Rightarrow> int \<Rightarrow> imask_dev \<Rightarrow> int \<times> imask_dev \<times> irq_call list" where
  "acq200_intsMask NR_IRQS debug device =
     (let (act, calls) =
        intsMask_loop debug (imask device) (NR_IRQS div 4) (int (strlen (imask device)) - 1) 0
          (imask_a device)
      in (0, device\<lparr>imask_a := act\<rparr>, calls))"

section \<open>The lock and the attribute\<close>

definition BKL_LOCK :: int where "BKL_LOCK = 1"
definition BKL_UNLOCK :: int where "BKL_UNLOCK = 0"
definition BKL_QUERY :: int where "BKL_QUERY = -1"

definition acq200_bkl :: "imask_dev \<Rightarrow> int \<Rightarrow> (int \<times> imask_dev) option" where
  "acq200_bkl device bkl_action =
     (if bkl_action = BKL_LOCK then
        (if bkl_lock device then None
         else Some (1, device\<lparr>bkl_lock := True, bkl_is_locked := 1\<rparr>))
      else if bkl_action = BKL_UNLOCK then
        Some (0, device\<lparr>bkl_lock := False, bkl_is_locked := 0\<rparr>)
      else Some (bkl_is_locked device, device))"

text \<open>The backward loop that cuts the mask at its non-digits.\<close>

primrec imask_clean :: "nat \<Rightarrow> string \<Rightarrow> string" where
  "imask_clean 0 im = im"
| "imask_clean (Suc ic) im =
     imask_clean ic (if \<not> isxdigit (im ! ic) then im[ic := NUL] else im)"

datatype imask_event = LocalApicOff | IrqCall irq_call

definition show_imask :: "imask_dev option \<Rightarrow> int + string" where
  "show_imask dev = (case dev of Some device \<Rightarrow> Inr (cstr (imask device) @ [CHR 0x0A]) | None \<Rightarrow> Inl (- ENODEV))"

definition store_imask ::
  "nat \<Rightarrow> int \<Rightarrow> imask_dev option \<Rightarrow> string \<Rightarrow> (int \<times> imask_dev option \<times> imask_event list) option"
where
  "store_imask NR_IRQS debug dev buf =
     (case dev of
        None \<Rightarrow> Some (- ENODEV, None, [])
      | Some device \<Rightarrow>
          if strncmp_eq buf ''LAPIC'' 5 then Some (int (strlen buf), Some device, [LocalApicOff])
          else if strncmp_eq buf ''LOC'' 3 then
            do { (rc, d) \<leftarrow> acq200_bkl device BKL_LOCK; Some (int (strlen buf), Some d, []) }
          else do {
            (locked, d0) \<leftarrow> (if strncmp_eq buf ''000'' 3 then acq200_bkl device BKL_QUERY else Some (0, device));
            if locked \<noteq> 0 then
              do { (rc, d) \<leftarrow> acq200_bkl d0 BKL_UNLOCK; Some (int (strlen buf), Some d, []) }
            else
              let im = strncpy (imask d0) buf (NR_IRQS div 4);
                  (rc, d, calls) = acq200_intsMask NR_IRQS debug (d0\<lparr>imask := imask_clean (strlen im) im\<rparr>)
              in Some (int (strlen buf), Some d, map IrqCall calls) })"

section \<open>Which lines an update touches\<close>

text \<open>
  Digit \<open>k\<close> of the mask, counted from its right end at index \<open>inew\<close>; the request for line \<open>j\<close> and
  the nibble that remembers whether the driver has the line disabled.
\<close>

definition digit_mask :: "string \<Rightarrow> int \<Rightarrow> nat \<Rightarrow> u32" where
  "digit_mask im inew k = (if int k \<le> inew then get_mask (im ! nat (inew - int k)) else 0)"

definition requested :: "string \<Rightarrow> int \<Rightarrow> nat \<Rightarrow> bool" where
  "requested im inew j = bit (digit_mask im inew (j div 4)) (j mod 4)"

definition active_line :: "u8 list \<Rightarrow> nat \<Rightarrow> nat \<Rightarrow> bool" where
  "active_line act n j = bit (act ! (n - 1 - j div 4)) (j mod 4)"

definition line_calls :: "bool \<Rightarrow> bool \<Rightarrow> int \<Rightarrow> irq_call list" where
  "line_calls req act irq = (if req then [DisableIrq irq] else if act then [EnableIrq irq] else [])"

lemma intsMask_bits_range:
  assumes "debug \<le> 2" "a \<le> b" "b \<le> 32"
  shows "intsMask_bits debug m (map (\<lambda>j. push_bit j 1) [a..<b]) act irq = (act2, irq2, calls) \<Longrightarrow>
    irq2 = irq + int (b - a) \<and> (\<forall>k. bit act2 k = (if a \<le> k \<and> k < b then bit m k else bit act k)) \<and>
    calls = concat (map (\<lambda>j. line_calls (bit m j) (bit act j) (irq + int (j - a))) [a..<b])"
  using assms(2,3)
proof (induction "b - a" arbitrary: a act irq act2 irq2 calls)
  case 0
  then have "b = a" by simp
  with 0 show ?case by auto
next
  case (Suc d)
  then have ab: "a < b" "a < 32" "[a..<b] = a # [Suc a..<b]" by (auto simp: upt_conv_Cons)
  define act1 where "act1 = (if bit m a then act OR push_bit a 1
      else if bit act a then act AND NOT (push_bit a 1) else act)"
  obtain act3 irq3 calls3 where r:
    "intsMask_bits debug m (map (\<lambda>j. push_bit j 1) [Suc a..<b]) act1 (irq + 1) = (act3, irq3, calls3)"
    by (metis prod_cases3)
  have b1: "bit act1 k = (if k = a then bit m a else bit act k)" for k
    using ab(2) by (auto simp: act1_def bit_simps dest: bit_imp_le_length)
  have ih: "irq3 = irq + 1 + int (b - Suc a)"
    "\<forall>k. bit act3 k = (if Suc a \<le> k \<and> k < b then bit m k else bit act1 k)"
    "calls3 = concat (map (\<lambda>j. line_calls (bit m j) (bit act1 j) (irq + 1 + int (j - Suc a))) [Suc a..<b])"
    using Suc.hyps(1) [OF _ r] Suc.hyps(2) ab Suc.prems by auto
  have s: "act2 = act3" "irq2 = irq3"
    "calls = line_calls (bit m a) (bit act a) irq @ calls3"
    using Suc.prems(1) r assms(1) and_single_bit [OF ab(2), of m] and_single_bit [OF ab(2), of act]
    by (auto simp: ab(3) act1_def line_calls_def Let_def split: if_splits)
  have e: "calls3 = concat (map (\<lambda>j. line_calls (bit m j) (bit act j) (irq + int (j - a))) [Suc a..<b])"
    unfolding ih(3) by (intro arg_cong [of _ _ concat] map_cong) (auto simp: b1 of_nat_diff)
  show ?case
    using ab Suc.prems unfolding s e ab(3) by (auto simp: ih(1,2) b1)
qed

lemma intsMask_nibble:
  assumes "debug \<le> 2" "intsMask_bits debug m [0x1, 0x2, 0x4, 0x8] act irq = (act2, irq2, calls)"
  shows "irq2 = irq + 4" "bit act2 k = (if k < 4 then bit m k else bit act k)"
    "calls = concat (map (\<lambda>j. line_calls (bit m j) (bit act j) (irq + int j)) [0..<4])"
proof -
  have "map (\<lambda>j. push_bit j (1::u32)) [0..<4] = [0x1, 0x2, 0x4, 0x8]"
    by (simp add: upt_rec)
  with assms intsMask_bits_range [OF assms(1), of 0 4 m act irq act2 irq2 calls]
  show "irq2 = irq + 4" "bit act2 k = (if k < 4 then bit m k else bit act k)"
    "calls = concat (map (\<lambda>j. line_calls (bit m j) (bit act j) (irq + int j)) [0..<4])"
    by auto
qed

lemma upt_four_Suc: "[0..<4 * Suc n] = [0..<4] @ map ((+) 4) [0..<4 * n]"
proof -
  have "map ((+) 4) [0..<4 * n] = map (\<lambda>i. i + 4) [0..<4 * n]" by simp
  then show ?thesis
    using upt_add_eq_append [of 0 4 "4 * n"] map_add_upt [of 4 "4 * n"] by (simp add: add.commute)
qed

lemma line_shift:
  "requested im inew (4 + j) = requested im (inew - 1) j"
  "active_line xs (Suc n) (4 + j) = active_line xs n j"
proof -
  have sh: "(4 + j) div 4 = Suc (j div 4)" "(4 + j) mod 4 = j mod 4" by auto
  show "requested im inew (4 + j) = requested im (inew - 1) j"
    unfolding requested_def sh by (auto simp: digit_mask_def diff_diff_eq)
  show "active_line xs (Suc n) (4 + j) = active_line xs n j" unfolding active_line_def sh by simp
qed

lemma line_first:
  assumes "j < 4"
  shows "requested im inew j = bit (digit_mask im inew 0) j" "active_line xs (Suc n) j = bit (xs ! n) j"
  using assms by (auto simp: requested_def active_line_def)

lemma active_line_update:
  "j < 4 * n \<Longrightarrow> active_line (act[n := w]) n j = active_line act n j"
  by (auto simp: active_line_def nth_list_update)

lemma intsMask_loop_lines:
  assumes "debug \<le> 2"
  shows "n \<le> length act \<Longrightarrow> intsMask_loop debug im n inew irq act = (act2, calls) \<Longrightarrow>
    length act2 = length act \<and> (\<forall>i. n \<le> i \<longrightarrow> act2 ! i = act ! i) \<and>
    (\<forall>j < 4 * n. active_line act2 n j = requested im inew j) \<and>
    calls = concat (map (\<lambda>j. line_calls (requested im inew j) (active_line act n j) (irq + int j)) [0..<4 * n])"
proof (induction n arbitrary: inew irq act act2 calls)
  case 0
  then show ?case by simp
next
  case (Suc n)
  let ?m = "digit_mask im inew 0"
  obtain a1 i1 c1 where b: "intsMask_bits debug ?m [0x1, 0x2, 0x4, 0x8] (ucast (act ! n)) irq = (a1, i1, c1)"
    by (metis prod_cases3)
  let ?act = "act[n := ucast a1]"
  obtain a2 c2 where l: "intsMask_loop debug im n (inew - 1) (irq + 4) ?act = (a2, c2)"
    by (metis surj_pair)
  note nib = intsMask_nibble [OF assms b]
  have ih: "length a2 = length act" "\<And>i. n \<le> i \<Longrightarrow> a2 ! i = ?act ! i"
    "\<And>j. j < 4 * n \<Longrightarrow> active_line a2 n j = requested im (inew - 1) j"
    "c2 = concat (map (\<lambda>j. line_calls (requested im (inew - 1) j) (active_line ?act n j) (irq + 4 + int j)) [0..<4 * n])"
    using Suc.IH [OF _ l] Suc.prems(1) by auto
  have m: "(if 0 \<le> inew then get_mask (im ! nat inew) else 0) = ?m"
    by (simp add: digit_mask_def)
  have r: "act2 = a2" "calls = c1 @ c2"
    using Suc.prems(2) l nib(1) unfolding intsMask_loop.simps(2) m Let_def b by auto
  have "active_line act2 (Suc n) j = requested im inew j" if "j < 4 * Suc n" for j
  proof (cases "j < 4")
    case True
    have "act2 ! n = ucast a1" using ih(2) [of n] Suc.prems(1) by (simp add: r)
    with True show ?thesis by (auto simp: line_first nib(2) bit_simps)
  next
    case False
    then have "j = 4 + (j - 4)" "j - 4 < 4 * n" using that by auto
    then obtain j' where "j = 4 + j'" "j' < 4 * n" by blast
    then show ?thesis using ih(3) by (simp only: r line_shift)
  qed
  moreover have "calls = concat (map (\<lambda>j. line_calls (requested im inew j) (active_line act (Suc n) j) (irq + int j)) [0..<4 * Suc n])"
    unfolding upt_four_Suc map_append concat_append map_map comp_def line_shift r ih(4) nib(3)
    by (intro arg_cong2 [of _ _ _ _ "(@)"] arg_cong [of _ _ concat] map_cong)
      (auto simp: line_first active_line_update bit_simps algebra_simps)
  ultimately show ?case
    using ih(1,2) by (auto simp: r)
qed

section \<open>The mask as a hexadecimal number\<close>

definition hexval :: "string \<Rightarrow> nat" where
  "hexval s = foldl (\<lambda>v c. 16 * v + xdigit_value c) 0 s"

lemma xdigit_value_less: "isxdigit c \<Longrightarrow> xdigit_value c < 16"
  by (auto simp: isxdigit_def xdigit_value_def)

lemma bit_nibble_step:
  assumes "x < 16"
  shows "bit (16 * a + x :: nat) j = (if j < 4 then bit x j else bit a (j - 4))"
proof (cases "j < 4")
  case True
  have "take_bit 4 (16 * a + x) = x" using assms by (simp add: take_bit_eq_mod)
  with True show ?thesis by (metis bit_take_bit_iff)
next
  case False
  have "drop_bit 4 (16 * a + x) = a" using assms by (simp add: drop_bit_eq_div)
  moreover have "4 + (j - 4) = j" using False by simp
  ultimately show ?thesis using False by (metis bit_drop_bit_eq comp_apply)
qed

lemma bit_hexval:
  "list_all isxdigit s \<Longrightarrow>
   bit (hexval s) j \<longleftrightarrow> j div 4 < length s \<and> bit (xdigit_value (s ! (length s - 1 - j div 4))) (j mod 4)"
proof (induction s arbitrary: j rule: rev_induct)
  case Nil
  then show ?case by (simp add: hexval_def)
next
  case (snoc c s)
  then have c: "xdigit_value c < 16" by (simp add: xdigit_value_less)
  have h: "hexval (s @ [c]) = 16 * hexval s + xdigit_value c" by (simp add: hexval_def)
  show ?case
  proof (cases "j < 4")
    case True
    then show ?thesis unfolding h bit_nibble_step [OF c] by simp
  next
    case False
    then have j: "j div 4 = Suc ((j - 4) div 4)" "(j - 4) mod 4 = j mod 4"
      using le_div_geq [of 4 j] le_mod_geq [of 4 j] by auto
    have "(s @ [c]) ! (length s - j div 4) = s ! (length s - 1 - (j - 4) div 4)" if "j div 4 \<le> length s"
      using that j(1) by (auto simp: nth_append)
    then show ?thesis
      using False snoc by (auto simp: h bit_nibble_step [OF c] j)
  qed
qed

lemma bit_get_mask: "isxdigit c \<Longrightarrow> j < 4 \<Longrightarrow> bit (get_mask c) j = bit (xdigit_value c) j"
  by (simp add: get_mask_def bit_simps)

lemma requested_hexval:
  assumes "list_all isxdigit (cstr im)"
  shows "requested im (int (strlen im) - 1) j = bit (hexval (cstr im)) j"
proof -
  have im: "im ! k = cstr im ! k" "isxdigit (cstr im ! k)" if "k < strlen im" for k
    using that assms by (auto simp: cstr_def strlen_def list_all_length takeWhile_nth)
  have "nat (int (strlen im) - 1 - int k) = strlen im - 1 - k" for k
    by linarith
  then show ?thesis
    using im bit_hexval [OF assms, of j]
    by (auto simp: requested_def digit_mask_def bit_get_mask strlen_def)
qed

section \<open>Storing a mask\<close>

lemma imask_clean_map:
  "n \<le> length im \<Longrightarrow>
   imask_clean n im = map (\<lambda>c. if isxdigit c then c else NUL) (take n im) @ drop n im"
proof (induction n arbitrary: im)
  case (Suc n)
  then have "im[n := c] = take n im @ c # drop (Suc n) im" for c
    by (simp add: upd_conv_take_nth_drop)
  with Suc show ?case
    by (auto simp: take_Suc_conv_app_nth Cons_nth_drop_Suc [symmetric])
qed simp

lemma not_isxdigit_NUL [simp]: "\<not> isxdigit NUL"
  by (simp add: isxdigit_def NUL_def char_code_def)

lemma takeWhile_clean:
  "takeWhile (\<lambda>c. c \<noteq> NUL) (map (\<lambda>c. if isxdigit c then c else NUL) xs) = takeWhile isxdigit xs"
  by (induction xs) auto

lemma strlen_bound: "strlen im \<le> length im"
  by (simp add: strlen_def cstr_def length_takeWhile_le)

lemma take_strlen: "take (strlen im) im = cstr im"
  by (simp add: strlen_def cstr_def takeWhile_eq_take [symmetric])

lemma drop_strlen: "drop (strlen im) im = [] \<or> hd (drop (strlen im) im) = NUL"
  using hd_dropWhile [of "\<lambda>c. c \<noteq> NUL" im] by (auto simp: strlen_def cstr_def dropWhile_eq_drop [symmetric])

lemma cstr_clean: "cstr (imask_clean (strlen im) im) = takeWhile isxdigit (cstr im)"
proof -
  let ?xs = "map (\<lambda>c. if isxdigit c then c else NUL) (cstr im)"
  have "imask_clean (strlen im) im = ?xs @ drop (strlen im) im"
    using imask_clean_map [OF strlen_bound] by (simp add: take_strlen)
  moreover have "takeWhile (\<lambda>c. c \<noteq> NUL) (?xs @ drop (strlen im) im) = takeWhile (\<lambda>c. c \<noteq> NUL) ?xs"
  proof (cases "drop (strlen im) im")
    case (Cons c cs)
    with drop_strlen [of im] have "c = NUL" by simp
    with Cons show ?thesis using takeWhile_tail [of "\<lambda>c. c \<noteq> NUL" NUL ?xs cs] by simp
  qed simp
  ultimately show ?thesis
    unfolding takeWhile_clean by (simp add: cstr_def)
qed

lemma length_clean [simp]: "length (imask_clean n im) = length im"
  by (induction n arbitrary: im) auto

lemma cstr_strncpy:
  assumes "length dst = Suc n" "dst ! n = NUL"
  shows "cstr (strncpy dst src n) = take n (cstr src)"
    "length (strncpy dst src n) = Suc n" "strncpy dst src n ! n = NUL"
proof -
  have d: "drop n dst = [NUL]"
    using assms by (metis Cons_nth_drop_Suc drop_all lessI order_refl)
  have "takeWhile (\<lambda>c. c \<noteq> NUL) (take n (src @ replicate n NUL) @ [NUL]) =
      take n (takeWhile (\<lambda>c. c \<noteq> NUL) src)"
  proof (induction src arbitrary: n)
    case Nil
    then show ?case by (cases n) auto
  next
    case (Cons c src)
    have "takeWhile (\<lambda>c. c \<noteq> NUL) (take k (src @ replicate (Suc k) NUL) @ [NUL]) =
        takeWhile (\<lambda>c. c \<noteq> NUL) (take k (src @ replicate k NUL) @ [NUL])" for k
      by (simp add: replicate_append_same [symmetric])
    with Cons show ?case by (cases n) auto
  qed
  then show "cstr (strncpy dst src n) = take n (cstr src)"
    by (simp add: cstr_def strncpy_def d)
qed (use assms in \<open>auto simp: strncpy_def nth_append\<close>)

text \<open>The arrays of the structure as the driver keeps them: \<open>kzalloc\<close> cleared them and no store
  writes the last byte of \<open>imask\<close>.\<close>

definition imask_inv :: "nat \<Rightarrow> imask_dev \<Rightarrow> bool" where
  "imask_inv NR_IRQS d \<longleftrightarrow>
     length (imask d) = Suc (NR_IRQS div 4) \<and> imask d ! (NR_IRQS div 4) = NUL \<and>
     length (imask_a d) = Suc (NR_IRQS div 4) \<and>
     bkl_is_locked d = (if bkl_lock d then 1 else 0)"

definition imask_command :: "imask_dev \<Rightarrow> string \<Rightarrow> bool" where
  "imask_command d buf \<longleftrightarrow>
     strncmp_eq buf ''LAPIC'' 5 \<or> strncmp_eq buf ''LOC'' 3 \<or> strncmp_eq buf ''000'' 3 \<and> bkl_lock d"

definition mask_lines :: "nat \<Rightarrow> string \<Rightarrow> u8 list \<Rightarrow> irq_call list" where
  "mask_lines n s act =
     concat (map (\<lambda>j. line_calls (bit (hexval s) j) (active_line act n j) (int j)) [0..<4 * n])"

lemma intsMask_spec:
  assumes "debug \<le> 2" "imask_inv NR_IRQS d" "list_all isxdigit (cstr (imask d))"
  shows "\<exists>act. acq200_intsMask NR_IRQS debug d =
      (0, d\<lparr>imask_a := act\<rparr>, mask_lines (NR_IRQS div 4) (cstr (imask d)) (imask_a d)) \<and>
    length act = length (imask_a d) \<and>
    (\<forall>j < 4 * (NR_IRQS div 4). active_line act (NR_IRQS div 4) j = bit (hexval (cstr (imask d))) j)"
proof -
  let ?n = "NR_IRQS div 4"
  obtain act calls where l:
    "intsMask_loop debug (imask d) ?n (int (strlen (imask d)) - 1) 0 (imask_a d) = (act, calls)"
    by (metis surj_pair)
  have "?n \<le> length (imask_a d)" using assms(2) by (simp add: imask_inv_def)
  from intsMask_loop_lines [OF assms(1) this l] l show ?thesis
    by (intro exI [of _ act]) (simp add: acq200_intsMask_def mask_lines_def requested_hexval [OF assms(3)])
qed

lemma clean_keeps_last: "n \<le> m \<Longrightarrow> m < length im \<Longrightarrow> imask_clean n im ! m = im ! m"
  by (simp add: imask_clean_map nth_append)

lemma store_imask_mask:
  assumes "debug \<le> 2" "imask_inv NR_IRQS d" "\<not> imask_command d buf"
  shows "\<exists>d'. store_imask NR_IRQS debug (Some d) buf =
      Some (int (strlen buf), Some d',
        map IrqCall (mask_lines (NR_IRQS div 4) (cstr (imask d')) (imask_a d))) \<and>
    imask_inv NR_IRQS d' \<and> bkl_lock d' = bkl_lock d \<and>
    cstr (imask d') = takeWhile isxdigit (take (NR_IRQS div 4) (cstr buf)) \<and>
    (\<forall>j < 4 * (NR_IRQS div 4). active_line (imask_a d') (NR_IRQS div 4) j = bit (hexval (cstr (imask d'))) j)"
proof -
  let ?n = "NR_IRQS div 4"
  let ?im = "strncpy (imask d) buf ?n"
  let ?d = "d\<lparr>imask := imask_clean (strlen ?im) ?im\<rparr>"
  have d: "length (imask d) = Suc ?n" "imask d ! ?n = NUL" using assms(2) by (auto simp: imask_inv_def)
  note cp = cstr_strncpy [OF d, of buf]
  have "strlen ?im \<le> ?n" by (simp add: strlen_def cp(1))
  then have "imask_clean (strlen ?im) ?im ! ?n = NUL"
    using clean_keeps_last [of "strlen ?im" ?n ?im] cp by simp
  then have inv: "imask_inv NR_IRQS ?d"
    using assms(2) cp(2) by (simp add: imask_inv_def)
  have cs: "cstr (imask ?d) = takeWhile isxdigit (take ?n (cstr buf))"
    by (simp add: cstr_clean cp(1))
  then have "list_all isxdigit (cstr (imask ?d))"
    unfolding list_all_iff by (auto dest: set_takeWhileD)
  from intsMask_spec [OF assms(1) inv this] obtain act where m:
    "acq200_intsMask NR_IRQS debug ?d = (0, ?d\<lparr>imask_a := act\<rparr>, mask_lines ?n (cstr (imask ?d)) (imask_a d))"
    "length act = length (imask_a d)"
    "\<forall>j < 4 * ?n. active_line act ?n j = bit (hexval (cstr (imask ?d))) j" by auto
  have "store_imask NR_IRQS debug (Some d) buf =
      Some (int (strlen buf), Some (?d\<lparr>imask_a := act\<rparr>), map IrqCall (mask_lines ?n (cstr (imask ?d)) (imask_a d)))"
    using assms(2,3) m(1)
    by (auto simp: store_imask_def imask_command_def imask_inv_def acq200_bkl_def
        BKL_QUERY_def BKL_LOCK_def BKL_UNLOCK_def Let_def)
  then show ?thesis
    using m(2,3) inv cs by (intro exI [of _ "?d\<lparr>imask_a := act\<rparr>"]) (auto simp: imask_inv_def)
qed

section \<open>How deep a line is disabled\<close>

text \<open>The kernel counts nested disables: a line runs again when it has been enabled as often.\<close>

definition irq_depth :: "imask_event list \<Rightarrow> int \<Rightarrow> int" where
  "irq_depth evs irq = int (count_list evs (IrqCall (DisableIrq irq))) - int (count_list evs (IrqCall (EnableIrq irq)))"

lemma irq_depth_append [simp]: "irq_depth (a @ b) irq = irq_depth a irq + irq_depth b irq"
  by (simp add: irq_depth_def)

lemma irq_depth_Nil [simp]: "irq_depth [] irq = 0"
  by (simp add: irq_depth_def)

lemma irq_depth_line:
  "irq_depth (map IrqCall (line_calls r a i)) irq = (if i \<noteq> irq then 0 else if r then 1 else if a then -1 else 0)"
  by (simp add: irq_depth_def line_calls_def)

lemma irq_depth_lines:
  "irq_depth (map IrqCall (concat (map (\<lambda>j. line_calls (r j) (a j) (int j)) [0..<m]))) (int k) =
     (if k < m then if r k then 1 else if a k then -1 else 0 else 0)"
  by (induction m) (auto simp: irq_depth_line less_Suc_eq)

fun store_run :: "nat \<Rightarrow> int \<Rightarrow> imask_dev \<Rightarrow> string list \<Rightarrow> (imask_dev \<times> imask_event list) option" where
  "store_run NR_IRQS debug d [] = Some (d, [])"
| "store_run NR_IRQS debug d (buf # bufs) =
     (case store_imask NR_IRQS debug (Some d) buf of
        Some (rc, Some d1, evs) \<Rightarrow>
          map_option (\<lambda>(d2, evs2). (d2, evs @ evs2)) (store_run NR_IRQS debug d1 bufs)
      | _ \<Rightarrow> None)"

lemma store_depth:
  assumes "debug \<le> 2" "imask_inv NR_IRQS d" "\<not> imask_command d buf" "j < 4 * (NR_IRQS div 4)"
  shows "\<exists>d' evs. store_imask NR_IRQS debug (Some d) buf = Some (int (strlen buf), Some d', evs) \<and>
    imask_inv NR_IRQS d' \<and> bkl_lock d' = bkl_lock d \<and>
    active_line (imask_a d') (NR_IRQS div 4) j =
       bit (hexval (takeWhile isxdigit (take (NR_IRQS div 4) (cstr buf)))) j \<and>
    irq_depth evs (int j) =
       (if bit (hexval (takeWhile isxdigit (take (NR_IRQS div 4) (cstr buf)))) j then 1
        else if active_line (imask_a d) (NR_IRQS div 4) j then -1 else 0)"
  using store_imask_mask [OF assms(1-3)] assms(4) by (auto simp: mask_lines_def irq_depth_lines)

lemma store_run_depth:
  assumes "debug \<le> 2" "j < 4 * (NR_IRQS div 4)"
    "bit (hexval (takeWhile isxdigit (take (NR_IRQS div 4) (cstr buf)))) j"
  shows "imask_inv NR_IRQS d \<Longrightarrow> \<not> imask_command d buf \<Longrightarrow> k = 0 \<longrightarrow> active_line (imask_a d) (NR_IRQS div 4) j \<Longrightarrow>
    \<exists>d' evs. store_run NR_IRQS debug d (replicate k buf @ ['''']) = Some (d', evs) \<and>
      irq_depth evs (int j) = int k - 1 \<and> \<not> active_line (imask_a d') (NR_IRQS div 4) j"
proof (induction k arbitrary: d)
  case 0
  have "\<not> imask_command d ''''" by (simp add: imask_command_def strncmp_eq_def)
  from store_depth [OF assms(1) 0(1) this assms(2)] 0(3) obtain d' evs where
    "store_imask NR_IRQS debug (Some d) [] = Some (int (strlen []), Some d', evs)"
    "\<not> active_line (imask_a d') (NR_IRQS div 4) j" "irq_depth evs (int j) = -1"
    by (auto simp: cstr_def hexval_def)
  then show ?case by simp
next
  case (Suc k)
  from store_depth [OF assms(1) Suc.prems(1,2) assms(2)] assms(3) obtain d' evs where s:
    "store_imask NR_IRQS debug (Some d) buf = Some (int (strlen buf), Some d', evs)"
    "imask_inv NR_IRQS d'" "bkl_lock d' = bkl_lock d"
    "active_line (imask_a d') (NR_IRQS div 4) j" "irq_depth evs (int j) = 1"
    by auto
  have "\<not> imask_command d' buf" using Suc.prems(2) s(3) by (simp add: imask_command_def)
  from Suc.IH [OF s(2) this] s show ?case by auto
qed

section \<open>Properties\<close>


definition example_imask_dev :: imask_dev where
  "example_imask_dev = \<lparr>imask = [NUL, NUL, NUL], imask_a = [0, 4, 0], bkl_lock = False, bkl_is_locked = 0\<rparr>"

lemma example_imask_dev_inv: "imask_inv 8 example_imask_dev"
  by (simp add: imask_inv_def example_imask_dev_def)


text \<open>
  Nesting of repeated masks.  Writing the same mask \<open>k + 1\<close> times and then an empty mask to clear
  it leaves every masked line that was not disabled before disabled \<open>k\<close> deep, although the driver no
  longer records it: the cycle is balanced only when the mask was written once.
\<close>

theorem repeated_imask_nests:
  assumes "debug \<le> 2" "imask_inv NR_IRQS d" "\<not> imask_command d buf" "j < 4 * (NR_IRQS div 4)"
    "bit (hexval (takeWhile isxdigit (take (NR_IRQS div 4) (cstr buf)))) j"
  shows "\<exists>d' evs. store_run NR_IRQS debug d (replicate (Suc k) buf @ ['''']) = Some (d', evs) \<and>
    irq_depth evs (int j) = int k \<and> \<not> active_line (imask_a d') (NR_IRQS div 4) j"
  using store_run_depth [OF assms(1,4,5,2,3), of "Suc k"] by simp

theorem repeated_imask_nests_witness:
  "\<exists>d' evs. store_run 8 0 example_imask_dev (replicate (Suc 2) ''3f'' @ ['''']) = Some (d', evs) \<and>
    irq_depth evs (int 4) = int 2 \<and> \<not> active_line (imask_a d') (8 div 4) 4"
  by (rule repeated_imask_nests)
    (simp_all add: example_imask_dev_inv imask_command_def strncmp_eq_def cstr_def NUL_def hexval_def
      isxdigit_def xdigit_value_def char_code_def)

text \<open>
  Lock discipline of the attribute.  Starting from a state where \<open>is_locked\<close> tells whether the
  spinlock is held, a write keeps that; it hangs only for a lock command on a held lock, it releases
  only a held lock and only for a text that starts with 000, and it takes the lock only for \<open>LOC\<close>.
\<close>

theorem store_imask_lock_discipline:
  assumes "debug \<le> 2" "imask_inv NR_IRQS d"
  shows "case store_imask NR_IRQS debug (Some d) buf of
      None \<Rightarrow> bkl_lock d \<and> strncmp_eq buf ''LOC'' 3
    | Some (rc, dev, evs) \<Rightarrow> rc = int (strlen buf) \<and> (\<exists>d'. dev = Some d' \<and> imask_inv NR_IRQS d' \<and>
        (bkl_lock d' \<longleftrightarrow> bkl_lock d \<and> \<not> strncmp_eq buf ''000'' 3 \<or> \<not> bkl_lock d \<and> strncmp_eq buf ''LOC'' 3))"
proof (cases "imask_command d buf")
  case False
  from store_imask_mask [OF assms False] False show ?thesis
    by (auto simp: imask_command_def)
next
  case True
  note defs = store_imask_def acq200_bkl_def imask_inv_def BKL_LOCK_def BKL_UNLOCK_def BKL_QUERY_def
  have l: "\<not> strncmp_eq buf ''LOC'' 3" "\<not> strncmp_eq buf ''000'' 3" if "strncmp_eq buf ''LAPIC'' 5"
  proof -
    have "take 3 (take 5 buf) = take 3 (take 5 ''LAPIC'')"
      using that by (simp only: strncmp_eq_def)
    then have "take 3 buf = ''LAP''" by simp
    then show "\<not> strncmp_eq buf ''LOC'' 3" "\<not> strncmp_eq buf ''000'' 3"
      by (simp_all add: strncmp_eq_def)
  qed
  have x: "\<not> strncmp_eq buf ''000'' 3" if "strncmp_eq buf ''LOC'' 3"
    using that by (auto simp: strncmp_eq_def)
  consider "strncmp_eq buf ''LAPIC'' 5" | "\<not> strncmp_eq buf ''LAPIC'' 5" "strncmp_eq buf ''LOC'' 3"
    | "\<not> strncmp_eq buf ''LAPIC'' 5" "\<not> strncmp_eq buf ''LOC'' 3" "strncmp_eq buf ''000'' 3" "bkl_lock d"
    using True by (auto simp: imask_command_def)
  then show ?thesis
  proof cases
    case 1
    with l assms(2) show ?thesis by (simp add: defs)
  next
    case 2
    with x assms(2) show ?thesis by (simp add: defs)
  next
    case 3
    with assms(2) show ?thesis by (simp add: defs)
  qed
qed

theorem store_imask_lock_discipline_witness:
  "case store_imask 8 0 (Some example_imask_dev) ''LOCK'' of
      None \<Rightarrow> bkl_lock example_imask_dev \<and> strncmp_eq ''LOCK'' ''LOC'' 3
    | Some (rc, dev, evs) \<Rightarrow> rc = int (strlen ''LOCK'') \<and> (\<exists>d'. dev = Some d' \<and> imask_inv 8 d' \<and>
        (bkl_lock d' \<longleftrightarrow> bkl_lock example_imask_dev \<and> \<not> strncmp_eq ''LOCK'' ''000'' 3 \<or>
          \<not> bkl_lock example_imask_dev \<and> strncmp_eq ''LOCK'' ''LOC'' 3))"
  by (rule store_imask_lock_discipline) (simp_all add: example_imask_dev_inv)

end
