(* ===== verification/Driver_Module.thy ===== *)
theory Driver_Module
  imports Devices
begin

text \<open>
  Loading and unloading of the driver module (\<^verbatim>\<open>src/acq200.c\<close>, from the table of PCI ids to \<open>acq200_exit_module\<close>) and the lifetime of
  the whole driver: the module is loaded, cards come and go, the module is unloaded.  The PCI layer of the kernel is not part of the
  program: that it binds a card when the probe returns 0, and that unregistering the driver removes the bound cards one after the other,
  is in the step relation; in which order it removes them is an argument.

  The lemmas show that every state the driver can reach is well formed, that unloading works exactly when the cards are removed in
  descending order of their numbers, and what remains in the kernel when the module is unloaded without ever having had a card.
\<close>

section \<open>Identification\<close>

definition KNAME :: nat where "KNAME = 32"

record pci_device_id =
  vendor :: u32
  device_id :: u32

text \<open>The two vendor numbers come from the kernel's headers.\<close>

definition acq200_pci_tbl :: "u32 \<Rightarrow> u32 \<Rightarrow> pci_device_id list" where
  "acq200_pci_tbl PCI_VENDOR_ID_HINT PCI_VENDOR_ID_INTEL =
     [\<lparr>vendor = PCI_VENDOR_ID_HINT, device_id = 0x0029\<rparr>, \<lparr>vendor = PCI_VENDOR_ID_INTEL, device_id = 0x0318\<rparr>,
      \<lparr>vendor = PCI_VENDOR_ID_INTEL, device_id = 0x0319\<rparr>]"

definition IS_ACQ196 :: "u32 \<Rightarrow> pci_device_id \<Rightarrow> bool" where
  "IS_ACQ196 PCI_VENDOR_ID_INTEL ent \<longleftrightarrow> vendor ent = PCI_VENDOR_ID_INTEL"

section \<open>Loading and unloading\<close>

text \<open>\<open>m_class\<close> and \<open>m_registered\<close> tell whether the device class and the registration with the PCI layer exist.\<close>

record driver_module =
  m_drv :: driver
  m_class :: bool
  m_registered :: bool
  m_bound :: "nat list"

definition acq200_init :: "int \<Rightarrow> driver_module \<Rightarrow> int \<times> driver_module" where
  "acq200_init rc m = (0, m\<lparr>m_class := True, m_registered := (rc = 0)\<rparr>)"

definition acq200_init_module :: "int \<Rightarrow> driver_module \<Rightarrow> int \<times> driver_module" where
  "acq200_init_module rc m = (let (_, m') = acq200_init rc m in (0, m'))"

text \<open>The cards are removed in the order given, each with its interrupt number.\<close>

fun remove_all :: "(int \<times> nat) list \<Rightarrow> driver \<Rightarrow> driver option" where
  "remove_all [] v = Some v"
| "remove_all ((irq, pci) # rest) v = do { v' \<leftarrow> acq200_remove irq pci v; remove_all rest v' }"

definition acq200_exit_module :: "(int \<times> nat) list \<Rightarrow> driver_module \<Rightarrow> driver_module option" where
  "acq200_exit_module cards m =
     (if length (devices (m_drv m)) = 0 then Some m
      else do { v \<leftarrow> remove_all cards (m_drv m);
                Some (m\<lparr>m_drv := v, m_bound := [], m_registered := False, m_class := False\<rparr>) })"

section \<open>The life of the driver\<close>

text \<open>A module that has just been inserted: its static data is zero.\<close>

definition fresh_module :: "driver_module \<Rightarrow> bool" where
  "fresh_module m \<longleftrightarrow> devices (m_drv m) = [] \<and> k_irqs (m_drv m) = [] \<and> k_attrs (m_drv m) = [] \<and> k_class (m_drv m) = [] \<and>
     k_chrdevs (m_drv m) = [] \<and> m_bound m = [] \<and> \<not> m_registered m \<and> \<not> m_class m"

text \<open>The card has four mailbox registers, before and after it answers.\<close>

definition card_env :: "create_env \<Rightarrow> init_env \<Rightarrow> bool" where
  "card_env ce ie \<longleftrightarrow> length (cr_mailboxes ce) = 4 \<and>
     (\<forall>x \<in> {in_ints ie, in_dmabuf ie, in_channels ie}. \<forall>r. length r = MBOX_NUM \<longrightarrow> length (ex_card x r) = MBOX_NUM)"

inductive module_step :: "driver_module \<Rightarrow> driver_module \<Rightarrow> bool" where
  load: "fresh_module m \<Longrightarrow> module_step m (snd (acq200_init_module rc m))"
| bind_card: "m_registered m \<Longrightarrow> pci \<notin> set (m_bound m) \<Longrightarrow> card_env ce ie \<Longrightarrow>
     ent \<in> set (acq200_pci_tbl hint intel) \<Longrightarrow> acq200_probe ce ie (IS_ACQ196 intel ent) pci (m_drv m) = Some (rc, v) \<Longrightarrow>
     module_step m (m\<lparr>m_drv := v, m_bound := (if rc = 0 then pci # m_bound m else m_bound m)\<rparr>)"
| unbind_card: "pci \<in> set (m_bound m) \<Longrightarrow> acq200_remove irq pci (m_drv m) = Some v \<Longrightarrow>
     module_step m (m\<lparr>m_drv := v, m_bound := remove1 pci (m_bound m)\<rparr>)"
| unload: "m_class m \<Longrightarrow> distinct (map snd cards) \<Longrightarrow> snd ` set cards = set (m_bound m) \<Longrightarrow> acq200_exit_module cards m = Some m' \<Longrightarrow>
     module_step m m'"

inductive_cases module_stepE: "module_step m m'"

inductive module_reach :: "driver_module \<Rightarrow> bool" where
  start: "fresh_module m \<Longrightarrow> module_reach m"
| more: "module_reach m \<Longrightarrow> module_step m m' \<Longrightarrow> module_reach m'"

section \<open>Well-formedness\<close>

definition mbox_ok :: "mbox_dev \<Rightarrow> bool" where
  "mbox_ok d \<longleftrightarrow> length (mbox d) = MBOX_NUM \<and> sem d = 1 \<and> \<not> using_interrupt d"

text \<open>
  An entry of the table: its number and name, texts that fit their arrays, arrays of their size, a communications buffer, a free
  mailbox, and neither pools nor registers once it has been freed.
\<close>

definition card_ok :: "nat \<Rightarrow> card \<Rightarrow> bool" where
  "card_ok i c \<longleftrightarrow> ca_idx c = i \<and> ca_name c = ''acq200.'' @ dec_nat i \<and>
     length (ca_name c) < KNAME \<and> length (ca_model c) < KNAME \<and> length (io_name (ca_csr c)) < KNAME \<and>
     ca_type c \<in> {DEV_TYPE_ACQ196, DEV_TYPE_ACQ216} \<and> length (ca_AB c) = 2 \<and> length (ca_irqs c) = 4 \<and>
     db_va (ca_dma c) \<noteq> 0 \<and> order (ca_dma c) \<le> COMMSBUF_ORDER \<and> mbox_ok (ca_mbox c) \<and>
     (ca_freed c \<longleftrightarrow> ca_pool c = None) \<and> (ca_freed c \<longrightarrow> io_va (ca_csr c) = 0)"

definition alive :: "driver \<Rightarrow> nat \<Rightarrow> bool" where
  "alive v i \<longleftrightarrow> i < length (devices v) \<and> \<not> ca_freed (devices v ! i)"

text \<open>Attribute files, class devices and character devices belong to cards that have not been freed; interrupts belong to cards.\<close>

definition kernel_ok :: "driver \<Rightarrow> bool" where
  "kernel_ok v \<longleftrightarrow> (\<forall>(i, a) \<in> set (k_attrs v). alive v i \<and> a \<in> set (pool_attrs @ device_attrs @ class_attrs)) \<and>
     (\<forall>i \<in> set (k_class v). alive v i) \<and> distinct (k_class v) \<and>
     (\<forall>(major, name) \<in> set (k_chrdevs v). \<exists>i. alive v i \<and> ca_major (devices v ! i) = major \<and> ca_name (devices v ! i) = name) \<and>
     distinct (map snd (k_chrdevs v)) \<and>
     (\<forall>(irq, i) \<in> set (k_irqs v). i < length (devices v))"

definition driver_ok :: "driver \<Rightarrow> bool" where
  "driver_ok v \<longleftrightarrow> length (devices v) \<le> MAXDEV \<and> (\<forall>i < length (devices v). card_ok i (devices v ! i)) \<and> kernel_ok v"

section \<open>Lemmas\<close>

subsection \<open>Names\<close>

lemma dec_nat_short: "i < MAXDEV \<Longrightarrow> length (dec_nat i) \<le> 2"
  using length_dec_nat [of 2 i] by (simp add: MAXDEV_def)

lemma dec_nat_inj: "dec_nat i = dec_nat j \<Longrightarrow> i = j"
  by (metis digits_dec_nat)

subsection \<open>Single changes of a well-formed driver\<close>

text \<open>Replacing the entry of a card by one that is still alive exactly when it was.\<close>

lemma driver_ok_card_update:
  assumes "driver_ok v" "i < length (devices v)" "card_ok i (f (devices v ! i))"
    and "ca_freed (f (devices v ! i)) = ca_freed (devices v ! i)"
    and "ca_major (f (devices v ! i)) = ca_major (devices v ! i) \<or> ca_name (devices v ! i) \<notin> snd ` set (k_chrdevs v)"
  shows "driver_ok (card_update i f v)"
proof -
  let ?v = "card_update i f v"
  have n: "ca_name (f (devices v ! i)) = ca_name (devices v ! i)"
    using assms(1-3) by (simp add: driver_ok_def card_ok_def)
  have a: "alive ?v j \<longleftrightarrow> alive v j" for j
    using assms(2,4) by (cases "j = i") (simp_all add: alive_def)
  have "\<exists>j. alive ?v j \<and> ca_major (devices ?v ! j) = major \<and> ca_name (devices ?v ! j) = name"
    if "(major, name) \<in> set (k_chrdevs v)" for major name
  proof -
    obtain j where j: "alive v j" "ca_major (devices v ! j) = major" "ca_name (devices v ! j) = name"
      using assms(1) \<open>(major, name) \<in> set (k_chrdevs v)\<close> unfolding driver_ok_def kernel_ok_def by fast
    have "ca_major (devices ?v ! j) = major \<and> ca_name (devices ?v ! j) = name"
    proof (cases "j = i")
      case True
      have "name \<in> snd ` set (k_chrdevs v)" using \<open>(major, name) \<in> set (k_chrdevs v)\<close> by (force intro: image_eqI)
      then show ?thesis using assms(2,5) j n True by simp
    next
      case False
      then show ?thesis using j by simp
    qed
    then show ?thesis using j(1) a by blast
  qed
  moreover have "card_ok j (devices ?v ! j)" if "j < length (devices v)" for j
    using assms(1,3) that by (cases "j = i") (simp_all add: driver_ok_def)
  ultimately show ?thesis
    using assms(1) a unfolding driver_ok_def kernel_ok_def by (auto split: prod.splits)
qed

lemma kernel_ok_files:
  assumes "kernel_ok v" "alive v i" "set names \<subseteq> set (pool_attrs @ device_attrs @ class_attrs)"
  shows "kernel_ok (create_files i names v)"
  using assms by (auto simp: kernel_ok_def create_files_def alive_def)

lemma create_files_fields [simp]:
  "devices (create_files i names v) = devices v" "k_class (create_files i names v) = k_class v"
  "k_chrdevs (create_files i names v) = k_chrdevs v" "k_irqs (create_files i names v) = k_irqs v"
  "alive (create_files i names v) j = alive v j"
  by (simp_all add: create_files_def alive_def)

lemma driver_ok_files:
  "driver_ok v \<Longrightarrow> alive v i \<Longrightarrow> set names \<subseteq> set (pool_attrs @ device_attrs @ class_attrs) \<Longrightarrow> driver_ok (create_files i names v)"
  unfolding driver_ok_def using kernel_ok_files by simp

text \<open>Adding a registration of a live card, or an interrupt of any card.\<close>

lemma driver_ok_chrdev:
  assumes "driver_ok v" "alive v i" "ca_major (devices v ! i) = major" "ca_name (devices v ! i) = name" "name \<notin> snd ` set (k_chrdevs v)"
  shows "driver_ok (v\<lparr>k_chrdevs := (major, name) # k_chrdevs v\<rparr>)"
  using assms by (auto simp: driver_ok_def kernel_ok_def alive_def)

lemma driver_ok_irq: "driver_ok v \<Longrightarrow> i < length (devices v) \<Longrightarrow> driver_ok (v\<lparr>k_irqs := (irq, i) # k_irqs v\<rparr>)"
  by (auto simp: driver_ok_def kernel_ok_def alive_def)

lemma driver_ok_class: "driver_ok v \<Longrightarrow> alive v i \<Longrightarrow> i \<notin> set (k_class v) \<Longrightarrow> driver_ok (v\<lparr>k_class := i # k_class v\<rparr>)"
  by (auto simp: driver_ok_def kernel_ok_def alive_def)

lemma driver_ok_slots: "driver_ok v \<Longrightarrow> driver_ok (v\<lparr>slots := s\<rparr>)"
  by (simp add: driver_ok_def kernel_ok_def alive_def)

lemma driver_ok_card: "driver_ok v \<Longrightarrow> i < length (devices v) \<Longrightarrow> card_ok i (devices v ! i)"
  by (simp add: driver_ok_def)

subsection \<open>The mailbox\<close>

lemma wbr_mbox_ok:
  assumes "acq200_ioctl_wbr_mbox x d mbc = (rc, d', mbc')" "mbox_ok d" "\<forall>r. length r = MBOX_NUM \<longrightarrow> length (ex_card x r) = MBOX_NUM"
  shows "mbox_ok d'"
proof (cases "ex_down_interrupted x")
  case True
  then show ?thesis using assms(1,2) by (simp add: acq200_ioctl_wbr_mbox_def)
next
  case False
  note w = wbr_cases [OF assms(1) False]
  have "length (mbox d) = 4" using assms(2) by (simp add: mbox_ok_def MBOX_NUM_def)
  then have "length (mbox (write_boxes 4 (MBC_FROM_MBXW mbc) (mbxw mbc) d)) = 4"
    using write_boxes_regs [of 4 d] by simp
  then show ?thesis using assms(2,3) w(2,3,5) by (simp add: mbox_ok_def MBOX_NUM_def)
qed

lemma command_mbox_ok:
  "mbox_ok d \<Longrightarrow> \<forall>r. length r = MBOX_NUM \<longrightarrow> length (ex_card x r) = MBOX_NUM \<Longrightarrow> acq200_sendCommandA3A4 h x d c a3 a4 = (rc, d') \<Longrightarrow> mbox_ok d'"
  "mbox_ok d \<Longrightarrow> \<forall>r. length r = MBOX_NUM \<longrightarrow> length (ex_card x r) = MBOX_NUM \<Longrightarrow> acq200_getAvailableChannels h x d ch = (rc, d', ch') \<Longrightarrow> mbox_ok d'"
  by (auto simp: acq200_sendCommandA3A4_def acq200_getAvailableChannels_def acq200_sendQuery_def split: prod.splits if_splits
      intro: wbr_mbox_ok)

subsection \<open>The identity of the entries\<close>

text \<open>Which PCI device an entry belongs to and whether it has been freed.\<close>

definition owner :: "card \<Rightarrow> nat \<times> bool" where "owner c = (ca_pci c, ca_freed c)"

lemma owners_card_update [simp]:
  assumes "\<And>c. owner (f c) = owner c"
  shows "map owner (devices (card_update i f v)) = map owner (devices v)"
proof (cases "i < length (devices v)")
  case True
  then show ?thesis using assms by (simp add: map_update list_update_same_conv)
qed (simp add: list_update_beyond)

subsection \<open>Probing\<close>

lemma get_max_buf_bounds: "get_max_buf pages b n = Some d \<Longrightarrow> db_va d \<noteq> 0 \<and> order d \<le> n"
  by (induction n) (auto split: if_splits)

lemma alloc_max_buf_bounds: "alloc_max_buf pages dma_map b n = Some d \<Longrightarrow> db_va d \<noteq> 0 \<and> order d \<le> n"
  using get_max_buf_bounds by (fastforce simp: alloc_max_buf_def)

lemma new_name_unused:
  assumes "driver_ok v" "length (devices v) < MAXDEV"
  shows "''acq200.'' @ dec_nat (length (devices v)) \<notin> snd ` set (k_chrdevs v)"
proof
  assume "''acq200.'' @ dec_nat (length (devices v)) \<in> snd ` set (k_chrdevs v)"
  then obtain i where i: "alive v i" "ca_name (devices v ! i) = ''acq200.'' @ dec_nat (length (devices v))"
    using assms(1) unfolding driver_ok_def kernel_ok_def by fastforce
  then have "dec_nat i = dec_nat (length (devices v))"
    using driver_ok_card [OF assms(1), of i] by (simp add: alive_def card_ok_def)
  with dec_nat_inj i(1) show False by (fastforce simp: alive_def)
qed

text \<open>The driver when \<open>acq200_device_init\<close> starts: the new card is the last one and the kernel knows nothing of it but its pool files.\<close>

definition initialising :: "nat \<Rightarrow> driver \<Rightarrow> bool" where
  "initialising i v \<longleftrightarrow> driver_ok v \<and> alive v i \<and> i \<notin> set (k_class v) \<and> ca_name (devices v ! i) \<notin> snd ` set (k_chrdevs v)"

lemma create_initialising:
  assumes "acq200_device_create e pci v = Some (i, v1)" "driver_ok v" "length (cr_mailboxes e) = 4"
  shows "initialising i (acq200_set_dev_type intel i v1) \<and> devices (acq200_set_dev_type intel i v1) = devices v @ [devices (acq200_set_dev_type intel i v1) ! i]"
proof -
  let ?i = "length (devices v)" and ?u = "acq200_set_dev_type intel i v1"
  obtain dma dat m p rchs rs where i: "i = ?i" "?i < MAXDEV" and dma: "alloc_max_buf (cr_pages e) (cr_dma_map e) null_buf COMMSBUF_ORDER = Some dma"
    and m: "io_name m = ''acq200.'' @ dec_nat ?i @ ''.csr''"
    and v1: "v1 = v\<lparr>k_regions := rs, devices := devices v @ [(new_card e pci ?i)\<lparr>ca_dma := dma, ca_data := dat, ca_csr := m, ca_pool := Some p, ca_rchs := rchs\<rparr>],
        k_attrs := k_attrs v @ map (Pair ?i) pool_attrs\<rparr>"
    using create_effect [OF assms(1)] by blast
  define c where "c = devices ?u ! ?i"
  have k: "k_class ?u = k_class v" "k_chrdevs ?u = k_chrdevs v" "k_irqs ?u = k_irqs v" "k_attrs ?u = k_attrs v @ map (Pair ?i) pool_attrs"
    by (simp_all add: acq200_set_dev_type_def v1)
  have d: "devices ?u = devices v @ [c]" by (simp add: c_def acq200_set_dev_type_def v1 i(1))
  have c: "card_ok ?i c" "\<not> ca_freed c" "ca_name c = ''acq200.'' @ dec_nat ?i"
    using dec_nat_short [OF i(2)] alloc_max_buf_bounds [OF dma] assms(3)
    by (auto simp: c_def acq200_set_dev_type_def v1 i(1) new_card_def card_ok_def mbox_ok_def m KNAME_def MBOX_NUM_def)
  have a: "alive ?u j \<longleftrightarrow> alive v j \<or> j = ?i" for j
    using c(2) by (auto simp: alive_def d nth_append)
  have old: "devices ?u ! j = devices v ! j" if "alive v j" for j
    using that by (simp add: alive_def d nth_append)
  have "kernel_ok v" using assms(2) by (simp add: driver_ok_def)
  then have "kernel_ok ?u"
    unfolding kernel_ok_def k a using old by (fastforce simp: d)
  moreover have "\<forall>j < length (devices ?u). card_ok j (devices ?u ! j)"
    using assms(2) c(1) by (auto simp: d driver_ok_def nth_append less_Suc_eq)
  ultimately have "driver_ok ?u" using i(2) by (simp add: driver_ok_def d)
  moreover have "?i \<notin> set (k_class v)" using \<open>kernel_ok v\<close> by (auto simp: kernel_ok_def alive_def)
  ultimately show ?thesis
    using a new_name_unused [OF assms(2) i(2)] c(3) unfolding initialising_def k d by (simp add: i(1))
qed

text \<open>What the commands of the one-time set-up change: the mailbox, the channels and the flag.\<close>

lemma onetime_effect:
  assumes "init_onetime e i rc v = Some (rc', b, v')" "i < length (devices v)" "mbox_ok (ca_mbox (devices v ! i))" "card_env ce e"
  shows "\<exists>m ch f. mbox_ok m \<and> v' = card_update i (\<lambda>c. c\<lparr>ca_mbox := m, ca_channels := ch, ca_onetime := f\<rparr>) v"
proof -
  have x: "\<forall>r. length r = MBOX_NUM \<longrightarrow> length (ex_card (in_dmabuf e) r) = MBOX_NUM"
    "\<forall>r. length r = MBOX_NUM \<longrightarrow> length (ex_card (in_channels e) r) = MBOX_NUM"
    using assms(4) by (simp_all add: card_env_def)
  let ?c = "devices v ! i"
  obtain rc1 m1 where m1: "acq200_sendCommandA3A4 (in_HZ e) (in_dmabuf e) (ca_mbox ?c)
      (BP_SET_FUNCODE BP_FC_SET_HOST_DMABUF OR BP_SET_A1 (of_nat NMAPPINGS)) (db_pa (ca_dma ?c)) (word_of_int (dma_buf_len (ca_dma ?c))) = (rc1, m1)"
    by fastforce
  obtain rc2 m2 ch where m2: "acq200_getAvailableChannels (in_HZ e) (in_channels e) m1 (ca_channels ?c) = (rc2, m2, ch)"
    by (cases "acq200_getAvailableChannels (in_HZ e) (in_channels e) m1 (ca_channels ?c)") auto
  have ok: "mbox_ok m1" "mbox_ok m2"
    using command_mbox_ok(1) [OF assms(3) x(1) m1] command_mbox_ok(2) [OF _ x(2) m2] by blast+
  have order: "c\<lparr>ca_mbox := m1, ca_onetime := True\<rparr> = c\<lparr>ca_mbox := m1, ca_channels := ca_channels c, ca_onetime := True\<rparr>"
    "c\<lparr>ca_onetime := True, ca_mbox := m2, ca_channels := ch\<rparr> = c\<lparr>ca_mbox := m2, ca_channels := ch, ca_onetime := True\<rparr>" for c :: card
    by (rule card.equality; simp)+
  have "v' = v \<or> v' = v\<lparr>devices := (devices v)[i := ?c\<lparr>ca_mbox := m1, ca_onetime := True\<rparr>]\<rparr> \<or>
      v' = v\<lparr>devices := (devices v)[i := ?c\<lparr>ca_onetime := True, ca_mbox := m2, ca_channels := ch\<rparr>]\<rparr>"
    using assms(1,2) m1 m2 unfolding init_onetime_def with_mbox_def init_channels_def Let_def
    by (auto simp: bind_eq_Some_conv card_update_def split: if_split_asm)
  then have "v' = v \<or> v' = card_update i (\<lambda>c. c\<lparr>ca_mbox := m1, ca_channels := ca_channels ?c, ca_onetime := True\<rparr>) v \<or>
      v' = card_update i (\<lambda>c. c\<lparr>ca_mbox := m2, ca_channels := ch, ca_onetime := True\<rparr>) v"
    unfolding order card_update_def .
  moreover have "v = card_update i (\<lambda>c. c\<lparr>ca_mbox := ca_mbox ?c, ca_channels := ca_channels ?c, ca_onetime := ca_onetime ?c\<rparr>) v"
    by (simp add: card_update_def)
  ultimately show ?thesis using ok assms(3) by metis
qed

lemma card_ok_updates [simp]:
  "card_ok i (c\<lparr>ca_major := x\<rparr>) = card_ok i c" "card_ok i (c\<lparr>ca_class := y\<rparr>) = card_ok i c"
  "mbox_ok m \<Longrightarrow> card_ok i c \<Longrightarrow> card_ok i (c\<lparr>ca_mbox := m, ca_channels := ch, ca_onetime := f\<rparr>)"
  by (auto simp: card_ok_def)

lemma alive_card_update [simp]:
  "(\<And>c. ca_freed (f c) = ca_freed c) \<Longrightarrow> alive (card_update i f v) j = alive v j"
  by (cases "j = i"; cases "i < length (devices v)") (simp_all add: alive_def list_update_beyond)

text \<open>The effect of the last part of the initialisation, from the one-time set-up on.\<close>

definition publish :: "nat \<Rightarrow> nat \<Rightarrow> driver \<Rightarrow> driver" where
  "publish cls i v =
     (let v7 = acq200_create_sysfs_device i v;
          v8 = (card_update i (\<lambda>c. c\<lparr>ca_class := Some cls\<rparr>) v7)\<lparr>k_class := ca_idx (devices v7 ! i) # k_class v7\<rparr>
      in acq200_create_sysfs_class i v8)"

lemma publish_ok:
  assumes "driver_ok v" "alive v i" "i \<notin> set (k_class v)"
  shows "driver_ok (publish cls i v)"
proof -
  let ?v7 = "create_files i device_attrs v"
  let ?w = "card_update i (\<lambda>c. c\<lparr>ca_class := Some cls\<rparr>) ?v7"
  have i: "i < length (devices v)" "ca_idx (devices v ! i) = i"
    using assms(1,2) driver_ok_card [of v i] by (simp_all add: alive_def card_ok_def)
  have v7: "driver_ok ?v7" by (rule driver_ok_files [OF assms(1,2)]) auto
  then have w: "driver_ok ?w" using i(1) driver_ok_card [OF assms(1) i(1)] by (intro driver_ok_card_update) simp_all
  have "driver_ok (?w\<lparr>k_class := i # k_class ?w\<rparr>)"
    using driver_ok_class [OF w, of i] assms(2,3) by simp
  then have "driver_ok (create_files i class_attrs (?w\<lparr>k_class := i # k_class ?w\<rparr>))"
    by (rule driver_ok_files) (use assms(2) in \<open>auto simp: alive_def nth_list_update\<close>)
  then show ?thesis
    using i(2) by (simp add: publish_def acq200_create_sysfs_device_def acq200_create_sysfs_class_def)
qed

text \<open>The stages before: the slot and a major number of 0, the registered character device, the interrupt.\<close>

definition numbered :: "init_env \<Rightarrow> nat \<Rightarrow> driver \<Rightarrow> driver" where
  "numbered e i v = card_update i (\<lambda>c. c\<lparr>ca_major := 0\<rparr>)
     (v\<lparr>slots := (slots v)(ca_idx (devices v ! i) := acq200_get_cpci_slot (in_devfn e))\<rparr>)"

definition registered :: "init_env \<Rightarrow> nat \<Rightarrow> driver \<Rightarrow> driver" where
  "registered e i v = (card_update i (\<lambda>c. c\<lparr>ca_major := in_register e\<rparr>) (numbered e i v))
     \<lparr>k_chrdevs := (in_register e, ca_name (devices v ! i)) # k_chrdevs v\<rparr>"

definition with_irq :: "init_env \<Rightarrow> nat \<Rightarrow> driver \<Rightarrow> driver" where
  "with_irq e i v = (if in_use_interrupts e \<and> in_irq e \<noteq> 0 then (registered e i v)\<lparr>k_irqs := (in_irq e, i) # k_irqs v\<rparr>
     else registered e i v)"

lemmas stage_defs = numbered_def registered_def with_irq_def

lemma stage_fields:
  assumes "i < length (devices v)"
  shows "devices (with_irq e i v) = devices (registered e i v)" "k_class (with_irq e i v) = k_class v"
    and "devices (registered e i v) = (devices v)[i := (devices v ! i)\<lparr>ca_major := in_register e\<rparr>]"
    and "map owner (devices (numbered e i v)) = map owner (devices v)"
    and "map owner (devices (registered e i v)) = map owner (devices v)"
proof -
  show d: "devices (registered e i v) = (devices v)[i := (devices v ! i)\<lparr>ca_major := in_register e\<rparr>]"
    using assms by (simp add: stage_defs)
  show "devices (with_irq e i v) = devices (registered e i v)" "k_class (with_irq e i v) = k_class v"
    by (simp_all add: stage_defs)
  show "map owner (devices (numbered e i v)) = map owner (devices v)"
    unfolding numbered_def by (subst owners_card_update) (simp_all add: owner_def)
  show "map owner (devices (registered e i v)) = map owner (devices v)"
    unfolding d using assms by (simp add: map_update list_update_same_conv owner_def)
qed

lemma init_unfold:
  assumes "i < length (devices v)" "\<not> using_interrupt (ca_mbox (devices v ! i))"
  shows "acq200_device_init e i v = (if in_enable e \<noteq> 0 then Some (in_enable e, v)
      else if in_register e < 0 then Some (in_register e, numbered e i v)
      else if (in_use_interrupts e \<and> in_irq e \<noteq> 0) \<and> in_request_irq e \<noteq> 0 then Some (in_request_irq e, registered e i v)
      else do { (rc6, go_on, v6) \<leftarrow> init_onetime e i (if in_use_interrupts e \<and> in_irq e \<noteq> 0 then in_request_irq e else in_register e) (with_irq e i v);
                if \<not> go_on then Some (rc6, v6) else Some (rc6, publish (in_class e) i v6) })"
proof -
  have "\<not> using_interrupt (ca_mbox (devices (with_irq e i v) ! i))"
    using assms by (simp add: stage_fields)
  then have "init_interrupt_command e i (with_irq e i v) = Some (0, with_irq e i v)"
    by (simp add: init_interrupt_command_def)
  then show ?thesis
    unfolding acq200_device_init_def Let_def numbered_def [symmetric] registered_def [symmetric] with_irq_def [symmetric] publish_def
    by simp
qed

lemma stages_ok:
  assumes "initialising i v"
  shows "driver_ok (numbered e i v)" "driver_ok (registered e i v)" "driver_ok (with_irq e i v)" "alive (with_irq e i v) i"
proof -
  let ?c = "devices v ! i" and ?w = "card_update i (\<lambda>c. c\<lparr>ca_major := in_register e\<rparr>) (numbered e i v)"
  have v: "driver_ok v" "alive v i" "ca_name ?c \<notin> snd ` set (k_chrdevs v)" "i < length (devices v)"
    using assms by (simp_all add: initialising_def alive_def)
  show n: "driver_ok (numbered e i v)"
    unfolding numbered_def using v driver_ok_card [OF v(1,4)] by (intro driver_ok_card_update driver_ok_slots) simp_all
  have "driver_ok ?w"
    using v driver_ok_card [OF n, of i] by (intro driver_ok_card_update n) (simp_all add: numbered_def)
  then show r: "driver_ok (registered e i v)"
    using driver_ok_chrdev [of ?w i "in_register e" "ca_name ?c"] v by (simp add: registered_def numbered_def alive_def)
  show "driver_ok (with_irq e i v)" "alive (with_irq e i v) i"
    using r driver_ok_irq [OF r, of i "in_irq e"] v(2,4) by (simp_all add: with_irq_def alive_def stage_fields) (simp_all add: stage_defs)
qed

lemma onetime_ok:
  assumes "init_onetime e i r v = Some (rc, b, v')" "driver_ok v" "alive v i" "i \<notin> set (k_class v)" "card_env ce e"
  shows "driver_ok v' \<and> driver_ok (publish cls i v') \<and> map owner (devices v') = map owner (devices v)"
proof -
  have i: "i < length (devices v)" using assms(3) by (simp add: alive_def)
  have c: "card_ok i (devices v ! i)" using driver_ok_card [OF assms(2) i] .
  then have "mbox_ok (ca_mbox (devices v ! i))" by (simp add: card_ok_def)
  then obtain m ch f where f: "mbox_ok m" "v' = card_update i (\<lambda>c. c\<lparr>ca_mbox := m, ca_channels := ch, ca_onetime := f\<rparr>) v"
    using onetime_effect [OF assms(1) i _ assms(5)] by blast
  have "driver_ok v'" unfolding f(2) using c f(1) i by (intro driver_ok_card_update assms(2)) simp_all
  moreover have "map owner (devices v') = map owner (devices v)" unfolding f(2) by (rule owners_card_update) (simp add: owner_def)
  ultimately show ?thesis using assms(3,4) by (auto simp: f(2) intro: publish_ok)
qed

lemma publish_owners: "map owner (devices (publish cls i v)) = map owner (devices v)"
proof -
  have "map owner (devices (card_update i (\<lambda>c. c\<lparr>ca_class := Some cls\<rparr>) u)) = map owner (devices u)" for u
    by (rule owners_card_update) (simp add: owner_def)
  from this [of "create_files i device_attrs v"] show ?thesis
    by (simp add: publish_def acq200_create_sysfs_device_def acq200_create_sysfs_class_def Let_def)
qed

lemma init_ok:
  assumes "acq200_device_init e i v = Some (rc, v')" "initialising i v" "card_env ce e"
  shows "driver_ok v' \<and> map owner (devices v') = map owner (devices v)"
proof -
  have v: "driver_ok v" "i \<notin> set (k_class v)" "i < length (devices v)"
    using assms(2) by (simp_all add: initialising_def alive_def)
  have "\<not> using_interrupt (ca_mbox (devices v ! i))"
    using driver_ok_card [OF v(1,3)] by (simp add: card_ok_def mbox_ok_def)
  note unfold = init_unfold [OF v(3) this] and st = stages_ok [OF assms(2), of e]
  have six: "driver_ok v6 \<and> driver_ok (publish cls i v6) \<and> map owner (devices v6) = map owner (devices v)"
    if "init_onetime e i r (with_irq e i v) = Some (rc6, b, v6)" for r rc6 b v6 cls
    using onetime_ok [OF that st(3,4) _ assms(3), of cls] v(2) unfolding stage_fields(1,2) [OF v(3)] stage_fields(5) [OF v(3)] by blast
  show ?thesis
    using assms(1) v st(1,2) stage_fields [OF v(3), of e] publish_owners six
    unfolding unfold by (auto simp: bind_eq_Some_conv split: if_splits)
qed

lemma probe_ok:
  assumes "acq200_probe ce ie intel pci v = Some (rc, v')" "driver_ok v" "card_env ce ie"
  shows "driver_ok v' \<and> map owner (devices v') = map owner (devices v) @ [(pci, False)]"
proof -
  obtain i v1 where c: "acq200_device_create ce pci v = Some (i, v1)" and d: "acq200_device_init ie i (acq200_set_dev_type intel i v1) = Some (rc, v')"
    using assms(1) unfolding acq200_probe_def by (auto simp: bind_eq_Some_conv)
  have "initialising i (acq200_set_dev_type intel i v1)"
    using create_initialising [OF c assms(2)] assms(3) by (simp add: card_env_def)
  note i = init_ok [OF d this assms(3)]
  have "map owner (devices v1) = map owner (devices v) @ [(pci, False)]"
    using create_effect [OF c] by (auto simp: owner_def new_card_def)
  moreover have "map owner (devices (acq200_set_dev_type intel i v1)) = map owner (devices v1)"
    unfolding acq200_set_dev_type_def by (rule owners_card_update) (simp add: owner_def)
  ultimately show ?thesis using i by simp
qed

subsection \<open>Removing\<close>

lemma distinct_map_remove: "distinct (map f xs) \<Longrightarrow> distinct (map f (remove1 x xs))"
  by (metis distinct_map distinct_remove1 inj_on_subset set_remove1_subset)

lemma device_free_kernel:
  assumes "ca_pool (devices v ! i) \<noteq> None"
  shows "k_attrs (acq200_device_free i v) = filter (\<lambda>(j, a). \<not> (j = i \<and> a \<in> set pool_attrs)) (k_attrs v)"
    and "k_class (acq200_device_free i v) = k_class v" and "k_chrdevs (acq200_device_free i v) = k_chrdevs v"
proof -
  have k: "k_attrs (kbuf_free b u) = k_attrs u" "k_class (kbuf_free b u) = k_class u" "k_chrdevs (kbuf_free b u) = k_chrdevs u" for b u
    by (simp_all add: kbuf_free_def)
  show "k_attrs (acq200_device_free i v) = filter (\<lambda>(j, a). \<not> (j = i \<and> a \<in> set pool_attrs)) (k_attrs v)"
    "k_class (acq200_device_free i v) = k_class v" "k_chrdevs (acq200_device_free i v) = k_chrdevs v"
    using assms by (simp_all add: acq200_device_free_def acq200_unmap_pci_memory_def clearIoMapping_def Let_def k remove_dev_sysfs_def remove_files_def)
qed

definition freed_card :: "card \<Rightarrow> card" where
  "freed_card c = c\<lparr>ca_pool := None, ca_csr := null_mapping, ca_freed := True\<rparr>"

lemma remove_found:
  assumes "driver_ok v" "acq200_lookupDevice pci v = Some (Some i)"
  shows "\<exists>v'. acq200_remove irq pci v = Some v' \<and> devices v' = (devices v)[i := freed_card (devices v ! i)] \<and> k_irqs v' = k_irqs v \<and>
     set (k_attrs v') = {x \<in> set (k_attrs v). fst x \<noteq> i} \<and> k_class v' = remove1 i (k_class v) \<and>
     k_chrdevs v' = remove1 (ca_major (devices v ! i), ca_name (devices v ! i)) (k_chrdevs v)"
proof -
  let ?c = "devices v ! i"
  have i: "i < length (devices v)" "\<not> ca_freed ?c" using by_pci.found_alive [OF assms(2)] by simp_all
  have c: "card_ok i ?c" using driver_ok_card [OF assms(1) i(1)] .
  have p: "ca_pool ?c \<noteq> None" "\<not> using_interrupt (ca_mbox ?c)" "ca_idx ?c = i"
    using c i(2) by (simp_all add: card_ok_def mbox_ok_def)
  have "snd x \<in> set (pool_attrs @ device_attrs @ class_attrs)" if "x \<in> set (k_attrs v)" for x
    using assms(1) that unfolding driver_ok_def kernel_ok_def by fastforce
  then show ?thesis
    unfolding acq200_remove_def assms(2) bind.simps option.case Let_def using p
    by (auto simp: device_free_effect device_free_kernel acq200_remove_sysfs_device_def acq200_remove_sysfs_class_def remove_files_def freed_card_def)
      blast
qed

lemma remove_found_ok:
  assumes "driver_ok v" "acq200_lookupDevice pci v = Some (Some i)" "acq200_remove irq pci v = Some v'"
  shows "driver_ok v' \<and> devices v' = (devices v)[i := freed_card (devices v ! i)]"
proof -
  let ?c = "devices v ! i"
  have d: "devices v' = (devices v)[i := freed_card ?c]" and irqs: "k_irqs v' = k_irqs v"
    and attrs: "set (k_attrs v') = {x \<in> set (k_attrs v). fst x \<noteq> i}"
    and cls: "k_class v' = remove1 i (k_class v)" and chr: "k_chrdevs v' = remove1 (ca_major ?c, ca_name ?c) (k_chrdevs v)"
    using remove_found [OF assms(1,2), of irq] assms(3) by auto
  have i: "i < length (devices v)" using by_pci.found_alive [OF assms(2)] by simp
  have kv: "kernel_ok v" using assms(1) by (simp add: driver_ok_def)
  have a: "alive v' j \<longleftrightarrow> alive v j \<and> j \<noteq> i" for j
    using i by (cases "j = i") (auto simp: alive_def d freed_card_def)
  have chr': "\<exists>j. alive v' j \<and> ca_major (devices v' ! j) = major \<and> ca_name (devices v' ! j) = name"
    if "(major, name) \<in> set (k_chrdevs v')" for major name
  proof -
    have "distinct (k_chrdevs v)" using kv by (simp add: kernel_ok_def distinct_map)
    then have "(major, name) \<in> set (k_chrdevs v)" "(major, name) \<noteq> (ca_major ?c, ca_name ?c)"
      using that by (simp_all add: chr)
    moreover obtain j where "alive v j" "ca_major (devices v ! j) = major" "ca_name (devices v ! j) = name"
      using kv \<open>(major, name) \<in> set (k_chrdevs v)\<close> unfolding kernel_ok_def by fast
    moreover from calculation have "j \<noteq> i" by blast
    ultimately show ?thesis unfolding a by (intro exI [of _ j]) (simp add: d)
  qed
  have "kernel_ok v'"
    using kv chr' unfolding kernel_ok_def a attrs irqs cls
    by (auto simp: d chr distinct_remove1 distinct_map_remove dest: notin_set_remove1)
  moreover have "card_ok j (devices v' ! j)" if "j < length (devices v)" for j
    using driver_ok_card [OF assms(1) that] i that
    by (auto simp: d nth_list_update card_ok_def freed_card_def null_mapping_def KNAME_def)
  ultimately show ?thesis using assms(1) d by (simp add: driver_ok_def)
qed

lemma remove_cases:
  assumes "acq200_remove irq pci v = Some v'"
  shows "acq200_lookupDevice pci v = Some None \<and> v' = v \<or> (\<exists>i. acq200_lookupDevice pci v = Some (Some i))"
proof -
  obtain r where r: "acq200_lookupDevice pci v = Some r"
    using assms unfolding acq200_remove_def by (cases "acq200_lookupDevice pci v") simp_all
  then show ?thesis using assms unfolding acq200_remove_def r bind.simps by (cases r) simp_all
qed

lemma remove_ok: "acq200_remove irq pci v = Some v' \<Longrightarrow> driver_ok v \<Longrightarrow> driver_ok v'"
  using remove_cases remove_found_ok by metis

lemma remove_all_ok: "remove_all cards v = Some v' \<Longrightarrow> driver_ok v \<Longrightarrow> driver_ok v'"
  by (induction cards v rule: remove_all.induct) (auto simp: bind_eq_Some_conv intro: remove_ok)

lemma alive_owner: "alive v i \<and> ca_pci (devices v ! i) = pci \<longleftrightarrow> i < length (devices v) \<and> map owner (devices v) ! i = (pci, False)"
  by (auto simp: alive_def owner_def)

section \<open>Reachable states\<close>

text \<open>Every bound card has an entry that has not been freed.\<close>

definition bound_ok :: "driver_module \<Rightarrow> bool" where
  "bound_ok m \<longleftrightarrow> distinct (m_bound m) \<and> (\<forall>pci \<in> set (m_bound m). \<exists>i. alive (m_drv m) i \<and> ca_pci (devices (m_drv m) ! i) = pci)"

lemma fresh_ok: "fresh_module m \<Longrightarrow> driver_ok (m_drv m) \<and> bound_ok m"
  by (simp add: fresh_module_def driver_ok_def kernel_ok_def bound_ok_def)

lemma bind_bound_ok:
  assumes "bound_ok m" "pci \<notin> set (m_bound m)" "map owner (devices v) = map owner (devices (m_drv m)) @ [(pci, False)]"
  shows "bound_ok (m\<lparr>m_drv := v, m_bound := (if rc = 0 then pci # m_bound m else m_bound m)\<rparr>)"
proof -
  have len: "length (devices v) = Suc (length (devices (m_drv m)))"
    using arg_cong [OF assms(3), of length] by simp
  have "\<exists>i. alive v i \<and> ca_pci (devices v ! i) = q" if q: "q = pci \<or> q \<in> set (m_bound m)" for q
  proof (cases "q = pci")
    case True
    then show ?thesis
      unfolding alive_owner assms(3) len by (intro exI [of _ "length (devices (m_drv m))"]) (simp add: nth_append)
  next
    case False
    then obtain i where "alive (m_drv m) i \<and> ca_pci (devices (m_drv m) ! i) = q"
      using assms(1) q by (auto simp: bound_ok_def)
    then show ?thesis
      unfolding alive_owner assms(3) len by (intro exI [of _ i]) (simp add: nth_append)
  qed
  then show ?thesis using assms(1,2) by (auto simp: bound_ok_def)
qed

lemma unbind_bound_ok:
  assumes "bound_ok m" "driver_ok (m_drv m)" "acq200_remove irq pci (m_drv m) = Some v"
  shows "bound_ok (m\<lparr>m_drv := v, m_bound := remove1 pci (m_bound m)\<rparr>)"
proof -
  have "\<exists>i. alive v i \<and> ca_pci (devices v ! i) = q" if q: "q \<in> set (m_bound m)" "q \<noteq> pci" for q
  proof -
    obtain i where i: "alive (m_drv m) i" "ca_pci (devices (m_drv m) ! i) = q"
      using assms(1) q(1) by (auto simp: bound_ok_def)
    show ?thesis
    proof (cases "v = m_drv m")
      case False
      then obtain j where j: "acq200_lookupDevice pci (m_drv m) = Some (Some j)" using remove_cases [OF assms(3)] by blast
      then have "j \<noteq> i" using by_pci.found_alive [OF j] i(2) q(2) by auto
      then show ?thesis
        using remove_found_ok [OF assms(2) j assms(3)] i by (intro exI [of _ i]) (simp add: alive_def)
    qed (use i in blast)
  qed
  then show ?thesis using assms(1) by (auto simp: bound_ok_def)
qed

lemma exit_ok:
  assumes "acq200_exit_module cards m = Some m'" "driver_ok (m_drv m)" "bound_ok m"
  shows "driver_ok (m_drv m') \<and> bound_ok m'"
  using assms remove_all_ok unfolding acq200_exit_module_def
  by (auto simp: bind_eq_Some_conv bound_ok_def split: if_splits)

lemma step_ok: "module_step m m' \<Longrightarrow> driver_ok (m_drv m) \<Longrightarrow> bound_ok m \<Longrightarrow> driver_ok (m_drv m') \<and> bound_ok m'"
proof (induction rule: module_step.induct)
  case (load m rc)
  then show ?case by (simp add: acq200_init_module_def acq200_init_def bound_ok_def)
next
  case (bind_card m pci ce ie ent hint intel rc v)
  then have p: "driver_ok v" "map owner (devices v) = map owner (devices (m_drv m)) @ [(pci, False)]" using probe_ok by blast+
  then show ?case using bind_bound_ok [OF bind_card.prems(2) bind_card.hyps(2) p(2), of rc] by (metis driver_module.select_convs(1) driver_module.surjective driver_module.update_convs(1,4))
next
  case (unbind_card pci m irq v)
  then show ?case using remove_ok unbind_bound_ok by simp
next
  case (unload m cards m')
  then show ?case using exit_ok by blast
qed

lemma reach_ok: "module_reach m \<Longrightarrow> driver_ok (m_drv m) \<and> bound_ok m"
  by (induction rule: module_reach.induct) (use fresh_ok step_ok in blast)+

section \<open>Unloading\<close>

lemma lookup_pci:
  assumes "i < length (devices v)" "distinct (map ca_pci (devices v))"
  shows "acq200_lookupDevice (ca_pci (devices v ! i)) v = (if \<exists>j \<le> i. ca_freed (devices v ! j) then None else Some (Some i))"
proof (cases "\<exists>j \<le> i. ca_freed (devices v ! j)")
  case True
  then obtain j where j: "j \<le> i" "ca_freed (devices v ! j)" by blast
  have "\<forall>k < j. ca_pci (devices v ! k) \<noteq> ca_pci (devices v ! i)"
    using assms j(1) by (auto simp: distinct_conv_nth)
  then show ?thesis
    using True by_pci.stopped_by_freed [of j v "ca_pci (devices v ! i)"] j assms(1) by auto
next
  case False
  have "\<forall>k < i. ca_pci (devices v ! k) \<noteq> ca_pci (devices v ! i)"
    using assms by (auto simp: distinct_conv_nth)
  then show ?thesis
    using False search_finds [of i "devices v" "\<lambda>c. ca_pci c = ca_pci (devices v ! i)" 0] assms(1)
    by (auto simp: acq200_lookupDevice_def)
qed

text \<open>
  Removing the cards of the positions \<open>is\<close> while those of \<open>F\<close> have been freed before: a search passes all lower positions, so it
  works exactly for descending positions below every freed one.
\<close>

lemma remove_position:
  assumes "driver_ok v" "distinct (map ca_pci (devices v))" "i < length (devices v)" "\<And>j. j \<le> i \<Longrightarrow> \<not> ca_freed (devices v ! j)"
  obtains v1 where "acq200_remove r (ca_pci (devices v ! i)) v = Some v1" "driver_ok v1"
    "length (devices v1) = length (devices v)" "\<And>j. ca_pci (devices v1 ! j) = ca_pci (devices v ! j)"
    "\<And>j. j < length (devices v) \<Longrightarrow> ca_freed (devices v1 ! j) \<longleftrightarrow> j = i \<or> ca_freed (devices v ! j)"
proof -
  have l: "acq200_lookupDevice (ca_pci (devices v ! i)) v = Some (Some i)"
    using lookup_pci [OF assms(3,2)] assms(4) by auto
  obtain v1 where v1: "acq200_remove r (ca_pci (devices v ! i)) v = Some v1"
    using remove_found [OF assms(1) l] by blast
  have v1': "driver_ok v1" "devices v1 = (devices v)[i := freed_card (devices v ! i)]"
    using remove_found_ok [OF assms(1) l v1] by blast+
  have "ca_pci (devices v1 ! j) = ca_pci (devices v ! j)" for j
    using assms(3) by (cases "j = i") (simp_all add: v1'(2) freed_card_def)
  moreover have "ca_freed (devices v1 ! j) \<longleftrightarrow> j = i \<or> ca_freed (devices v ! j)" if "j < length (devices v)" for j
    using that by (cases "j = i") (simp_all add: v1'(2) freed_card_def)
  ultimately show ?thesis using that v1 v1' by simp
qed

lemma remove_all_positions:
  assumes "driver_ok v" "distinct (map ca_pci (devices v))" "set is \<subseteq> {..<length (devices v)}"
    and "\<And>j. j < length (devices v) \<Longrightarrow> ca_freed (devices v ! j) \<longleftrightarrow> j \<in> F" "F \<subseteq> {..<length (devices v)}"
  shows "if sorted_wrt (>) is \<and> (\<forall>i \<in> set is. \<forall>j \<in> F. i < j)
    then \<exists>v'. remove_all (map (\<lambda>i. (irq i, ca_pci (devices v ! i))) is) v = Some v' \<and> driver_ok v' \<and>
           length (devices v') = length (devices v) \<and> (\<forall>j < length (devices v). ca_freed (devices v' ! j) \<longleftrightarrow> j \<in> F \<union> set is)
    else remove_all (map (\<lambda>i. (irq i, ca_pci (devices v ! i))) is) v = None"
  using assms
proof (induction "is" arbitrary: v F)
  case Nil
  then show ?case by auto
next
  case (Cons i "is")
  let ?p = "\<lambda>v i. (irq i, ca_pci (devices v ! i))"
  have i: "i < length (devices v)" using Cons.prems(3) by simp
  have freed: "(\<exists>j \<le> i. ca_freed (devices v ! j)) \<longleftrightarrow> (\<exists>j \<in> F. j \<le> i)"
    using Cons.prems(4) i by (meson le_less_trans)
  show ?case
  proof (cases "\<exists>j \<in> F. j \<le> i")
    case True
    then have "acq200_remove (irq i) (ca_pci (devices v ! i)) v = None"
      using lookup_pci [OF i Cons.prems(2)] freed by (simp add: acq200_remove_def)
    moreover have "\<not> (\<forall>j \<in> F. i < j)" using True by force
    ultimately show ?thesis by auto
  next
    case False
    then obtain v1 where v1: "acq200_remove (irq i) (ca_pci (devices v ! i)) v = Some v1" "driver_ok v1"
      "length (devices v1) = length (devices v)" "\<And>j. ca_pci (devices v1 ! j) = ca_pci (devices v ! j)"
      "\<And>j. j < length (devices v) \<Longrightarrow> ca_freed (devices v1 ! j) \<longleftrightarrow> j = i \<or> ca_freed (devices v ! j)"
      using remove_position [OF Cons.prems(1,2) i] freed by metis
    have "map ca_pci (devices v1) = map ca_pci (devices v)"
      using v1(4) by (simp add: list_eq_iff_nth_eq v1(3))
    moreover have "ca_freed (devices v1 ! j) \<longleftrightarrow> j \<in> insert i F" if "j < length (devices v1)" for j
      using Cons.prems(4) v1(5) that by (simp add: v1(3))
    ultimately have ih: "if sorted_wrt (>) is \<and> (\<forall>k \<in> set is. \<forall>j \<in> insert i F. k < j)
      then \<exists>v'. remove_all (map (?p v1) is) v1 = Some v' \<and> driver_ok v' \<and> length (devices v') = length (devices v1) \<and>
             (\<forall>j < length (devices v1). ca_freed (devices v' ! j) \<longleftrightarrow> j \<in> insert i F \<union> set is)
      else remove_all (map (?p v1) is) v1 = None"
      using Cons.IH [of v1 "insert i F"] v1 Cons.prems i by simp
    have "remove_all (map (?p v) (i # is)) v = remove_all (map (?p v1) is) v1" using v1(1,4) by simp
    moreover have "F \<union> set (i # is) = insert i F \<union> set is" "length (devices v) = length (devices v1)" by (auto simp: v1(3))
    moreover have "(sorted_wrt (>) (i # is) \<and> (\<forall>k \<in> set (i # is). \<forall>j \<in> F. k < j)) \<longleftrightarrow>
        (sorted_wrt (>) is \<and> (\<forall>k \<in> set is. \<forall>j \<in> insert i F. k < j))"
      using False by auto
    ultimately show ?thesis using ih by (simp only:)
  qed
qed

definition example_module :: driver_module where
  "example_module = \<lparr>m_drv = example_driver, m_class = False, m_registered = False, m_bound = []\<rparr>"

text \<open>The module with one bound card.\<close>

definition loaded_module :: "driver \<Rightarrow> driver_module" where
  "loaded_module v = \<lparr>m_drv = v, m_class = True, m_registered = True, m_bound = [5]\<rparr>"

lemma example_reach:
  "\<exists>v. acq200_probe example_create example_init True 5 example_driver = Some (0, v) \<and> module_reach (loaded_module v)"
proof -
  let ?m = "example_module\<lparr>m_class := True, m_registered := True\<rparr>"
  have "fresh_module example_module" by (simp add: fresh_module_def example_module_def example_driver_def)
  then have "module_reach example_module" "module_step example_module (snd (acq200_init_module 0 example_module))"
    by (auto intro: module_reach.start module_step.load)
  then have m: "module_reach ?m"
    using module_reach.more by (simp add: acq200_init_module_def acq200_init_def)
  obtain v where p: "acq200_probe example_create example_init True 5 example_driver = Some (0, v)"
    using example_probe by blast
  have "card_env example_create example_init"
    by (simp add: card_env_def example_create_def example_init_def acking_exchange_def MBOX_NUM_def)
  moreover have "IS_ACQ196 0x8086 \<lparr>vendor = 0x8086, device_id = 0x0319\<rparr> = True" by (simp add: IS_ACQ196_def)
  moreover have "\<lparr>vendor = 0x8086, device_id = 0x0319\<rparr> \<in> set (acq200_pci_tbl 0x3388 0x8086)" by (simp add: acq200_pci_tbl_def)
  ultimately have "module_step ?m (?m\<lparr>m_drv := v, m_bound := (if (0::int) = 0 then 5 # m_bound ?m else m_bound ?m)\<rparr>)"
    by (intro module_step.bind_card [where hint = "0x3388" and intel = "0x8086" and ent = "\<lparr>vendor = 0x8086, device_id = 0x0319\<rparr>"]) (use p in \<open>simp_all add: example_module_def\<close>)
  then have "module_reach (loaded_module v)"
    using module_reach.more [OF m] by (simp add: example_module_def loaded_module_def)
  with p show ?thesis by blast
qed

section \<open>Properties\<close>



text \<open>C39. Unloading the module while no entry has been freed.  The PCI layer removes the bound cards one after the other, here those of the
positions \<open>is\<close> of the table.  If it removes them in descending order of their numbers, every one of them is freed, none of their
attribute files or class devices remains, the driver is unregistered and its class destroyed.  In any other order a search for a card
runs into the freed entry of one removed before it.\<close>

theorem exit_module_order:
  assumes "module_reach m" "devices (m_drv m) \<noteq> []" "\<forall>c \<in> set (devices (m_drv m)). \<not> ca_freed c"
    and "distinct (map ca_pci (devices (m_drv m)))" "set is \<subseteq> {..<length (devices (m_drv m))}"
  shows "case acq200_exit_module (map (\<lambda>i. (irq i, ca_pci (devices (m_drv m) ! i))) is) m of
      None \<Rightarrow> \<not> sorted_wrt (>) is
    | Some m' \<Rightarrow> sorted_wrt (>) is \<and> \<not> m_registered m' \<and> \<not> m_class m' \<and>
        (\<forall>i \<in> set is. ca_freed (devices (m_drv m') ! i) \<and> i \<notin> set (k_class (m_drv m')) \<and> (\<forall>a. (i, a) \<notin> set (k_attrs (m_drv m'))))"
proof -
  let ?cards = "map (\<lambda>i. (irq i, ca_pci (devices (m_drv m) ! i))) is"
  have ok: "driver_ok (m_drv m)" using reach_ok [OF assms(1)] by simp
  have pos: "if sorted_wrt (>) is then \<exists>v'. remove_all ?cards (m_drv m) = Some v' \<and> driver_ok v' \<and>
         length (devices v') = length (devices (m_drv m)) \<and> (\<forall>j < length (devices (m_drv m)). ca_freed (devices v' ! j) \<longleftrightarrow> j \<in> set is)
      else remove_all ?cards (m_drv m) = None"
    using remove_all_positions [OF ok assms(4,5), of "{}" irq] assms(3) by (simp split: if_split_asm)
  show ?thesis
  proof (cases "sorted_wrt (>) is")
    case True
    then obtain v' where v': "remove_all ?cards (m_drv m) = Some v'" "driver_ok v'"
      "\<forall>j < length (devices (m_drv m)). ca_freed (devices v' ! j) \<longleftrightarrow> j \<in> set is" using pos by auto
    have "ca_freed (devices v' ! i) \<and> i \<notin> set (k_class v') \<and> (\<forall>a. (i, a) \<notin> set (k_attrs v'))" if "i \<in> set is" for i
    proof -
      have f: "ca_freed (devices v' ! i)" using v'(3) that assms(5) by auto
      then have "\<not> alive v' i" by (simp add: alive_def)
      then show ?thesis using v'(2) f unfolding driver_ok_def kernel_ok_def by fastforce
    qed
    then show ?thesis using assms(2) True by (simp add: acq200_exit_module_def v'(1))
  next
    case False
    then show ?thesis using pos assms(2) by (simp add: acq200_exit_module_def)
  qed
qed

theorem exit_module_order_witness:
  "\<exists>v m'. module_reach (loaded_module v) \<and> acq200_exit_module [(11, 5)] (loaded_module v) = Some m' \<and> \<not> m_registered m' \<and>
     ca_freed (devices (m_drv m') ! 0) \<and> (\<forall>a. (0, a) \<notin> set (k_attrs (m_drv m')))"
proof -
  obtain v where p: "acq200_probe example_create example_init True 5 example_driver = Some (0, v)" and r: "module_reach (loaded_module v)"
    using example_reach by blast
  obtain c where c: "devices v = [c]" "ca_pci c = 5" "\<not> ca_freed c"
    using probe_effect [OF p] by (auto simp: Let_def example_driver_def)
  have "case acq200_exit_module (map (\<lambda>i. (11, ca_pci (devices (m_drv (loaded_module v)) ! i))) [0]) (loaded_module v) of
      None \<Rightarrow> \<not> sorted_wrt (>) [0::nat]
    | Some m' \<Rightarrow> sorted_wrt (>) [0::nat] \<and> \<not> m_registered m' \<and> \<not> m_class m' \<and>
        (\<forall>i \<in> set [0]. ca_freed (devices (m_drv m') ! i) \<and> i \<notin> set (k_class (m_drv m')) \<and> (\<forall>a. (i, a) \<notin> set (k_attrs (m_drv m'))))"
    by (rule exit_module_order [OF r]) (simp_all add: loaded_module_def c)
  then have "case acq200_exit_module [(11, 5)] (loaded_module v) of None \<Rightarrow> False
    | Some m' \<Rightarrow> \<not> m_registered m' \<and> ca_freed (devices (m_drv m') ! 0) \<and> (\<forall>a. (0, a) \<notin> set (k_attrs (m_drv m')))"
    by (simp add: loaded_module_def c split: option.splits)
  then show ?thesis using r by (auto split: option.splits)
qed

text \<open>A module that never had a card is unloaded without being unregistered: the PCI layer keeps a driver whose code is gone.  The
registration's result is not looked at either, so a module whose registration failed is loaded all the same.\<close>

theorem exit_module_without_cards:
  assumes "fresh_module m"
  shows "fst (acq200_init_module rc m) = 0 \<and> m_registered (snd (acq200_init_module rc m)) = (rc = 0) \<and>
     acq200_exit_module cards (snd (acq200_init_module rc m)) = Some (snd (acq200_init_module rc m))"
  using assms by (simp add: acq200_init_module_def acq200_init_def acq200_exit_module_def fresh_module_def)

theorem exit_module_without_cards_witness:
  "m_registered (snd (acq200_init_module 0 example_module)) \<and>
     acq200_exit_module [] (snd (acq200_init_module 0 example_module)) = Some (snd (acq200_init_module 0 example_module))"
proof -
  have "fresh_module example_module" by (simp add: fresh_module_def example_module_def example_driver_def)
  from exit_module_without_cards [OF this, of 0 "[]"] show ?thesis by simp
qed

end
