(* ===== verification/Attributes.thy ===== *)
theory Attributes
  imports Kernel_Log Pool_Listing Imask Driver_Module
begin

text \<open>
  The attribute files as the kernel sees them (\<^verbatim>\<open>src/acq200_if.c\<close> and \<^verbatim>\<open>src/acq200_bigbuf_alloc.c\<close>): the declarations with their names,
  permissions and operations, the way from a read of a file to its \<open>show\<close> operation, and the creation of the class files in the variant for
  older kernels.
\<close>

section \<open>Declarations\<close>

datatype (plugins only: code size) show_fn = ShowHeartbeat | ShowCpciSlot | ShowBusyMutex | ShowInterruptCount | ShowHostPa | ShowHostLen | ShowLlhostPa
  | ShowLlhostLen | ShowInputChannels | ShowOutputChannels | ShowBuffers | ShowPool | ShowRchList | ShowImask | ShowDev

datatype store_fn = StoreImask

record attribute =
  at_name :: string
  at_mode :: nat
  at_show :: show_fn
  at_store :: "store_fn option"

definition S_IRUGO :: nat where "S_IRUGO = 0x124"
definition S_IWUSR :: nat where "S_IWUSR = 0x80"

definition DEVICE_ATTR :: "string \<Rightarrow> nat \<Rightarrow> show_fn \<Rightarrow> store_fn option \<Rightarrow> attribute" where
  "DEVICE_ATTR name mode sh st = \<lparr>at_name = name, at_mode = mode, at_show = sh, at_store = st\<rparr>"

definition attr_heartbeat :: attribute where "attr_heartbeat = DEVICE_ATTR ''heartbeat'' S_IRUGO ShowHeartbeat None"
definition attr_cpci_slot :: attribute where "attr_cpci_slot = DEVICE_ATTR ''cpci_slot'' S_IRUGO ShowCpciSlot None"
definition attr_buffer_AB_busy_mutex :: attribute where
  "attr_buffer_AB_busy_mutex = DEVICE_ATTR ''buffer_AB_busy_mutex'' S_IRUGO ShowBusyMutex None"
definition attr_interrupt_count :: attribute where "attr_interrupt_count = DEVICE_ATTR ''interrupt_count'' S_IRUGO ShowInterruptCount None"
definition attr_host_pa :: attribute where "attr_host_pa = DEVICE_ATTR ''host_pa'' S_IRUGO ShowHostPa None"
definition attr_host_len :: attribute where "attr_host_len = DEVICE_ATTR ''host_len'' S_IRUGO ShowHostLen None"
definition attr_llhost_pa :: attribute where "attr_llhost_pa = DEVICE_ATTR ''llhost_pa'' S_IRUGO ShowLlhostPa None"
definition attr_llhost_len :: attribute where "attr_llhost_len = DEVICE_ATTR ''llhost_len'' S_IRUGO ShowLlhostLen None"
definition attr_available_input_channels :: attribute where
  "attr_available_input_channels = DEVICE_ATTR ''available_input_channels'' S_IRUGO ShowInputChannels None"
definition attr_available_output_channels :: attribute where
  "attr_available_output_channels = DEVICE_ATTR ''available_output_channels'' S_IRUGO ShowOutputChannels None"
definition attr_buffers :: attribute where "attr_buffers = DEVICE_ATTR ''buffers'' S_IRUGO ShowBuffers None"
definition attr_imask :: attribute where "attr_imask = DEVICE_ATTR ''imask'' (S_IRUGO OR S_IWUSR) ShowImask (Some StoreImask)"
definition attr_dev :: attribute where "attr_dev = DEVICE_ATTR ''dev'' S_IRUGO ShowDev None"
definition attr_pool :: attribute where "attr_pool = DEVICE_ATTR ''pool'' S_IRUGO ShowPool None"
definition attr_rch_list :: attribute where "attr_rch_list = DEVICE_ATTR ''rch_list'' S_IRUGO ShowRchList None"

definition attributes :: "attribute list" where
  "attributes = [attr_heartbeat, attr_cpci_slot, attr_buffer_AB_busy_mutex, attr_interrupt_count, attr_host_pa, attr_host_len, attr_llhost_pa,
     attr_llhost_len, attr_available_input_channels, attr_available_output_channels, attr_buffers, attr_imask, attr_dev, attr_pool, attr_rch_list]"

lemmas attribute_defs = attributes_def attr_heartbeat_def attr_cpci_slot_def attr_buffer_AB_busy_mutex_def attr_interrupt_count_def
  attr_host_pa_def attr_host_len_def attr_llhost_pa_def attr_llhost_len_def attr_available_input_channels_def
  attr_available_output_channels_def attr_buffers_def attr_imask_def attr_dev_def attr_pool_def attr_rch_list_def DEVICE_ATTR_def

section \<open>Reading a file\<close>

text \<open>What the operations see besides the driver's table: the status mailbox at three moments, the PCI address, the kernel's formats for
addresses, the page to fill, and the transport and mask state of a card.\<close>

record attr_env =
  ae_s :: "u32 \<times> u32 \<times> u32"
  ae_devfn :: u32
  ae_fmt :: "int \<Rightarrow> string"
  ae_page :: string
  ae_ptr :: fmt_ptr
  ae_i2o :: "nat \<Rightarrow> i2o_dev"
  ae_imask :: "nat \<Rightarrow> imask_dev"

primrec call_show :: "attr_env \<Rightarrow> show_fn \<Rightarrow> nat \<Rightarrow> driver \<Rightarrow> (int + string) option" where
  "call_show e ShowHeartbeat dev v = (case ae_s e of (s1, s2, s3) \<Rightarrow> show_heartbeat s1 s2 s3 dev v)"
| "call_show e ShowCpciSlot dev v = show_cpci_slot (ae_devfn e) dev v"
| "call_show e ShowBusyMutex dev v = map_option fst (show_buffer_AB_busy_mutex dev v)"
| "call_show e ShowInterruptCount dev v = show_interrupt_count dev v"
| "call_show e ShowHostPa dev v = show_host_pa dev v"
| "call_show e ShowHostLen dev v = show_host_len dev v"
| "call_show e ShowLlhostPa dev v = show_llhost_pa dev v"
| "call_show e ShowLlhostLen dev v = show_llhost_len dev v"
| "call_show e ShowInputChannels dev v = show_available_input_channels dev v"
| "call_show e ShowOutputChannels dev v = show_available_output_channels dev v"
| "call_show e ShowBuffers dev v = show_buffers (ae_fmt e) (ae_page e) dev v"
| "call_show e ShowPool dev v = map_option Inr (show_pool (ae_ptr e) dev v)"
| "call_show e ShowRchList dev v = map_option (\<lambda>i. Inr (show_rch_list (ae_ptr e) (map_option (ae_i2o e) i))) (acq200_lookupDevice dev v)"
| "call_show e ShowImask dev v = map_option (\<lambda>i. show_imask (map_option (ae_imask e) i)) (acq200_lookupDeviceFromClass dev v)"
| "call_show e ShowDev dev v = show_dev dev v"

definition ENOENT :: int where "ENOENT = 2"

definition read_attribute :: "attr_env \<Rightarrow> string \<Rightarrow> nat \<Rightarrow> driver \<Rightarrow> (int + string) option" where
  "read_attribute e name dev v =
     (case find (\<lambda>a. at_name a = name) attributes of None \<Rightarrow> Some (Inl (- ENOENT)) | Some a \<Rightarrow> call_show e (at_show a) dev v)"

section \<open>Older kernels\<close>

text \<open>\<open>fails\<close> tells for which files the kernel refuses; the macro passes the line it is expanded in.\<close>

definition acq200_class_device_create_file :: "(string \<Rightarrow> bool) \<Rightarrow> nat \<Rightarrow> nat \<Rightarrow> string \<Rightarrow> driver \<Rightarrow> driver \<times> klog" where
  "acq200_class_device_create_file fails LINE i name v =
     (if fails name then (v, kerr ''acq200_class_device_create_file'' (''acq200_if.c:'' @ dec_nat LINE @ '' device_create_file''))
      else (create_files i [name] v, []))"

definition acq200_create_sysfs_class_orig :: "(string \<Rightarrow> bool) \<Rightarrow> nat \<Rightarrow> driver \<Rightarrow> driver \<times> klog" where
  "acq200_create_sysfs_class_orig fails i v =
     (let (v1, l1) = acq200_class_device_create_file fails 410 i ''imask'' v;
          (v2, l2) = acq200_class_device_create_file fails 411 i ''dev'' v1
      in (v2, l1 @ l2))"

definition acq200_remove_sysfs_class_orig :: "nat \<Rightarrow> driver \<Rightarrow> driver" where
  "acq200_remove_sysfs_class_orig i v = remove_files i [''dev''] (remove_files i [''imask''] v)"

section \<open>Properties\<close>

text \<open>The declarations and the files agree: the names declared are the names of the files the driver creates for a card, each once; every
file may be read by everybody, and only the interrupt mask may be written, by the owner; a file may be written exactly if it has a store
operation.\<close>

theorem attribute_declarations:
  "set (map at_name attributes) = set (pool_attrs @ device_attrs @ class_attrs) \<and> distinct (map at_name attributes) \<and>
   length attributes = length (pool_attrs @ device_attrs @ class_attrs) \<and>
   list_all (\<lambda>a. at_mode a AND S_IRUGO = S_IRUGO \<and> (at_mode a AND S_IWUSR \<noteq> 0 \<longleftrightarrow> at_store a \<noteq> None) \<and>
     (at_store a \<noteq> None \<longleftrightarrow> a = attr_imask)) attributes \<and>
   distinct (map at_show attributes)"
  by (simp add: attribute_defs pool_attrs_def device_attrs_def class_attrs_def S_IRUGO_def S_IWUSR_def set_eq_subset)



text \<open>The variant for older kernels creates the same class files, logs one error for each file the kernel refuses and creates the others, and
removes what it created.\<close>

theorem class_files_old_kernels:
  "acq200_create_sysfs_class_orig (\<lambda>_. False) i v = (acq200_create_sysfs_class i v, []) \<and>
   acq200_remove_sysfs_class_orig i v = acq200_remove_sysfs_class i v \<and>
   (let (v', l) = acq200_create_sysfs_class_orig fails i v in
      k_attrs v' = k_attrs v @ map (Pair i) (filter (\<lambda>a. \<not> fails a) class_attrs) \<and> map fst l = map (\<lambda>_. KE) (filter fails class_attrs))"
proof -
  have f: "(\<lambda>x. (case x of (j, a) \<Rightarrow> j = i \<longrightarrow> a \<noteq> ''imask'') \<and> (case x of (j, a) \<Rightarrow> j = i \<longrightarrow> a \<noteq> ''dev'')) =
      (\<lambda>(j, a). j = i \<longrightarrow> a \<noteq> ''imask'' \<and> a \<noteq> ''dev'')"
    by (auto simp: fun_eq_iff)
  show ?thesis
    by (simp add: acq200_create_sysfs_class_orig_def acq200_class_device_create_file_def acq200_create_sysfs_class_def create_files_def f
        acq200_remove_sysfs_class_orig_def acq200_remove_sysfs_class_def remove_files_def class_attrs_def kerr_def printk_def)
qed

end
