(* ===== verification/Parameters.thy ===== *)
theory Parameters
  imports Kernel_Log
begin

text \<open>
  The parameters of the module and the texts it announces itself with (\<^verbatim>\<open>src/acq200.c\<close>): their values when nothing is given on loading, and who may
  change them afterwards through the kernel's parameter files.
\<close>

section \<open>Definitions\<close>

record module_params =
  acq200_hostdrv_debug :: int
  acq200_use_interrupts :: int
  acq200_debug_mbox :: int
  slots_param :: "int list"
  acq200_stub_copy_to_user :: int
  user_max_buf :: int
  acq200_AB_dmabuf_max_order :: int

definition LINUX26_MAXALLOC_PAGE_ORDER :: nat where "LINUX26_MAXALLOC_PAGE_ORDER = 12"

definition default_params :: module_params where
  "default_params = \<lparr>acq200_hostdrv_debug = 0, acq200_use_interrupts = 1, acq200_debug_mbox = 0, slots_param = replicate MAXDEV 0,
     acq200_stub_copy_to_user = 0, user_max_buf = 0x300000, acq200_AB_dmabuf_max_order = int LINUX26_MAXALLOC_PAGE_ORDER\<rparr>"

text \<open>The permissions of the parameter files, in the kernel's bits.\<close>

definition param_modes :: "(string \<times> nat) list" where
  "param_modes = [(''acq200_hostdrv_debug'', 0x1a4), (''acq200_use_interrupts'', 0x1a4), (''acq200_debug_mbox'', 0x1a4), (''slots'', 0x124),
     (''acq200_stub_copy_to_user'', 0x1a4), (''user_max_buf'', 0x1a4), (''acq200_AB_dmabuf_max_order'', 0x1a4)]"

definition acq200_driver_name :: string where "acq200_driver_name = ''acq200''"
definition acq200_driver_string :: string where "acq200_driver_string = ''D-TACQ intelligent data acquisition device''"
definition acq200_driver_version :: string where "acq200_driver_version = ''$Revision: 1.60 $ B1114''"
definition acq200_copyright :: string where "acq200_copyright = ''Copyright (c) 2006/7 D-TACQ Solutions Ltd''"

section \<open>Properties\<close>

lemma three_dvd_power2: "\<not> (3 :: int) dvd 2 ^ n"
proof -
  have "(2 :: int) ^ n mod 3 = 1 \<or> (2 :: int) ^ n mod 3 = 2"
  proof (induction n)
    case (Suc n)
    have "x mod 3 = 1 \<or> x mod 3 = 2 \<Longrightarrow> 2 * x mod 3 = 1 \<or> 2 * x mod 3 = 2" for x :: int by presburger
    from this [OF Suc] show ?case by simp
  qed simp
  then show ?thesis by (auto simp: dvd_eq_mod_eq_0)
qed

text \<open>
  The limit of a stream request.  What the driver asks the card for is the smaller of the length of a stream buffer and the limit of the
  parameter; the limit is made for whole sets of 96 channels of two bytes.  With the default limit a request is a number of whole sets exactly if the
  buffer has at least \<open>2^10\<close> pages; a buffer smaller than that is asked for in full and ends within a set.
\<close>

theorem stream_request_whole_sets:
  assumes "dma_buf_len b = 4096 * 2 ^ order b"
  shows "192 dvd min (dma_buf_len b) (user_max_buf default_params) \<longleftrightarrow> 10 \<le> order b"
proof (cases "10 \<le> order b")
  case True
  then have "(2 :: int) ^ 10 \<le> 2 ^ order b" by (intro power_increasing) auto
  then show ?thesis using True assms by (simp add: default_params_def min_def)
next
  case False
  then have "(2 :: int) ^ order b \<le> 2 ^ 9" by (intro power_increasing) auto
  then have "min (dma_buf_len b) (user_max_buf default_params) = 2 ^ (12 + order b)" using assms by (simp add: default_params_def power_add)
  moreover have "\<not> 192 dvd (2 :: int) ^ (12 + order b)"
    using three_dvd_power2 [of "12 + order b"] dvd_trans [of 3 192 "(2 :: int) ^ (12 + order b)"] by auto
  ultimately show ?thesis using False by simp
qed

theorem stream_request_whole_sets_witness:
  "192 dvd min (dma_buf_len \<lparr>order = 10, db_va = 1, db_pa = 0\<rparr>) (user_max_buf default_params) \<and>
   \<not> 192 dvd min (dma_buf_len \<lparr>order = 9, db_va = 1, db_pa = 0\<rparr>) (user_max_buf default_params)"
  using stream_request_whole_sets [of "\<lparr>order = 10, db_va = 1, db_pa = 0\<rparr>"] stream_request_whole_sets [of "\<lparr>order = 9, db_va = 1, db_pa = 0\<rparr>"]
  by (simp add: dma_buf_len_def PAGE_SIZE_def)

text \<open>A driver loaded without parameters is silent about debugging at every positive level, does not trace mailboxes, uses interrupts and
copies to its users; the largest stream buffer is as large as the communications buffer may be; everybody may read the parameters, and all
of them but the table of slots may be changed by the owner while the driver runs.\<close>

theorem default_parameters:
  "(\<forall>lvl. \<not> DBG_FIRED (acq200_hostdrv_debug default_params) (int (Suc lvl))) \<and> wbr_log (acq200_debug_mbox default_params) x d mbc = [] \<and>
   acq200_use_interrupts default_params \<noteq> 0 \<and> acq200_stub_copy_to_user default_params = 0 \<and> length (slots_param default_params) = MAXDEV \<and>
   acq200_AB_dmabuf_max_order default_params = int COMMSBUF_ORDER \<and>
   list_all (\<lambda>(name, m). m AND 0x124 = 0x124 \<and> (m AND 0x92 = (if name = ''slots'' then 0 else 0x80))) param_modes"
  by (simp add: default_params_def DBG_FIRED_def LOCAL_DEBUG_def wbr_log_def COMMSBUF_ORDER_def LINUX26_MAXALLOC_PAGE_ORDER_def param_modes_def)

end
