(* ===== verification/Char_Device.thy ===== *)
theory Char_Device
  imports Paths Printf
begin

text \<open>
  The read and write operations of the device nodes that are not bridges (\<open>acq200_read\<close> and \<open>acq200_write\<close> of \<^verbatim>\<open>src/acq200.c\<close>), the
  table of file operations they stand in, and the copy helpers of \<^verbatim>\<open>src/acq200_i2o.c\<close>.  How many bytes of the user's buffer can be
  reached is an argument: \<open>copy_to_user\<close> copies up to there and returns the number of bytes left.

  The lemmas show that a sequence of reads delivers the description of the communications buffer once, in order and to the byte, that
  the text always fits the array it is formatted in, and where the narrowing of the file position leads outside that array.
\<close>

section \<open>Text\<close>

text \<open>\<^verbatim>\<open>%08lx\<close> of an \<open>unsigned long\<close>.\<close>

definition hexl8 :: "nat \<Rightarrow> string" where
  "hexl8 n = replicate (8 - length (hex_nat n)) CHR ''0'' @ hex_nat n"

definition bigbuf_line :: "DmaBuf \<Rightarrow> string" where
  "bigbuf_line b = ''BIGBUF: pa=0x'' @ hex8 (db_pa b) @ '' len=0x'' @ hexl8 (nat (ORDER2LEN (order b))) @ [CHR 0x0A]"

section \<open>Reading and writing\<close>

text \<open>Conversion to \<open>int\<close> keeps the low 32 bits.\<close>

definition c_int :: "int \<Rightarrow> int" where "c_int i = sint (word_of_int i :: u32)"

definition MYLINE :: int where "MYLINE = 80"

definition copy_to_user :: "nat \<Rightarrow> string \<Rightarrow> nat \<times> string" where
  "copy_to_user avail src = (length src - avail, take avail src)"

text \<open>
  The result holds the return value, the bytes that arrived at the user and the new position.  It is \<open>None\<close> when bytes outside the
  array \<open>myline\<close> would be copied.
\<close>

definition acq200_read :: "nat \<Rightarrow> DmaBuf \<Rightarrow> int \<Rightarrow> int \<Rightarrow> (int \<times> string \<times> int) option" where
  "acq200_read avail dbuf count posp =
     (let pos = c_int posp; myline = bigbuf_line dbuf; len = int (length myline) in
      if pos < len then
        let n = min (c_int count) (len - pos) in
        if n < 0 \<or> (pos < 0 \<and> 0 < n) then None
        else
          let (rc, ubuf) = copy_to_user avail (take (nat n) (drop (nat pos) myline)) in
          if rc \<noteq> 0 then Some (- EFAULT, ubuf, posp) else Some (n, ubuf, posp + n)
      else Some (0, [], posp))"

definition acq200_write :: "string \<Rightarrow> int \<Rightarrow> int \<times> int" where
  "acq200_write ubuf posp = (0, posp)"

section \<open>Copy helpers\<close>

text \<open>Both return the number of bytes that were not copied; the first one copies nothing when the profiling aid is on.\<close>

definition acq200_copy_from_io_to_user :: "bool \<Rightarrow> nat \<Rightarrow> string \<Rightarrow> nat \<Rightarrow> nat \<times> string" where
  "acq200_copy_from_io_to_user acq200_stub_copy_to_user avail iobuf count =
     (if acq200_stub_copy_to_user then (0, []) else copy_to_user avail (take count iobuf))"

definition acq200_copy_from_user_to_io :: "nat \<Rightarrow> string \<Rightarrow> nat \<Rightarrow> nat \<times> string" where
  "acq200_copy_from_user_to_io avail ubuf count = (count - avail, take avail (take count ubuf))"

section \<open>File operations\<close>

datatype read_op = AcqRead | BridgeRead | BridgeReadAB
datatype write_op = AcqWrite | BridgeWrite
datatype release_op = AcqRelease | BridgeRelease | BridgeReleaseAB

record file_operations =
  f_read :: "read_op option"
  f_write :: "write_op option"
  f_ioctl :: "bool option"
  f_release :: release_op
  f_open :: bool

text \<open>\<open>f_ioctl\<close> tells whether the ioctl is the one of the stream buffers, \<open>f_open\<close> whether the table has an open of its own.\<close>

fun fops_table :: "fops \<Rightarrow> file_operations" where
  "fops_table AcqFops = \<lparr>f_read = Some AcqRead, f_write = Some AcqWrite, f_ioctl = Some False, f_release = AcqRelease, f_open = False\<rparr>"
| "fops_table LlhostFops = \<lparr>f_read = Some AcqRead, f_write = Some AcqWrite, f_ioctl = Some False, f_release = AcqRelease, f_open = False\<rparr>"
| "fops_table MboxFops = \<lparr>f_read = Some AcqRead, f_write = Some AcqWrite, f_ioctl = Some False, f_release = AcqRelease, f_open = False\<rparr>"
| "fops_table BridgeFops = \<lparr>f_read = Some BridgeRead, f_write = Some BridgeWrite, f_ioctl = None, f_release = BridgeRelease, f_open = False\<rparr>"
| "fops_table BridgeABFops =
     \<lparr>f_read = Some BridgeReadAB, f_write = Some BridgeWrite, f_ioctl = Some True, f_release = BridgeReleaseAB, f_open = True\<rparr>"

section \<open>Lemmas\<close>

lemma length_hex_nat: "0 < k \<Longrightarrow> n < 16 ^ k \<Longrightarrow> length (hex_nat n) \<le> k"
proof (induction k arbitrary: n)
  case (Suc k)
  show ?case
  proof (cases "n < 16")
    case True
    then show ?thesis by (subst hex_nat.simps) simp
  next
    case False
    then have "0 < k" using Suc.prems(2) by (cases k) simp_all
    moreover have "n div 16 < 16 ^ k" using Suc.prems(2) by (simp add: less_mult_imp_div_less mult.commute)
    ultimately show ?thesis using Suc.IH [of "n div 16"] False by (subst hex_nat.simps) simp
  qed
qed simp

lemma length_hexl8: "n < 16 ^ k \<Longrightarrow> 8 \<le> k \<Longrightarrow> length (hexl8 n) \<le> k"
  using length_hex_nat [of k n] by (simp add: hexl8_def)

text \<open>The text fits its array together with the terminating zero, for every order an \<open>int\<close> shift can have.\<close>

lemma length_bigbuf_line: "order b \<le> 30 \<Longrightarrow> length (bigbuf_line b) \<le> 42"
proof -
  assume o: "order b \<le> 30"
  have "nat (ORDER2LEN (order b)) = 2 ^ (order b) * 4096" by (simp add: ORDER2LEN_def PAGE_SIZE_def nat_mult_distrib nat_power_eq)
  also have "\<dots> \<le> 2 ^ 30 * 4096" using power_increasing [OF o, of "2::nat"] by simp
  also have "\<dots> < 16 ^ 12" by simp
  finally have "length (hexl8 (nat (ORDER2LEN (order b)))) \<le> 12" by (rule length_hexl8) simp
  then show ?thesis by (simp add: bigbuf_line_def hex8_def)
qed

lemma c_int_small: "- (2 ^ 31) \<le> i \<Longrightarrow> i < 2 ^ 31 \<Longrightarrow> c_int i = i"
  unfolding c_int_def by (simp add: sint_sbintrunc' signed_take_bit_int_eq_self)

lemma c_int_period: "c_int (i + 2 ^ 32) = c_int i"
proof -
  have "word_of_int (i + 2 ^ 32) = (word_of_int i :: u32)" by (simp add: word_of_int_eq_iff take_bit_eq_mod del: of_int_add)
  then show ?thesis by (simp only: c_int_def)
qed

lemma c_int_wraps: "2 ^ 31 \<le> i \<Longrightarrow> i < 2 ^ 32 \<Longrightarrow> c_int i = i - 2 ^ 32"
  using c_int_period [of "i - 2 ^ 32"] c_int_small [of "i - 2 ^ 32"] by simp

text \<open>A read at a position that fits an \<open>int\<close>, with a reachable buffer.\<close>

lemma read_inside:
  assumes "p < 2 ^ 31" "c < 2 ^ 31" "c \<le> avail"
  shows "acq200_read avail b (int c) (int p) =
    (let s = take c (drop p (bigbuf_line b)) in Some (int (length s), s, int p + int (length s)))"
proof -
  have ci: "c_int (int p) = int p" "c_int (int c) = int c" using assms by (auto intro!: c_int_small)
  show ?thesis
  proof (cases "p < length (bigbuf_line b)")
    case True
    have m: "min (int c) (int (length (bigbuf_line b)) - int p) = int (length (take c (drop p (bigbuf_line b))))"
      using True by auto
    show ?thesis
      using True assms(3) unfolding acq200_read_def ci Let_def m
      by (simp add: copy_to_user_def) (metis length_drop min.commute take_take take_all_iff order_refl)
  qed (simp add: acq200_read_def ci)
qed

section \<open>Sequences of reads\<close>

text \<open>A client that reads again and again with buffers of the given sizes: what it receives and where it ends.\<close>

fun read_seq :: "DmaBuf \<Rightarrow> nat list \<Rightarrow> int \<Rightarrow> (string \<times> int) option" where
  "read_seq b [] pos = Some ([], pos)"
| "read_seq b (c # cs) pos =
     do { (rc, s, pos1) \<leftarrow> acq200_read c b (int c) pos;
          (t, pos2) \<leftarrow> read_seq b cs pos1;
          Some (s @ t, pos2) }"

lemma read_seq_from:
  assumes "\<forall>c \<in> set cs. c < 2 ^ 31" "p \<le> length (bigbuf_line b)" "length (bigbuf_line b) < 2 ^ 31"
  shows "read_seq b cs (int p) =
    (let s = take (sum_list cs) (drop p (bigbuf_line b)) in Some (s, int p + int (length s)))"
  using assms(1,2)
proof (induction cs arbitrary: p)
  case (Cons c cs)
  let ?s = "take c (drop p (bigbuf_line b))"
  have r: "acq200_read c b (int c) (int p) = Some (int (length ?s), ?s, int (p + length ?s))"
    using Cons.prems assms(3) by (subst read_inside) (simp_all add: Let_def)
  have le: "p + length ?s \<le> length (bigbuf_line b)" and cs: "\<forall>c \<in> set cs. c < 2 ^ 31" using Cons.prems by simp_all
  have "read_seq b cs (int (p + length ?s)) =
      (let t = take (sum_list cs) (drop (p + length ?s) (bigbuf_line b)) in Some (t, int (p + length ?s) + int (length t)))"
    by (rule Cons.IH [OF cs le])
  moreover have "?s @ take (sum_list cs) (drop (p + length ?s) (bigbuf_line b)) = take (sum_list (c # cs)) (drop p (bigbuf_line b))"
    by (simp add: take_add min_def add.commute)
  ultimately show ?case
    by (simp add: r Let_def)
qed simp

section \<open>Properties\<close>

text \<open>C27. The text of the communications buffer.  Formatting it needs at most 43 of the 80 bytes of the array.  A client that opens the
node and reads with buffers of any sizes receives the text in order, every byte once, and at its end reads return 0.\<close>

theorem read_delivers_text:
  assumes "order b \<le> 30" "\<forall>c \<in> set cs. c < 2 ^ 31"
  shows "int (length (bigbuf_line b)) < MYLINE \<and>
     read_seq b cs 0 = Some (take (sum_list cs) (bigbuf_line b), int (min (sum_list cs) (length (bigbuf_line b)))) \<and>
     (length (bigbuf_line b) \<le> sum_list cs \<longrightarrow>
       (\<forall>n < 2 ^ 31. acq200_read avail b n (int (length (bigbuf_line b))) = Some (0, [], int (length (bigbuf_line b)))))"
proof -
  have l: "length (bigbuf_line b) \<le> 42" by (rule length_bigbuf_line [OF assms(1)])
  have "read_seq b cs 0 = (let s = take (sum_list cs) (bigbuf_line b) in Some (s, int (length s)))"
    using read_seq_from [of cs 0 b] assms(2) l by simp
  moreover have "c_int (int (length (bigbuf_line b))) = int (length (bigbuf_line b))" using l by (intro c_int_small) auto
  ultimately show ?thesis using l by (simp add: MYLINE_def acq200_read_def min.commute Let_def)
qed

definition example_buf :: DmaBuf where "example_buf = \<lparr>order = 12, db_va = 0x100000, db_pa = 0x8000000\<rparr>"

theorem read_delivers_text_witness:
  "read_seq example_buf [8, 13] 0 = Some (''BIGBUF: pa=0x08000000'', 21)"
proof -
  have "read_seq example_buf [8, 13] 0 = Some (take (sum_list [8, 13]) (bigbuf_line example_buf), int (min (sum_list [8, 13]) (length (bigbuf_line example_buf))))"
    using read_delivers_text [of example_buf "[8, 13]"] by (simp add: example_buf_def)
  moreover have "take 21 (bigbuf_line example_buf) = ''BIGBUF: pa=0x08000000''" "21 \<le> length (bigbuf_line example_buf)"
    by (simp_all add: bigbuf_line_def example_buf_def hex8_def upt_rec hex_digit_def char_of_def bit_Suc_0_iff)
  ultimately show ?thesis by simp
qed

text \<open>The position is narrowed to an \<open>int\<close>: at positions from \<open>2^31\<close> on the copy starts before the array, so a read hands out stack
memory of the kernel, and at \<open>2^32\<close> the text starts again.\<close>

theorem read_position_truncated:
  assumes "2 ^ 31 \<le> pos" "pos < 2 ^ 32" "0 < count" "count < 2 ^ 31"
  shows "acq200_read avail b count pos = None \<and>
     map_option (\<lambda>(rc, s, p). (rc, s)) (acq200_read avail b count (2 ^ 32)) = map_option (\<lambda>(rc, s, p). (rc, s)) (acq200_read avail b count 0)"
proof -
  have "c_int pos < 0" "c_int count = count" using assms c_int_wraps [of pos] by (auto intro: c_int_small)
  then have "acq200_read avail b count pos = None"
    using assms(3) by (simp add: acq200_read_def Let_def)
  moreover have "c_int (2 ^ 32) = c_int 0" using c_int_period [of 0] by simp
  ultimately show ?thesis by (simp add: acq200_read_def Let_def case_prod_beta)
qed

theorem read_position_truncated_witness: "acq200_read 100 example_buf 16 (2 ^ 32 - 16) = None"
  using read_position_truncated [of "2 ^ 32 - 16" 16 100 example_buf] by simp

end
