(* ===== verification/Minors.thy ===== *)
theory Minors
  imports Paths
begin

text \<open>
  The meaning of every minor number (\<^verbatim>\<open>src/acq200_minors.h\<close>): the predicates that the open does not use are defined here beside
  those of \<^verbatim>\<open>Paths\<close>, with the classification of all 256 numbers a character device can have and the file operations each of them gets.
  The macros \<open>_MASTER\<close> and \<open>HAS_SLAVE\<close> have unbalanced parentheses and cannot be used; they are left out.
\<close>

section \<open>Predicates\<close>

definition CHANNEL :: "u32 \<Rightarrow> int" where
  "CHANNEL dev = (if CHANNEL_dev dev then uint (MINOR dev AND 0x7f) else - 1)"

definition IS_ROM :: "u32 \<Rightarrow> bool" where "IS_ROM dev \<longleftrightarrow> SPECIAL_dev dev \<and> SPECIAL_FLAGS dev = 0"
definition ROWDEV :: "u32 \<Rightarrow> bool" where "ROWDEV dev \<longleftrightarrow> SPECIAL_dev dev \<and> SPECIAL_FLAGS dev = 0x1f"
definition DEVDMABUF :: "u32 \<Rightarrow> bool" where "DEVDMABUF dev \<longleftrightarrow> SPECIAL_dev dev \<and> SPECIAL_FLAGS dev = 2"
definition AOIDEV :: "u32 \<Rightarrow> bool" where "AOIDEV dev \<longleftrightarrow> SPECIAL_dev dev \<and> SPECIAL_FLAGS dev = 4"
definition AOFDEV :: "u32 \<Rightarrow> bool" where "AOFDEV dev \<longleftrightarrow> SPECIAL_dev dev \<and> SPECIAL_FLAGS dev = 5"
definition DOIDEV :: "u32 \<Rightarrow> bool" where "DOIDEV dev \<longleftrightarrow> SPECIAL_dev dev \<and> SPECIAL_FLAGS dev = 6"
definition DOFDEV :: "u32 \<Rightarrow> bool" where "DOFDEV dev \<longleftrightarrow> SPECIAL_dev dev \<and> SPECIAL_FLAGS dev = 7"
definition AOFRDEV :: "u32 \<Rightarrow> bool" where "AOFRDEV dev \<longleftrightarrow> SPECIAL_dev dev \<and> SPECIAL_FLAGS dev = 8"
definition DOFRDEV :: "u32 \<Rightarrow> bool" where "DOFRDEV dev \<longleftrightarrow> SPECIAL_dev dev \<and> SPECIAL_FLAGS dev = 9"
definition STATDEV :: "u32 \<Rightarrow> bool" where "STATDEV dev \<longleftrightarrow> SPECIAL_dev dev \<and> SPECIAL_FLAGS dev = 10"
definition TESTDEV :: "u32 \<Rightarrow> bool" where "TESTDEV dev \<longleftrightarrow> SPECIAL_dev dev \<and> SPECIAL_FLAGS dev = 15"
definition TFTPDEV :: "u32 \<Rightarrow> bool" where "TFTPDEV dev \<longleftrightarrow> SPECIAL_dev dev \<and> SPECIAL_FLAGS dev AND 0x10 \<noteq> 0"

lemmas special_defs = IS_ROM_def ROWDEV_def DEVDMABUF_def AOIDEV_def AOFDEV_def DOIDEV_def DOFDEV_def AOFRDEV_def DOFRDEV_def
  STATDEV_def TESTDEV_def TFTPDEV_def

section \<open>Classification\<close>

text \<open>The special nodes by name, in the order of the header.\<close>

definition special_preds :: "(u32 \<Rightarrow> bool) list" where
  "special_preds = [IS_ROM, ROWDEV, DEVRAW, DEVDMABUF, BIGDUMPDEV, AOIDEV, AOFDEV, DOIDEV, DOFDEV, AOFRDEV, DOFRDEV, STATDEV, LLHOSTDEV,
     TESTDEV, TFTPDEV]"

definition count_preds :: "(u32 \<Rightarrow> bool) list \<Rightarrow> u32 \<Rightarrow> nat" where
  "count_preds ps m = length (filter (\<lambda>P. P m) ps)"

text \<open>What the open makes of a minor number, as a table.\<close>

definition open_table :: "nat \<Rightarrow> fops \<times> bool" where
  "open_table n =
     (if n \<le> 96 then (BridgeFops, True)
      else if n \<le> 127 then (BridgeABFops, False)
      else if n \<le> 143 then (BridgeFops, True)
      else if n = 193 then (MboxFops, False)
      else if n = 195 then (AcqFops, False)
      else if n = 203 then (LlhostFops, False)
      else if n \<in> {227, 228, 229, 237} then (BridgeFops, True)
      else (AcqFops, True))"

lemma of_nat_u32_eq: "n < 256 \<Longrightarrow> k < 256 \<Longrightarrow> (of_nat n :: u32) = of_nat k \<longleftrightarrow> n = k"
  by (simp add: word_of_nat_eq_iff take_bit_nat_eq_self)

lemma of_nat_u32_numeral: "n < 256 \<Longrightarrow> numeral k < (256 :: nat) \<Longrightarrow> (of_nat n :: u32) = numeral k \<longleftrightarrow> n = numeral k"
  using of_nat_u32_eq [of n "numeral k"] by simp

text \<open>Clearing the low bits of a number below 256.\<close>

lemma and_high_mask:
  assumes "n < 256" "j \<le> 8"
  shows "(of_nat n :: u32) AND push_bit j (mask (8 - j)) = of_nat (n div 2 ^ j * 2 ^ j)"
proof -
  have "(of_nat n :: u32) < 256" using assms(1) by (simp add: word_less_nat_alt unsigned_of_nat take_bit_nat_eq_self)
  from small_bit [OF this] have "(of_nat n :: u32) AND push_bit j (mask (8 - j)) = push_bit j (drop_bit j (of_nat n))"
    using assms(2) by (intro bit_word_eqI) (auto simp: bit_simps intro: diff_less_mono)
  also have "drop_bit j (of_nat n :: u32) = of_nat (n div 2 ^ j)"
  proof (subst word_unat_eq_iff)
    have "n div 2 ^ j < 256" by (rule le_less_trans [OF div_le_dividend assms(1)])
    then have "unat (of_nat n :: u32) = n" "unat (of_nat (n div 2 ^ j) :: u32) = n div 2 ^ j"
      using assms(1) by (simp_all add: unsigned_of_nat take_bit_nat_eq_self)
    then show "unat (drop_bit j (of_nat n :: u32)) = unat (of_nat (n div 2 ^ j) :: u32)"
      unfolding unat_drop_bit_eq by (simp add: drop_bit_eq_div)
  qed
  also have "push_bit j (of_nat (n div 2 ^ j)) = (of_nat (n div 2 ^ j * 2 ^ j) :: u32)"
    by (simp add: push_bit_eq_mult)
  finally show ?thesis .
qed

lemma minor_small:
  assumes "n < 256"
  shows "MINOR (of_nat n) = of_nat n"
proof -
  have "(of_nat n :: u32) AND mask 20 = take_bit 20 (of_nat n)" by (simp only: take_bit_eq_mask)
  also have "\<dots> = of_nat n" using assms by (simp add: take_bit_of_nat take_bit_nat_eq_self)
  finally show ?thesis by (simp add: MINOR_def mask_eq_exp_minus_1)
qed

lemma minor_ranges:
  assumes "n < 256"
  shows "CHANNEL_dev (of_nat n) = (n < 128)" "FILE_dev (of_nat n) = (128 \<le> n \<and> n < 144)" "SPECIAL_dev (of_nat n) = (192 \<le> n \<and> n < 224)"
    and "RSH_dev (of_nat n) = (n \<in> {227, 228, 229, 237})"
proof -
  have m: "push_bit 7 (mask (8 - 7)) = (0x80 :: u32)" "push_bit 4 (mask (8 - 4)) = (0xf0 :: u32)" "push_bit 5 (mask (8 - 5)) = (0xe0 :: u32)"
    by (simp_all add: mask_eq_exp_minus_1)
  have "(of_nat n :: u32) AND 0x80 = of_nat (n div 2 ^ 7 * 2 ^ 7)"
    using and_high_mask [OF assms, of 7] unfolding m by simp
  then have "CHANNEL_dev (of_nat n) \<longleftrightarrow> (of_nat (n div 2 ^ 7 * 2 ^ 7) :: u32) = of_nat 0"
    unfolding CHANNEL_dev_def minor_small [OF assms] by simp
  also have "\<dots> \<longleftrightarrow> n div 2 ^ 7 * 2 ^ 7 = 0" by (rule of_nat_u32_eq) (use assms in auto)
  finally show "CHANNEL_dev (of_nat n) = (n < 128)" by auto
  have "(of_nat n :: u32) AND 0xf0 = of_nat (n div 2 ^ 4 * 2 ^ 4)"
    using and_high_mask [OF assms, of 4] unfolding m by simp
  then have "FILE_dev (of_nat n) \<longleftrightarrow> (of_nat (n div 2 ^ 4 * 2 ^ 4) :: u32) = of_nat 128"
    unfolding FILE_dev_def minor_small [OF assms] by simp
  also have "\<dots> \<longleftrightarrow> n div 2 ^ 4 * 2 ^ 4 = 128" by (rule of_nat_u32_eq) (use assms in auto)
  finally show "FILE_dev (of_nat n) = (128 \<le> n \<and> n < 144)" by auto
  have "(of_nat n :: u32) AND 0xe0 = of_nat (n div 2 ^ 5 * 2 ^ 5)"
    using and_high_mask [OF assms, of 5] unfolding m by simp
  then have "SPECIAL_dev (of_nat n) \<longleftrightarrow> (of_nat (n div 2 ^ 5 * 2 ^ 5) :: u32) = of_nat 192"
    unfolding SPECIAL_dev_def minor_small [OF assms] by simp
  also have "\<dots> \<longleftrightarrow> n div 2 ^ 5 * 2 ^ 5 = 192" by (rule of_nat_u32_eq) (use assms in auto)
  finally show "SPECIAL_dev (of_nat n) = (192 \<le> n \<and> n < 224)" by auto
  show "RSH_dev (of_nat n) = (n \<in> {227, 228, 229, 237})"
    using assms by (simp add: RSH_dev_def minor_small of_nat_u32_numeral)
qed

lemma special_flags:
  assumes "192 \<le> n" "n < 224"
  shows "SPECIAL_FLAGS (of_nat n) = of_nat (n - 192)"
proof -
  have n: "n < 256" using assms by simp
  have "(of_nat n :: u32) AND mask 5 = of_nat (n mod 32)"
    unfolding take_bit_eq_mask [symmetric] take_bit_of_nat by (simp add: take_bit_eq_mod)
  moreover have "n mod 32 = n - 192" using assms by (auto simp: mod_if le_mod_geq)
  ultimately show ?thesis
    using assms by (simp add: SPECIAL_FLAGS_def minor_ranges [OF n] minor_small [OF n] mask_eq_exp_minus_1)
qed

lemma all_between: "list_all P [a..<b] \<Longrightarrow> a \<le> n \<Longrightarrow> n < b \<Longrightarrow> P n"
  by (simp add: list_all_iff)

lemma count_preds_map: "count_preds ps m = length (filter (\<lambda>b. b) (map (\<lambda>P. P m) ps))"
  by (simp add: count_preds_def filter_map comp_def)

lemma special_flags_eq: "192 \<le> n \<Longrightarrow> n < 224 \<Longrightarrow> k < 256 \<Longrightarrow> SPECIAL_FLAGS (of_nat n) = of_nat k \<longleftrightarrow> n = 192 + k"
  using of_nat_u32_eq [of "n - 192" k] by (auto simp: special_flags)

lemma minor_table:
  assumes "n < 256"
  shows "select_fops (of_nat n) = open_table n"
proof -
  have f: "SPECIAL_dev (of_nat n) \<and> SPECIAL_FLAGS (of_nat n) = of_nat k \<longleftrightarrow> n = 192 + k" if "k < 32" for k
    using special_flags_eq [of n k] that assms by (auto simp: minor_ranges [OF assms])
  have "DEVRAW (of_nat n) = (n = 193)" "BIGDUMPDEV (of_nat n) = (n = 195)" "LLHOSTDEV (of_nat n) = (n = 203)"
    using f [of 1] f [of 3] f [of 11] by (simp_all add: DEVRAW_def BIGDUMPDEV_def LLHOSTDEV_def)
  moreover have "96 < (of_nat n :: u32) \<longleftrightarrow> 96 < n"
    using assms by (simp add: word_less_nat_alt unsigned_of_nat take_bit_nat_eq_self)
  ultimately show ?thesis
    using assms by (simp add: select_fops_def open_table_def IS_CHANNEL_DEV_def IS_FILE_def IS_RSH_def minor_ranges)
qed

lemma minor_class:
  assumes "n < 256"
  shows "count_preds [CHANNEL_dev, FILE_dev, SPECIAL_dev, RSH_dev] (of_nat n) =
     (if n < 144 \<or> 192 \<le> n \<and> n < 224 \<or> n \<in> {227, 228, 229, 237} then 1 else 0)"
proof -
  have "count_preds [CHANNEL_dev, FILE_dev, SPECIAL_dev, RSH_dev] (of_nat n) =
      of_bool (n < 128) + of_bool (128 \<le> n \<and> n < 144) + of_bool (192 \<le> n \<and> n < 224) + of_bool (n \<in> {227, 228, 229, 237})"
    unfolding count_preds_def filter.simps minor_ranges [OF assms] by simp
  moreover have "n \<in> {227, 228, 229, 237} \<Longrightarrow> 224 \<le> n" by auto
  ultimately show ?thesis by (cases "n < 128"; cases "n < 144"; cases "n < 192"; cases "n < 224") auto
qed

text \<open>Only the tftp range is more than one number; its overlap with the row node is at the end.\<close>

lemma special_class:
  assumes "n < 256"
  shows "count_preds special_preds (of_nat n) = (if n < 192 \<or> 224 \<le> n \<or> n \<in> {204, 205, 206} then 0 else if n = 223 then 2 else 1)"
proof (cases "192 \<le> n \<and> n < 224")
  case True
  define k where "k = n - 192"
  have k: "k < 32" "n = 192 + k" using True by (auto simp: k_def)
  have sp: "SPECIAL_dev (of_nat n)" using True assms by (simp add: minor_ranges)
  have f: "SPECIAL_FLAGS (of_nat n) = of_nat j \<longleftrightarrow> k = j" if "j < 256" for j
    using special_flags_eq [of n j] that True k(2) by auto
  have fn: "SPECIAL_FLAGS (of_nat n) = numeral j \<longleftrightarrow> k = numeral j" if "numeral j < (256::nat)" for j
    using f [of "numeral j"] that by simp
  have "(of_nat k :: u32) AND 0x10 \<noteq> 0 \<longleftrightarrow> bit (of_nat k :: u32) 4"
    using and_exp_eq_0_iff_not_bit [of "of_nat k :: u32" 4] by simp
  also have "\<dots> \<longleftrightarrow> bit k 4" by (simp add: bit_simps)
  also have "\<dots> \<longleftrightarrow> odd (k div 16)" by (simp add: bit_iff_odd)
  also have "\<dots> \<longleftrightarrow> 16 \<le> k" using k(1) by presburger
  finally have t: "SPECIAL_FLAGS (of_nat n) AND 0x10 \<noteq> 0 \<longleftrightarrow> 16 \<le> k" 
    using special_flags [of n] True by (simp only: k_def)
  have "SPECIAL_FLAGS (of_nat n) = 0 \<longleftrightarrow> k = 0" "SPECIAL_FLAGS (of_nat n) = 1 \<longleftrightarrow> k = 1" using f [of 0] f [of 1] by simp_all
  then have m: "map (\<lambda>P. P (of_nat n)) special_preds = map (\<lambda>j. k = j) [0, 31, 1, 2, 3, 4, 5, 6, 7, 8, 9, 10, 11, 15] @ [16 \<le> k]"
    using sp t unfolding special_preds_def special_defs DEVRAW_def BIGDUMPDEV_def LLHOSTDEV_def by (simp add: fn)
  have "list_all (\<lambda>k. length (filter (\<lambda>b. b) (map (\<lambda>j. k = j) [0, 31, 1, 2, 3, 4, 5, 6, 7, 8, 9, 10, 11, 15] @ [16 \<le> k])) =
      (if k \<in> {12, 13, 14} then 0 else if k = 31 then 2 else 1)) [0..<(32::nat)]"
    by code_simp
  from all_between [OF this] have "count_preds special_preds (of_nat n) = (if k \<in> {12, 13, 14} then 0 else if k = 31 then 2 else 1)"
    unfolding count_preds_map m using k(1) by simp
  then show ?thesis using k by auto
next
  case False
  then have "\<not> SPECIAL_dev (of_nat n)" by (simp add: minor_ranges [OF assms])
  then have "count_preds special_preds (of_nat n) = 0"
    by (simp add: count_preds_def special_preds_def special_defs DEVRAW_def BIGDUMPDEV_def LLHOSTDEV_def)
  then show ?thesis using False by auto
qed

lemma channel_number: "n < 256 \<Longrightarrow> CHANNEL (of_nat n) = (if n < 128 then int n else - 1)"
proof -
  assume n: "n < 256"
  have "(of_nat n :: u32) AND mask 7 = of_nat (n mod 128)"
    unfolding take_bit_eq_mask [symmetric] take_bit_of_nat by (simp add: take_bit_eq_mod)
  then show ?thesis
    using n by (simp add: CHANNEL_def minor_ranges minor_small mask_eq_exp_minus_1 unsigned_of_nat take_bit_nat_eq_self)
qed

section \<open>Properties\<close>



end
