(* ===== verification/Mmap.thy ===== *)
theory Mmap
  imports Devices Htstream
begin

text \<open>
  Mapping the buffers and the mailbox registers into a client (\<^verbatim>\<open>src/acq200_mmap.c\<close>).  The kernel's page mapper is an argument: it
  takes a page frame and a size and tells whether it succeeded; the result of a call holds what has been mapped.
\<close>

definition PAGE_SHIFT :: nat where "PAGE_SHIFT = 12"
definition CSR_SIZE_MAX :: ulong where "CSR_SIZE_MAX = 0x1000"
definition VM_READ :: u32 where "VM_READ = 1"
definition VM_WRITE :: u32 where "VM_WRITE = 2"

datatype direction = DMA_BIDIRECTIONAL | DMA_TO_DEVICE | DMA_FROM_DEVICE | DMA_NONE

record vm_area_struct =
  vm_start :: ulong
  vm_end :: ulong
  vm_pgoff :: ulong
  vm_flags :: u32

definition getDirectionFromVma :: "vm_area_struct \<Rightarrow> direction" where
  "getDirectionFromVma vma =
     (let f = vm_flags vma AND (VM_READ OR VM_WRITE) in
      if f = VM_READ OR VM_WRITE then DMA_BIDIRECTIONAL
      else if f = VM_READ then DMA_FROM_DEVICE
      else if f = VM_WRITE then DMA_TO_DEVICE
      else DMA_NONE)"

definition remap :: "(u32 \<Rightarrow> ulong \<Rightarrow> bool) \<Rightarrow> u32 \<Rightarrow> ulong \<Rightarrow> int \<times> (u32 \<times> ulong) option" where
  "remap remap_fails pfn vsize = (if remap_fails pfn vsize then (- EAGAIN, None) else (0, Some (pfn, vsize)))"

definition mmap_dmabuf :: "(u32 \<Rightarrow> ulong \<Rightarrow> bool) \<Rightarrow> vm_area_struct \<Rightarrow> DmaBuf \<Rightarrow> int \<times> (u32 \<times> ulong) option" where
  "mmap_dmabuf remap_fails vma dbuf =
     (let vsize = vm_end vma - vm_start vma;
          psize = word_of_int (dma_buf_len dbuf) :: ulong;
          pfn = drop_bit PAGE_SHIFT (db_pa dbuf)
      in if psize < vsize then (- EINVAL, None) else remap remap_fails pfn vsize)"

text \<open>The path's two buffers are copies of the device's.\<close>

definition acq200_mmap_host :: "(u32 \<Rightarrow> ulong \<Rightarrow> bool) \<Rightarrow> card \<Rightarrow> vm_area_struct \<Rightarrow> int \<times> (u32 \<times> ulong) option" where
  "acq200_mmap_host remap_fails dev vma = mmap_dmabuf remap_fails vma (ca_dma dev)"

definition acq200_mmap_llhost :: "(u32 \<Rightarrow> ulong \<Rightarrow> bool) \<Rightarrow> card \<Rightarrow> vm_area_struct \<Rightarrow> int \<times> (u32 \<times> ulong) option" where
  "acq200_mmap_llhost remap_fails dev vma = mmap_dmabuf remap_fails vma (ca_llhost dev)"

definition acq200_mmapAB :: "(u32 \<Rightarrow> ulong \<Rightarrow> bool) \<Rightarrow> card \<Rightarrow> u32 \<Rightarrow> vm_area_struct \<Rightarrow> int \<times> (u32 \<times> ulong) option" where
  "acq200_mmapAB remap_fails dev mn vma =
     (let ibuf = unat (mn AND 1) in mmap_dmabuf remap_fails vma (ca_AB dev ! ibuf))"

definition acq200_mmap_mbox :: "(u32 \<Rightarrow> ulong \<Rightarrow> bool) \<Rightarrow> card \<Rightarrow> vm_area_struct \<Rightarrow> int \<times> (u32 \<times> ulong) option" where
  "acq200_mmap_mbox remap_fails dev vma =
     (let off = push_bit PAGE_SHIFT (vm_pgoff vma);
          pa = io_pa (ca_csr dev) + off;
          pfn = ucast (drop_bit PAGE_SHIFT pa) :: u32;
          vsize = vm_end vma - vm_start vma
      in if CSR_SIZE_MAX < vsize then (- EINVAL, None) else remap remap_fails pfn vsize)"

text \<open>The call as the installed operations dispatch it; the bridge files have no such operation.\<close>

definition file_mmap :: "(u32 \<Rightarrow> ulong \<Rightarrow> bool) \<Rightarrow> card \<Rightarrow> u32 \<Rightarrow> vm_area_struct \<Rightarrow> int \<times> (u32 \<times> ulong) option" where
  "file_mmap remap_fails dev mn vma =
     (case fst (select_fops mn) of
        AcqFops \<Rightarrow> acq200_mmap_host remap_fails dev vma
      | LlhostFops \<Rightarrow> acq200_mmap_llhost remap_fails dev vma
      | MboxFops \<Rightarrow> acq200_mmap_mbox remap_fails dev vma
      | BridgeABFops \<Rightarrow> acq200_mmapAB remap_fails dev mn vma
      | BridgeFops \<Rightarrow> (- ENODEV, None))"

section \<open>Lemmas\<close>

text \<open>A buffer the driver allocated: page aligned, of at most \<open>2^12\<close> pages.\<close>

definition aligned_buf :: "DmaBuf \<Rightarrow> bool" where
  "aligned_buf b \<longleftrightarrow> order b \<le> COMMSBUF_ORDER \<and> 4096 dvd unat (db_pa b)"

definition buffers_of :: "card \<Rightarrow> DmaBuf set" where
  "buffers_of dev = {ca_dma dev, ca_llhost dev, ca_AB dev ! 0, ca_AB dev ! 1}"

lemma buf_len_bounds:
  assumes "aligned_buf b"
  shows "0 \<le> dma_buf_len b" "dma_buf_len b < 2 ^ 64"
proof -
  have "(2 :: int) ^ order b \<le> 2 ^ 12" using assms by (intro power_increasing) (auto simp: aligned_buf_def COMMSBUF_ORDER_def)
  then show "0 \<le> dma_buf_len b" "dma_buf_len b < 2 ^ 64" by (simp_all add: dma_buf_len_def PAGE_SIZE_def)
qed

lemma mmap_dmabuf_maps:
  assumes "mmap_dmabuf f vma b = (rc, Some (pfn, n))" "aligned_buf b"
  shows "rc = 0 \<and> n = vm_end vma - vm_start vma \<and> unat pfn * 4096 = unat (db_pa b) \<and> int (unat n) \<le> dma_buf_len b"
proof -
  have m: "\<not> (word_of_int (dma_buf_len b) :: ulong) < n" "rc = 0" "n = vm_end vma - vm_start vma" "pfn = drop_bit 12 (db_pa b)"
    using assms(1) by (auto simp: mmap_dmabuf_def remap_def Let_def PAGE_SHIFT_def split: if_splits)
  have "uint (word_of_int (dma_buf_len b) :: ulong) = dma_buf_len b"
    using buf_len_bounds [OF assms(2)] by (simp add: uint_word_of_int)
  then have "int (unat n) \<le> dma_buf_len b"
    using m(1) by (simp add: not_less word_le_def)
  moreover have "unat pfn * 4096 = unat (db_pa b)"
    using assms(2) unfolding m(4) aligned_buf_def by (simp add: drop_bit_eq_div unat_div)
  ultimately show ?thesis using m by simp
qed

section \<open>Properties\<close>

text \<open>C32. Mapping a buffer.  Whatever device file is used, other than the raw mailbox device, a successful mapping covers
exactly the requested size, begins at the first page of one of the card's own buffers and ends within that buffer; the two
stream files of a card are told apart by the last bit of their minor number.  No client reaches foreign memory this
way.\<close>

theorem mmap_within_buffer:
  assumes "file_mmap f dev mn vma = (rc, Some (pfn, n))" "\<not> DEVRAW mn" "\<forall>b \<in> buffers_of dev. aligned_buf b"
  shows "rc = 0 \<and> n = vm_end vma - vm_start vma \<and>
    (\<exists>b \<in> buffers_of dev. unat pfn * 4096 = unat (db_pa b) \<and> int (unat n) \<le> dma_buf_len b \<and>
       (fst (select_fops mn) = BridgeABFops \<longrightarrow> b = ca_AB dev ! unat (mn AND 1)))"
proof -
  have ab: "ca_AB dev ! unat (mn AND 1) \<in> buffers_of dev"
    by (cases "even mn") (simp_all add: buffers_of_def and_one_eq even_iff_mod_2_eq_zero odd_iff_mod_2_eq_one)
  have own: "\<exists>b \<in> buffers_of dev. mmap_dmabuf f vma b = (rc, Some (pfn, n)) \<and>
      (fst (select_fops mn) = BridgeABFops \<longrightarrow> b = ca_AB dev ! unat (mn AND 1))"
  proof (cases "fst (select_fops mn)")
    case MboxFops
    with assms(2) show ?thesis by (simp add: select_fops_def split: if_splits)
  next
    case BridgeABFops
    with assms(1) ab show ?thesis by (auto simp: file_mmap_def acq200_mmapAB_def Let_def)
  qed (use assms(1) in \<open>simp_all add: file_mmap_def acq200_mmap_host_def acq200_mmap_llhost_def buffers_of_def\<close>)
  then show ?thesis using mmap_dmabuf_maps assms(3) by blast
qed

theorem mmap_within_buffer_witness:
  "let dev = (new_card example_create 5 0)\<lparr>ca_AB := [\<lparr>order = 1, db_va = 64, db_pa = 0x4000\<rparr>, \<lparr>order = 1, db_va = 65, db_pa = 0x8000\<rparr>]\<rparr>;
       vma = \<lparr>vm_start = 0x10000, vm_end = 0x12000, vm_pgoff = 0, vm_flags = 1\<rparr>
   in file_mmap (\<lambda>_ _. False) dev 99 vma = (0, Some (8, 0x2000)) \<and> (\<exists>b \<in> buffers_of dev. unat (8 :: u32) * 4096 = unat (db_pa b))"
proof -
  let ?dev = "(new_card example_create 5 0)\<lparr>ca_AB := [\<lparr>order = 1, db_va = 64, db_pa = 0x4000\<rparr>, \<lparr>order = 1, db_va = 65, db_pa = 0x8000\<rparr>]\<rparr>"
  let ?vma = "\<lparr>vm_start = 0x10000, vm_end = 0x12000, vm_pgoff = 0, vm_flags = 1\<rparr>"
  have s: "fst (select_fops 99) = BridgeABFops" "\<not> DEVRAW 99" by code_simp+
  have "file_mmap (\<lambda>_ _. False) ?dev 99 ?vma = (0, Some (8, 0x2000))"
    unfolding file_mmap_def s by (simp add: acq200_mmapAB_def mmap_dmabuf_def remap_def dma_buf_len_def PAGE_SIZE_def PAGE_SHIFT_def Let_def)
  moreover have "\<forall>b \<in> buffers_of ?dev. aligned_buf b"
    by (simp add: buffers_of_def aligned_buf_def new_card_def example_create_def alloc_llhost_buf_def null_buf_def COMMSBUF_ORDER_def)
  ultimately show ?thesis using mmap_within_buffer [of "\<lambda>_ _. False" ?dev 99 ?vma 0 8 "0x2000"] s unfolding Let_def by blast
qed

text \<open>The raw mailbox device does not restrict the offset of the mapping: for every page frame of the machine there is a
request that maps exactly that frame, wherever the registers are.\<close>

theorem mmap_mbox_any_frame:
  "\<exists>vma. acq200_mmap_mbox (\<lambda>_ _. False) dev vma = (0, Some (pfn, 4096))"
proof -
  let ?csr = "io_pa (ca_csr dev)"
  let ?vma = "\<lparr>vm_start = 0, vm_end = 4096, vm_pgoff = ucast pfn - drop_bit 12 ?csr, vm_flags = 1\<rparr>"
  have "?csr = push_bit 12 (drop_bit 12 ?csr) + take_bit 12 ?csr" by (simp add: bits_ident)
  then have "?csr + push_bit 12 (ucast pfn - drop_bit 12 ?csr) = push_bit 12 (ucast pfn) + take_bit 12 ?csr"
    by (simp add: push_bit_eq_mult algebra_simps)
  moreover have "drop_bit 12 (push_bit 12 (ucast pfn) + take_bit 12 ?csr :: ulong) = ucast pfn"
  proof -
    have "push_bit 12 (ucast pfn) AND take_bit 12 ?csr = (0 :: ulong)"
      by (rule bit_eqI) (auto simp: bit_simps)
    then have "push_bit 12 (ucast pfn) + take_bit 12 ?csr = (push_bit 12 (ucast pfn) OR take_bit 12 ?csr :: ulong)"
      by (rule disjunctive_add_eq_or)
    moreover have "drop_bit 12 (push_bit 12 (ucast pfn) OR take_bit 12 ?csr :: ulong) = ucast pfn"
      by (rule bit_eqI) (auto simp: bit_simps dest: bit_imp_le_length)
    ultimately show ?thesis by simp
  qed
  moreover have "ucast (ucast pfn :: ulong) = pfn"
    by (rule bit_eqI) (auto simp: bit_simps dest: bit_imp_le_length)
  ultimately have "ucast (drop_bit 12 (?csr + push_bit 12 (ucast pfn - drop_bit 12 ?csr))) = pfn"
    by simp
  then show ?thesis
    by (intro exI [of _ ?vma]) (simp add: acq200_mmap_mbox_def remap_def PAGE_SHIFT_def CSR_SIZE_MAX_def)
qed

text \<open>The streaming client asks for a fixed size.  Its mapping of a stream buffer is refused as too big unless the driver
found at least \<open>2^10\<close> contiguous pages for the buffer, although the driver accepts whatever smaller block the kernel had; a
buffer of a higher order is mapped only in part.\<close>

theorem stream_mapping_needs_order:
  assumes "select_fops mn = (BridgeABFops, b)" "aligned_buf (ca_AB dev ! unat (mn AND 1))" "vm_end vma = vm_start vma + BUFLEN"
  shows "fst (file_mmap (\<lambda>_ _. False) dev mn vma) =
    (if db_va (ca_AB dev ! unat (mn AND 1)) \<noteq> 0 \<and> 10 \<le> order (ca_AB dev ! unat (mn AND 1)) then 0 else - EINVAL)"
proof -
  let ?b = "ca_AB dev ! unat (mn AND 1)"
  have u: "uint (word_of_int (dma_buf_len ?b) :: ulong) = dma_buf_len ?b"
    using buf_len_bounds [OF assms(2)] by (simp add: uint_word_of_int)
  have "(word_of_int (dma_buf_len ?b) :: ulong) < BUFLEN \<longleftrightarrow> dma_buf_len ?b < 2 ^ 22"
    unfolding word_less_def u by (simp add: BUFLEN_def)
  also have "\<dots> \<longleftrightarrow> \<not> (db_va ?b \<noteq> 0 \<and> 10 \<le> order ?b)"
  proof (cases "db_va ?b = 0")
    case False
    have "(2 :: int) ^ order ?b * 2 ^ 12 < 2 ^ 10 * 2 ^ 12 \<longleftrightarrow> order ?b < 10"
      by (subst mult_less_cancel_right) (auto simp: power_strict_increasing_iff simp del: power_numeral)
    with False show ?thesis by (simp add: dma_buf_len_def PAGE_SIZE_def not_le)
  qed (simp add: dma_buf_len_def)
  finally show ?thesis
    using assms by (auto simp: file_mmap_def acq200_mmapAB_def mmap_dmabuf_def remap_def Let_def)
qed

theorem stream_mapping_needs_order_witness:
  "let dev = (new_card example_create 5 0)\<lparr>ca_AB := [\<lparr>order = 10, db_va = 64, db_pa = 0x4000\<rparr>, \<lparr>order = 9, db_va = 65, db_pa = 0x8000\<rparr>]\<rparr>;
       vma = \<lparr>vm_start = 0, vm_end = BUFLEN, vm_pgoff = 0, vm_flags = 3\<rparr>
   in fst (file_mmap (\<lambda>_ _. False) dev 98 vma) = 0 \<and> fst (file_mmap (\<lambda>_ _. False) dev 99 vma) = - EINVAL"
proof -
  let ?dev = "(new_card example_create 5 0)\<lparr>ca_AB := [\<lparr>order = 10, db_va = 64, db_pa = 0x4000\<rparr>, \<lparr>order = 9, db_va = 65, db_pa = 0x8000\<rparr>]\<rparr>"
  let ?vma = "\<lparr>vm_start = 0, vm_end = BUFLEN, vm_pgoff = 0, vm_flags = 3\<rparr>"
  have s: "select_fops 98 = (BridgeABFops, False)" "select_fops 99 = (BridgeABFops, False)" by code_simp+
  show ?thesis
    using stream_mapping_needs_order [OF s(1), of ?dev ?vma] stream_mapping_needs_order [OF s(2), of ?dev ?vma]
    by (simp add: aligned_buf_def COMMSBUF_ORDER_def Let_def)
qed

end
