(* ===== verification/Ioctl_Numbers.thy ===== *)
theory Ioctl_Numbers
  imports Paths
begin

text \<open>
  The numbers of the ioctl calls (\<^verbatim>\<open>src/acq200_ioctl.h\<close>, \<^verbatim>\<open>src/acq32ioctl.h\<close>) and the two switches on them (\<open>acq200_ioctl\<close> and
  \<open>acq200_ioctlAB\<close> of \<^verbatim>\<open>src/acq200.c\<close>), with the write that is compiled in only when \<^verbatim>\<open>DANGEROUS\<close> is defined.

  A number is made of a direction, a type letter, a sequence number and the size of the argument.  How the kernel packs the four into
  a word is an argument; the theorems need only that it does so without loss.  The size of a pointer is an argument as well.
\<close>

section \<open>Codes\<close>

datatype ioc_dir = IocNone | IocRead | IocWrite | IocReadWrite

record ioctl_code =
  ioc_dir :: ioc_dir
  ioc_type :: nat
  ioc_nr :: nat
  ioc_size :: nat

definition IO :: "nat \<Rightarrow> nat \<Rightarrow> ioctl_code" where "IO t n = \<lparr>ioc_dir = IocNone, ioc_type = t, ioc_nr = n, ioc_size = 0\<rparr>"
definition IOR :: "nat \<Rightarrow> nat \<Rightarrow> nat \<Rightarrow> ioctl_code" where "IOR t n s = \<lparr>ioc_dir = IocRead, ioc_type = t, ioc_nr = n, ioc_size = s\<rparr>"
definition IOW :: "nat \<Rightarrow> nat \<Rightarrow> nat \<Rightarrow> ioctl_code" where "IOW t n s = \<lparr>ioc_dir = IocWrite, ioc_type = t, ioc_nr = n, ioc_size = s\<rparr>"
definition IOWR :: "nat \<Rightarrow> nat \<Rightarrow> nat \<Rightarrow> ioctl_code" where
  "IOWR t n s = \<lparr>ioc_dir = IocReadWrite, ioc_type = t, ioc_nr = n, ioc_size = s\<rparr>"

lemmas ioc_defs = IO_def IOR_def IOW_def IOWR_def

text \<open>What fits the fields of the packed word: 8 bits of type, 8 of number, 14 of size.\<close>

definition code_ok :: "ioctl_code \<Rightarrow> bool" where
  "code_ok c \<longleftrightarrow> ioc_type c < 256 \<and> ioc_nr c < 256 \<and> ioc_size c < 2 ^ 14"

section \<open>Calls of this driver\<close>

definition DMAGIC :: nat where "DMAGIC = 0xDA"

text \<open>Sizes of the two argument structures, all of whose members are 32-bit words.\<close>

definition sizeof_MailboxControl :: nat where "sizeof_MailboxControl = 4 + 4 * MBOX_NUM + 4 * MBOX_NUM"
definition BUFFERAB_OPS_SZ :: nat where "BUFFERAB_OPS_SZ = 4 + 4 + (4 + 2 * 4 + 2 * 4)"

definition MBOX_IOR_code :: ioctl_code where "MBOX_IOR_code = IOR DMAGIC 1 sizeof_MailboxControl"
definition MBOX_IOW_code :: ioctl_code where "MBOX_IOW_code = IOW DMAGIC 2 sizeof_MailboxControl"
definition MBOX_IOWR_code :: ioctl_code where "MBOX_IOWR_code = IOWR DMAGIC 3 sizeof_MailboxControl"
definition BUFFER_AB_IOWR_code :: ioctl_code where "BUFFER_AB_IOWR_code = IOWR DMAGIC 4 BUFFERAB_OPS_SZ"

lemmas acq200_code_defs = DMAGIC_def sizeof_MailboxControl_def BUFFERAB_OPS_SZ_def MBOX_NUM_def MBOX_IOR_code_def MBOX_IOW_code_def
  MBOX_IOWR_code_def BUFFER_AB_IOWR_code_def

section \<open>Calls inherited from the older driver\<close>

definition ACQ32_IOC_MAGIC :: nat where "ACQ32_IOC_MAGIC = 97"

definition ACQ32_IOCRESET :: ioctl_code where "ACQ32_IOCRESET = IO ACQ32_IOC_MAGIC 0"
definition ACQ32_IOCGMEM :: "nat \<Rightarrow> ioctl_code" where "ACQ32_IOCGMEM ptr = IOR ACQ32_IOC_MAGIC 1 ptr"
definition ACQ32_IOSLIMIT :: ioctl_code where "ACQ32_IOSLIMIT = IO ACQ32_IOC_MAGIC 2"
definition ACQ32_IOSFORMAT :: ioctl_code where "ACQ32_IOSFORMAT = IO ACQ32_IOC_MAGIC 3"
definition ACQ32_IOARMSPIN :: ioctl_code where "ACQ32_IOARMSPIN = IO ACQ32_IOC_MAGIC 4"
definition ACQ32_IOARMRESET :: ioctl_code where "ACQ32_IOARMRESET = IO ACQ32_IOC_MAGIC 5"
definition ACQ32_IOSDEBUG :: ioctl_code where "ACQ32_IOSDEBUG = IOW ACQ32_IOC_MAGIC 6 4"
definition ACQ32_IO_MBX_NR :: nat where "ACQ32_IO_MBX_NR = 10"
definition ACQ32_IOSMBX :: "nat \<Rightarrow> ioctl_code" where "ACQ32_IOSMBX ix = IO ACQ32_IOC_MAGIC (ACQ32_IO_MBX_NR + ix)"
definition ACQ32_IOGMBX :: "nat \<Rightarrow> nat \<Rightarrow> ioctl_code" where "ACQ32_IOGMBX ptr ix = IOR ACQ32_IOC_MAGIC (ACQ32_IO_MBX_NR + ix) ptr"
definition ACQ32_IOSROM_WORD_A01 :: ioctl_code where "ACQ32_IOSROM_WORD_A01 = IO ACQ32_IOC_MAGIC 14"
definition ACQ32_IOCHARDRESET :: ioctl_code where "ACQ32_IOCHARDRESET = IO ACQ32_IOC_MAGIC 15"
definition ACQ32_IOSENDI2O :: ioctl_code where "ACQ32_IOSENDI2O = IO ACQ32_IOC_MAGIC 16"
definition ACQ32_IOREAD_LOCALBUF :: ioctl_code where "ACQ32_IOREAD_LOCALBUF = IO ACQ32_IOC_MAGIC 17"
definition ACQ32_IOREAD_GETPHYSICAL :: ioctl_code where "ACQ32_IOREAD_GETPHYSICAL = IO ACQ32_IOC_MAGIC 18"
definition PCIREGS_OFFSET_code :: "nat \<Rightarrow> ioctl_code" where "PCIREGS_OFFSET_code ptr = IOR ACQ32_IOC_MAGIC 19 ptr"
definition ACQ32_IOG_READ32 :: ioctl_code where "ACQ32_IOG_READ32 = IO ACQ32_IOC_MAGIC 20"
definition ACQ32_IOS_WRITE32 :: ioctl_code where "ACQ32_IOS_WRITE32 = IO ACQ32_IOC_MAGIC 21"
definition ACQ32_IOG_READ16 :: ioctl_code where "ACQ32_IOG_READ16 = IO ACQ32_IOC_MAGIC 22"
definition ACQ32_IOS_WRITE16 :: ioctl_code where "ACQ32_IOS_WRITE16 = IO ACQ32_IOC_MAGIC 23"
definition ACQ32_IOS_WAIT_EVENT :: ioctl_code where "ACQ32_IOS_WAIT_EVENT = IO ACQ32_IOC_MAGIC 24"
definition INTS_ENABLE_code :: ioctl_code where "INTS_ENABLE_code = IOW ACQ32_IOC_MAGIC 25 4"
definition INTS_DISABLE_code :: ioctl_code where "INTS_DISABLE_code = IOW ACQ32_IOC_MAGIC 26 4"
definition ACQ32_IOS_SWALLOW_KMEM :: ioctl_code where "ACQ32_IOS_SWALLOW_KMEM = IOW ACQ32_IOC_MAGIC 27 4"
definition ACQ32_IOS_VALIDATE_BIGBUF :: ioctl_code where "ACQ32_IOS_VALIDATE_BIGBUF = IOW ACQ32_IOC_MAGIC 28 4"
definition ACQ32_IOC_MAXNR :: nat where "ACQ32_IOC_MAXNR = 29"

lemmas acq32_code_defs = ACQ32_IOC_MAGIC_def ACQ32_IOCRESET_def ACQ32_IOCGMEM_def ACQ32_IOSLIMIT_def ACQ32_IOSFORMAT_def
  ACQ32_IOARMSPIN_def ACQ32_IOARMRESET_def ACQ32_IOSDEBUG_def ACQ32_IO_MBX_NR_def ACQ32_IOSMBX_def ACQ32_IOGMBX_def
  ACQ32_IOSROM_WORD_A01_def ACQ32_IOCHARDRESET_def ACQ32_IOSENDI2O_def ACQ32_IOREAD_LOCALBUF_def ACQ32_IOREAD_GETPHYSICAL_def
  PCIREGS_OFFSET_code_def ACQ32_IOG_READ32_def ACQ32_IOS_WRITE32_def ACQ32_IOG_READ16_def ACQ32_IOS_WRITE16_def
  ACQ32_IOS_WAIT_EVENT_def INTS_ENABLE_code_def INTS_DISABLE_code_def ACQ32_IOS_SWALLOW_KMEM_def ACQ32_IOS_VALIDATE_BIGBUF_def

text \<open>The codes the first switch knows, and all the others the two headers define.\<close>

definition switch_codes :: "nat \<Rightarrow> ioctl_code list" where
  "switch_codes ptr = [MBOX_IOR_code, MBOX_IOWR_code, PCIREGS_OFFSET_code ptr, INTS_DISABLE_code, INTS_ENABLE_code]"

definition other_codes :: "nat \<Rightarrow> ioctl_code list" where
  "other_codes ptr = [MBOX_IOW_code, BUFFER_AB_IOWR_code, ACQ32_IOCRESET, ACQ32_IOCGMEM ptr, ACQ32_IOSLIMIT, ACQ32_IOSFORMAT,
     ACQ32_IOARMSPIN, ACQ32_IOARMRESET, ACQ32_IOSDEBUG] @ map ACQ32_IOSMBX [0..<MBOX_NUM] @ map (ACQ32_IOGMBX ptr) [0..<MBOX_NUM] @
    [ACQ32_IOSROM_WORD_A01, ACQ32_IOCHARDRESET, ACQ32_IOSENDI2O, ACQ32_IOREAD_LOCALBUF, ACQ32_IOREAD_GETPHYSICAL, ACQ32_IOG_READ32,
     ACQ32_IOS_WRITE32, ACQ32_IOG_READ16, ACQ32_IOS_WRITE16, ACQ32_IOS_WAIT_EVENT, ACQ32_IOS_SWALLOW_KMEM, ACQ32_IOS_VALIDATE_BIGBUF]"

section \<open>The switches\<close>

text \<open>\<open>ioc\<close> packs a code into a word.  The argument of a call is a word as well.\<close>

definition decode_cmd :: "(ioctl_code \<Rightarrow> u32) \<Rightarrow> nat \<Rightarrow> u32 \<Rightarrow> ulong \<Rightarrow> ioctl_cmd" where
  "decode_cmd ioc ptr cmd arg =
     (if cmd = ioc MBOX_IOR_code then ACQ200_MBOX_IOR
      else if cmd = ioc MBOX_IOWR_code then ACQ200_MBOX_IOWR
      else if cmd = ioc (PCIREGS_OFFSET_code ptr) then ACQ32_IOG_PCIREGS_OFFSET
      else if cmd = ioc INTS_DISABLE_code then ACQ32_IOS_INTS_DISABLE (ucast arg)
      else if cmd = ioc INTS_ENABLE_code then ACQ32_IOS_INTS_ENABLE (ucast arg)
      else OtherCmd cmd)"

definition ioctl_call :: "(ioctl_code \<Rightarrow> u32) \<Rightarrow> nat \<Rightarrow> bool \<Rightarrow> bool \<Rightarrow> exchange \<Rightarrow> ulong \<Rightarrow> mbox_dev \<Rightarrow> MailboxControl \<Rightarrow>
    MailboxControl \<Rightarrow> u32 \<Rightarrow> ulong \<Rightarrow> ioctl_result" where
  "ioctl_call ioc ptr from_ok to_ok x csr_pa device on_release ubc cmd arg =
     acq200_ioctl from_ok to_ok x csr_pa device on_release ubc (decode_cmd ioc ptr cmd arg)"

definition ioctlAB_call :: "(ioctl_code \<Rightarrow> u32) \<Rightarrow> u32 \<Rightarrow> ab_env \<Rightarrow> nat \<Rightarrow> BufferAB_Ops \<Rightarrow> file_dev \<Rightarrow>
    (int \<times> BufferAB_Ops option \<times> file_dev) option" where
  "ioctlAB_call ioc cmd e p ops d =
     (if cmd = ioc BUFFER_AB_IOWR_code then acq200_ioctlAB e p ops d else Some (- ENOTTY, None, d))"

text \<open>The write without waiting, which the default build leaves out.\<close>

definition acq200_ioctl_write_mbox :: "bool \<Rightarrow> mbox_dev \<Rightarrow> MailboxControl \<Rightarrow> int \<times> mbox_dev" where
  "acq200_ioctl_write_mbox down_interrupted device mbc =
     (if down_interrupted then (- ERESTARTSYS, device)
      else let (_, d) = ioctl_write_mbox (sem_down device) mbc in (0, sem_up d))"

section \<open>Lemmas\<close>

lemma codes_distinct: "distinct (switch_codes ptr @ other_codes ptr)"
  by (simp add: switch_codes_def other_codes_def acq200_code_defs acq32_code_defs ioc_defs upt_rec)

lemma codes_ok: "ptr < 2 ^ 14 \<Longrightarrow> \<forall>c \<in> set (switch_codes ptr @ other_codes ptr). code_ok c"
  by (simp add: switch_codes_def other_codes_def acq200_code_defs acq32_code_defs ioc_defs upt_rec code_ok_def)

lemma code_numbers: "\<forall>c \<in> set (switch_codes ptr @ other_codes ptr). ioc_type c = ACQ32_IOC_MAGIC \<longrightarrow> ioc_nr c < ACQ32_IOC_MAXNR"
  by (simp add: switch_codes_def other_codes_def acq200_code_defs acq32_code_defs ioc_defs upt_rec ACQ32_IOC_MAXNR_def)

text \<open>Decoding a packed code whose fields fit.\<close>

lemma decode_switch:
  assumes "inj_on ioc {c. code_ok c}" "ptr < 2 ^ 14" "code_ok c"
  shows "decode_cmd ioc ptr (ioc c) arg =
    (if c = MBOX_IOR_code then ACQ200_MBOX_IOR else if c = MBOX_IOWR_code then ACQ200_MBOX_IOWR
     else if c = PCIREGS_OFFSET_code ptr then ACQ32_IOG_PCIREGS_OFFSET
     else if c = INTS_DISABLE_code then ACQ32_IOS_INTS_DISABLE (ucast arg)
     else if c = INTS_ENABLE_code then ACQ32_IOS_INTS_ENABLE (ucast arg) else OtherCmd (ioc c))"
proof -
  have "ioc c = ioc c' \<longleftrightarrow> c = c'" if "c' \<in> set (switch_codes ptr)" for c'
    using inj_on_eq_iff [OF assms(1), of c c'] assms(3) codes_ok [OF assms(2)] that by simp
  then show ?thesis unfolding decode_cmd_def by (simp add: switch_codes_def)
qed

section \<open>An encoding\<close>

text \<open>The packing of the generic kernel headers, to show that the assumption can be met.\<close>

primrec dir_bits :: "ioc_dir \<Rightarrow> nat" where
  "dir_bits IocNone = 0" | "dir_bits IocWrite = 1" | "dir_bits IocRead = 2" | "dir_bits IocReadWrite = 3"

definition ioc_nat :: "ioctl_code \<Rightarrow> nat" where
  "ioc_nat c = dir_bits (ioc_dir c) * 2 ^ 30 + ioc_size c * 2 ^ 16 + ioc_type c * 2 ^ 8 + ioc_nr c"

definition generic_ioc :: "ioctl_code \<Rightarrow> u32" where "generic_ioc c = of_nat (ioc_nat c)"

lemma dir_bits_lt: "dir_bits x < 4"
  by (cases x) simp_all

lemma dir_bits_inj: "dir_bits x = dir_bits y \<longleftrightarrow> x = y"
  by (cases x; cases y) simp_all

lemma ioc_nat_lt: "code_ok c \<Longrightarrow> ioc_nat c < 2 ^ 32"
  using dir_bits_lt [of "ioc_dir c"] by (simp add: code_ok_def ioc_nat_def)

lemma ioc_nat_parts:
  assumes "code_ok c"
  shows "ioc_nr c = ioc_nat c mod 256" "ioc_type c = ioc_nat c div 256 mod 256"
    "ioc_size c = ioc_nat c div 256 div 256 mod 2 ^ 14" "dir_bits (ioc_dir c) = ioc_nat c div 256 div 256 div 2 ^ 14"
proof -
  let ?s = "dir_bits (ioc_dir c) * 2 ^ 14 + ioc_size c"
  have e: "ioc_nat c = (?s * 256 + ioc_type c) * 256 + ioc_nr c" by (simp add: ioc_nat_def)
  have digit: "(q * m + r) mod m = r" "(q * m + r) div m = q" if "r < m" for q m r :: nat
    using that by simp_all
  note ok = assms [unfolded code_ok_def]
  show "ioc_nr c = ioc_nat c mod 256" using ok unfolding e by (simp only: digit)
  have d1: "ioc_nat c div 256 = ?s * 256 + ioc_type c" using ok unfolding e by (simp only: digit)
  show "ioc_type c = ioc_nat c div 256 mod 256" using ok unfolding d1 by (simp only: digit)
  have d2: "ioc_nat c div 256 div 256 = ?s" using ok unfolding d1 by (simp only: digit)
  show "ioc_size c = ioc_nat c div 256 div 256 mod 2 ^ 14" using ok unfolding d2 by (simp only: digit)
  show "dir_bits (ioc_dir c) = ioc_nat c div 256 div 256 div 2 ^ 14" using ok unfolding d2 by (simp only: digit)
qed

lemma generic_ioc_inj: "inj_on generic_ioc {c. code_ok c}"
proof (rule inj_onI)
  fix a b assume ok: "a \<in> {c. code_ok c}" "b \<in> {c. code_ok c}" and e: "generic_ioc a = generic_ioc b"
  have id: "unat (of_nat m :: u32) = m" if "m < 2 ^ 32" for m
    using that by (simp add: unsigned_of_nat take_bit_nat_eq_self)
  have u: "unat (generic_ioc c) = ioc_nat c" if "code_ok c" for c
    unfolding generic_ioc_def by (rule id) (rule ioc_nat_lt [OF that])
  have n: "ioc_nat a = ioc_nat b" using u [of a] u [of b] ok e by simp
  have "dir_bits (ioc_dir a) = dir_bits (ioc_dir b)" "ioc_type a = ioc_type b" "ioc_nr a = ioc_nr b" "ioc_size a = ioc_size b"
    using ok n by (simp_all only: mem_Collect_eq ioc_nat_parts [of a] ioc_nat_parts [of b])
  then show "a = b" by (simp add: dir_bits_inj)
qed

text \<open>The five codes of the switch, the others, and the switch of the swinging buffers.\<close>

lemma decode_known:
  assumes "inj_on ioc {c. code_ok c}" "ptr < 2 ^ 14"
  shows "decode_cmd ioc ptr (ioc MBOX_IOR_code) arg = ACQ200_MBOX_IOR"
    "decode_cmd ioc ptr (ioc MBOX_IOWR_code) arg = ACQ200_MBOX_IOWR"
    "decode_cmd ioc ptr (ioc (PCIREGS_OFFSET_code ptr)) arg = ACQ32_IOG_PCIREGS_OFFSET"
    "decode_cmd ioc ptr (ioc INTS_DISABLE_code) arg = ACQ32_IOS_INTS_DISABLE (ucast arg)"
    "decode_cmd ioc ptr (ioc INTS_ENABLE_code) arg = ACQ32_IOS_INTS_ENABLE (ucast arg)"
  using codes_ok [OF assms(2)] codes_distinct [of ptr]
  by (auto simp: decode_switch [OF assms] switch_codes_def)

lemma decode_unknown:
  assumes "inj_on ioc {c. code_ok c}" "ptr < 2 ^ 14" "code_ok c" "c \<notin> set (switch_codes ptr)"
  shows "decode_cmd ioc ptr (ioc c) arg = OtherCmd (ioc c)"
  using assms(4) by (simp add: decode_switch [OF assms(1-3)] switch_codes_def)

lemma AB_other:
  assumes "inj_on ioc {c. code_ok c}" "code_ok c" "c \<noteq> BUFFER_AB_IOWR_code"
  shows "ioctlAB_call ioc (ioc c) e p ops d = Some (- ENOTTY, None, d)"
proof -
  have "code_ok BUFFER_AB_IOWR_code" by (simp add: code_ok_def acq200_code_defs ioc_defs)
  then have "ioc c \<noteq> ioc BUFFER_AB_IOWR_code" using inj_on_eq_iff [OF assms(1)] assms(2, 3) by simp
  then show ?thesis by (simp add: ioctlAB_call_def)
qed

lemma write_boxes_response: "mb_response_received (write_boxes n m vals d) = mb_response_received d"
  by (induction n m vals d rule: write_boxes.induct) (auto simp: MBOX_WRITE_def)

section \<open>Properties\<close>

text \<open>C11. 
  Whatever lossless packing of direction, letter, number and size the kernel uses, no two of the calls that the two headers define share
  a number.  Each of the five numbers of the driver's switch reaches its own operation, every other call of the headers is refused with
  \<open>- ENOTTY\<close> and changes nothing; on the files of the swinging buffers it is the other way round, and only the buffer call is
  served.
\<close>

theorem ioctl_dispatch:
  assumes "inj_on ioc {c. code_ok c}" and "ptr < 2 ^ 14"
  shows "distinct (map ioc (switch_codes ptr @ other_codes ptr)) \<and>
    ioctl_call ioc ptr from_ok to_ok x csr_pa device on_release ubc (ioc MBOX_IOR_code) arg =
      MboxResult (acq200_mbox_ioctl from_ok to_ok ReadMbox x device on_release ubc) \<and>
    ioctl_call ioc ptr from_ok to_ok x csr_pa device on_release ubc (ioc MBOX_IOWR_code) arg =
      MboxResult (acq200_mbox_ioctl from_ok to_ok WbrMbox x device on_release ubc) \<and>
    ioctl_call ioc ptr from_ok to_ok x csr_pa device on_release ubc (ioc (PCIREGS_OFFSET_code ptr)) arg =
      PutUser (ucast (csr_pa AND 0xfff) + 0x10) \<and>
    ioctl_call ioc ptr from_ok to_ok x csr_pa device on_release ubc (ioc INTS_DISABLE_code) arg =
      IrqResult (acq200_intsDisable (ucast arg)) \<and>
    ioctl_call ioc ptr from_ok to_ok x csr_pa device on_release ubc (ioc INTS_ENABLE_code) arg =
      IrqResult (acq200_intsEnable (ucast arg)) \<and>
    (\<forall>c \<in> set (other_codes ptr). ioctl_call ioc ptr from_ok to_ok x csr_pa device on_release ubc (ioc c) arg = IoctlError (- ENOTTY)) \<and>
    ioctlAB_call ioc (ioc BUFFER_AB_IOWR_code) e p ops d = acq200_ioctlAB e p ops d \<and>
    (\<forall>c \<in> set (switch_codes ptr @ other_codes ptr). c \<noteq> BUFFER_AB_IOWR_code \<longrightarrow>
       ioctlAB_call ioc (ioc c) e p ops d = Some (- ENOTTY, None, d))"
proof -
  note ok = codes_ok [OF assms(2)]
  have "inj_on ioc (set (switch_codes ptr @ other_codes ptr))" using ok by (intro inj_on_subset [OF assms(1)]) auto
  then have "distinct (map ioc (switch_codes ptr @ other_codes ptr))" using codes_distinct by (simp only: distinct_map)
  moreover have "\<forall>c \<in> set (other_codes ptr).
      ioctl_call ioc ptr from_ok to_ok x csr_pa device on_release ubc (ioc c) arg = IoctlError (- ENOTTY)"
  proof
    fix c assume c: "c \<in> set (other_codes ptr)"
    have "code_ok c" using ok c by simp
    moreover have "c \<notin> set (switch_codes ptr)" using codes_distinct [of ptr] c by auto
    ultimately show "ioctl_call ioc ptr from_ok to_ok x csr_pa device on_release ubc (ioc c) arg = IoctlError (- ENOTTY)"
      by (simp add: ioctl_call_def decode_unknown [OF assms] acq200_ioctl_def)
  qed
  moreover have "\<forall>c \<in> set (switch_codes ptr @ other_codes ptr). c \<noteq> BUFFER_AB_IOWR_code \<longrightarrow>
       ioctlAB_call ioc (ioc c) e p ops d = Some (- ENOTTY, None, d)"
    using AB_other [OF assms(1)] ok by blast
  ultimately show ?thesis
    by (simp only: ioctl_call_def decode_known [OF assms] acq200_ioctl_def ioctl_cmd.simps ioctlAB_call_def if_True) simp
qed

theorem ioctl_dispatch_witness:
  "inj_on generic_ioc {c. code_ok c} \<and>
   ioctl_call generic_ioc 8 True True acking_exchange 0xf0001234 quiet_dev (new_mbc 0) (new_mbc 0) (generic_ioc (PCIREGS_OFFSET_code 8)) 0 =
     PutUser 0x244 \<and>
   ioctl_call generic_ioc 8 True True acking_exchange 0xf0001234 quiet_dev (new_mbc 0) (new_mbc 0) (generic_ioc MBOX_IOW_code) 0 =
     IoctlError (- 25)"
proof -
  have s: "(8 :: nat) < 2 ^ 14" by simp
  have "MBOX_IOW_code \<in> set (other_codes 8)" by (simp add: other_codes_def)
  then show ?thesis
    using ioctl_dispatch [OF generic_ioc_inj s, where from_ok = True and to_ok = True and x = acking_exchange and csr_pa = "0xf0001234"
        and device = quiet_dev and on_release = "new_mbc 0" and ubc = "new_mbc 0" and arg = 0] generic_ioc_inj
    by (simp add: ENOTTY_def)
qed

text \<open>
  The call for the offset of the PCI registers is numbered with the size of a pointer, not of the word it returns.  A client whose
  pointers have another size than the kernel's asks with a number the driver does not know, and is refused whatever the packing.
\<close>

theorem pciregs_pointer_size:
  assumes "inj_on ioc {c. code_ok c}" and "ptr < 2 ^ 14" and "ptr' < 2 ^ 14"
  shows "ioctl_call ioc ptr from_ok to_ok x csr_pa device on_release ubc (ioc (PCIREGS_OFFSET_code ptr')) arg =
    (if ptr' = ptr then PutUser (ucast (csr_pa AND 0xfff) + 0x10) else IoctlError (- ENOTTY))"
proof (cases "ptr' = ptr")
  case True
  then show ?thesis by (simp add: ioctl_call_def decode_known [OF assms(1, 2)] acq200_ioctl_def)
next
  case False
  have "code_ok (PCIREGS_OFFSET_code ptr')" using assms(3) by (simp add: code_ok_def acq32_code_defs ioc_defs)
  moreover have "PCIREGS_OFFSET_code ptr' \<notin> set (switch_codes ptr)"
    using False by (simp add: switch_codes_def acq200_code_defs acq32_code_defs ioc_defs)
  ultimately show ?thesis
    using False by (simp add: ioctl_call_def decode_unknown [OF assms(1, 2)] acq200_ioctl_def)
qed

theorem pciregs_pointer_size_witness:
  "ioctl_call generic_ioc 8 True True acking_exchange 0xf0001234 quiet_dev (new_mbc 0) (new_mbc 0) (generic_ioc (PCIREGS_OFFSET_code 4)) 0 =
     IoctlError (- 25)"
  using pciregs_pointer_size [OF generic_ioc_inj, of 8 4] by (simp add: ENOTTY_def)

text \<open>
  The write that does not wait, of a build with \<^verbatim>\<open>DANGEROUS\<close>: interrupted, it touches nothing; otherwise it returns
  at once with the semaphore as it was, having written exactly the selected mailboxes, the highest first, and having dropped a response that
  another client may be waiting for.
\<close>

theorem write_without_waiting:
  assumes "MBOX_NUM \<le> length (mbox device)"
  shows "acq200_ioctl_write_mbox True device mbc = (- ERESTARTSYS, device) \<and>
    (\<exists>d. acq200_ioctl_write_mbox False device mbc = (0, d) \<and> sem d = sem device \<and> \<not> mb_response_received d \<and>
       mbox_writes d = mbox_writes device @ selected_writes MBOX_NUM (MBC_FROM_MBXW mbc) (mbxw mbc) \<and>
       length (mbox d) = length (mbox device) \<and>
       (\<forall>i < length (mbox device). mbox d ! i =
          (if i < MBOX_NUM \<and> bit (MBC_FROM_MBXW mbc) i then mbxw mbc ! i else mbox device ! i)))"
  using assms write_boxes_regs [of MBOX_NUM "device\<lparr>sem := sem device - 1, mb_response_received := False\<rparr>" "MBC_FROM_MBXW mbc" "mbxw mbc"]
  by (simp add: acq200_ioctl_write_mbox_def ioctl_write_mbox_def sem_down_def sem_up_def write_boxes_log write_boxes_response)

theorem write_without_waiting_witness:
  "\<exists>d. acq200_ioctl_write_mbox False quiet_dev (new_mbc 0x00030000) = (0, d) \<and> sem d = 1 \<and> \<not> mb_response_received d \<and>
     mbox_writes d = [(1, 0), (0, 0)] \<and> mbox d ! 3 = 0x123"
  using write_without_waiting [of quiet_dev "new_mbc 0x00030000"]
  by (auto simp: quiet_dev_def new_mbc_def MBOX_NUM_def selected_writes_def upt_4 MBC_FROM_MBXW_def MBC_FLAGS_MBXW_def
      bit_drop_bit_eq bit_and_iff bit_u32_numeral)

end
