(* ===== verification/Registers.thy ===== *)
theory Registers
  imports Mmap Isr Ioctl_Numbers
begin

text \<open>
  The registers of the card as the kernel and as a client reach them (\<^verbatim>\<open>src/acq200.h\<close>): byte offsets of the message unit, the
  mailboxes as an array of words in the mapped registers, and the pointer that a client builds from the mapping of the raw device
  (\<^verbatim>\<open>src/acq200_mmap.c\<close>) and the offset the ioctl tells it (\<^verbatim>\<open>src/acq200.c\<close>).
\<close>

definition ACQ200_MAILBOX_0 :: nat where "ACQ200_MAILBOX_0 = 0x10"
definition ACQ200_IQP :: nat where "ACQ200_IQP = 0x40"
definition ACQ200_OQP :: nat where "ACQ200_OQP = 0x44"
definition ACQ200_OISR_PCI_INTA :: u32 where "ACQ200_OISR_PCI_INTA = 0x10"

definition MBOX_OFFSET :: nat where "MBOX_OFFSET = 0x10"
definition MBOX_OFFSETL :: nat where "MBOX_OFFSETL = MBOX_OFFSET div 4"

text \<open>The byte offset of mailbox \<open>ibox\<close>, an index into words.\<close>

definition MBOX :: "nat \<Rightarrow> nat" where "MBOX ibox = 4 * (MBOX_OFFSETL + ibox)"

definition mu_registers :: "nat list" where
  "mu_registers = [ACQ200_ODR, ACQ200_OISR, ACQ200_OIMR, ACQ200_IQP, ACQ200_OQP]"

definition mailboxes :: "nat list" where "mailboxes = map MBOX [0..<MBOX_NUM]"

lemmas register_defs = ACQ200_MAILBOX_0_def ACQ200_IQP_def ACQ200_OQP_def MBOX_OFFSET_def MBOX_OFFSETL_def MBOX_def MBOX_NUM_def
  ACQ200_ODR_def ACQ200_OISR_def ACQ200_OIMR_def

section \<open>Lemmas\<close>

lemma unat_take_page: "unat (x AND 0xfff :: ulong) = unat x mod 4096"
proof -
  have "x AND 0xfff = take_bit 12 x" by (simp add: take_bit_eq_mask mask_eq_exp_minus_1)
  then show ?thesis by (simp add: unsigned_take_bit_eq take_bit_nat_def)
qed

lemma unat_frame:
  assumes "unat (x :: ulong) < 2 ^ 44"
  shows "unat (ucast (drop_bit 12 x) :: u32) = unat x div 4096"
proof -
  have "unat (drop_bit 12 x) = unat x div 4096" by (simp add: drop_bit_eq_div unat_div)
  moreover have "unat x div 4096 < 2 ^ 32" using assms by simp
  ultimately show ?thesis by (simp add: unsigned_ucast_eq take_bit_nat_eq_self)
qed

text \<open>An address that is a multiple of 128 leaves room for the mailboxes in its page.\<close>

lemma page_room:
  assumes "128 dvd (a :: nat)"
  shows "a mod 4096 + 128 \<le> 4096"
proof -
  obtain k where "a = 128 * k" using assms by (rule dvdE)
  then have "a mod 4096 = 128 * (k mod 32)" using mult_mod_right [of 128 k 32] by simp
  then show ?thesis by simp
qed

lemma offset_value:
  assumes "128 dvd unat (csr :: ulong)"
  shows "unat (ucast (csr AND 0xfff) + 0x10 :: u32) = unat csr mod 4096 + 16"
proof -
  have "unat (ucast (csr AND 0xfff) :: u32) = unat csr mod 4096"
    by (simp add: unsigned_ucast_eq unat_take_page take_bit_nat_eq_self)
  then show ?thesis using page_room [OF assms] by (simp add: unat_word_ariths)
qed

section \<open>Properties\<close>

text \<open>
  The registers the driver touches.  Mailbox 0 is the register of that name; the four mailboxes and the five registers of the message
  unit lie at different word addresses, all inside the window of 0x80 bytes that the driver maps, so writing one never writes another.
\<close>

theorem register_map:
  "MBOX 0 = ACQ200_MAILBOX_0 \<and> distinct (map CSR (mailboxes @ mu_registers)) \<and>
   (\<forall>r \<in> set (mailboxes @ mu_registers). CSR r = r \<and> int (r + 4) \<le> CSR_SIZE)"
  by (simp add: mailboxes_def mu_registers_def register_defs CSR_def CSR_SIZE_def upt_rec)

text \<open>C25. 
  The pointer of a client to the mailboxes.  A client that maps one page of the raw device at offset 0 and adds the offset that the
  ioctl tells it addresses the very mailboxes the driver uses, and all four of them are in the page it has mapped.  The registers are where
  a PCI window of 0x80 bytes can be, below 16 TB.
\<close>

theorem client_mailbox_pointer:
  assumes "fst (select_fops mn) = MboxFops" and "128 dvd unat (io_pa (ca_csr dev))" "unat (io_pa (ca_csr dev)) < 2 ^ 44"
    and "vm_pgoff vma = 0" "vm_end vma = vm_start vma + 4096"
    and "inj_on ioc {c. code_ok c}" "ptr < 2 ^ 14"
  shows "\<exists>pfn ba. file_mmap (\<lambda>_ _. False) dev mn vma = (0, Some (pfn, 4096)) \<and>
     ioctl_call ioc ptr from_ok to_ok x (io_pa (ca_csr dev)) device on_release ubc (ioc (PCIREGS_OFFSET_code ptr)) arg = PutUser ba \<and>
     (\<forall>ibox < MBOX_NUM. unat pfn * 4096 + unat ba + 4 * ibox = unat (io_pa (ca_csr dev)) + MBOX ibox \<and>
        unat ba + 4 * ibox + 4 \<le> 4096)"
proof -
  let ?csr = "io_pa (ca_csr dev)"
  let ?pfn = "ucast (drop_bit 12 ?csr) :: u32" and ?ba = "ucast (?csr AND 0xfff) + 0x10 :: u32"
  have "file_mmap (\<lambda>_ _. False) dev mn vma = (0, Some (?pfn, 4096))"
    using assms(1,4,5) by (simp add: file_mmap_def acq200_mmap_mbox_def remap_def PAGE_SHIFT_def CSR_SIZE_MAX_def)
  moreover have "ioctl_call ioc ptr from_ok to_ok x ?csr device on_release ubc (ioc (PCIREGS_OFFSET_code ptr)) arg = PutUser ?ba"
    by (simp add: ioctl_call_def decode_known [OF assms(6,7)] acq200_ioctl_def)
  moreover have "unat ?pfn * 4096 + unat ?ba = unat ?csr + 16"
    unfolding unat_frame [OF assms(3)] offset_value [OF assms(2)] by simp
  moreover have "unat ?ba + 112 \<le> 4096" unfolding offset_value [OF assms(2)] using page_room [OF assms(2)] by simp
  ultimately show ?thesis by (intro exI [of _ ?pfn] exI [of _ ?ba]) (auto simp: register_defs)
qed

theorem client_mailbox_pointer_witness:
  "\<exists>pfn ba. file_mmap (\<lambda>_ _. False) ((new_card example_create 5 0)\<lparr>ca_csr := \<lparr>io_va = 0, io_pa = 0xfebc0480, io_len = 0x80, io_name = []\<rparr>\<rparr>)
       193 \<lparr>vm_start = 0x1000, vm_end = 0x2000, vm_pgoff = 0, vm_flags = 3\<rparr> = (0, Some (pfn, 4096)) \<and>
     ioctl_call generic_ioc 8 True True acking_exchange 0xfebc0480 quiet_dev (new_mbc 0) (new_mbc 0) (generic_ioc (PCIREGS_OFFSET_code 8)) 0 = PutUser ba \<and>
     unat pfn * 4096 + unat ba + 12 = 0xfebc0480 + 0x1c"
proof -
  let ?dev = "(new_card example_create 5 0)\<lparr>ca_csr := \<lparr>io_va = 0, io_pa = 0xfebc0480, io_len = 0x80, io_name = []\<rparr>\<rparr>"
  let ?vma = "\<lparr>vm_start = 0x1000, vm_end = 0x2000, vm_pgoff = 0, vm_flags = 3\<rparr>"
  have s: "fst (select_fops 193) = MboxFops" by code_simp
  obtain pfn ba where p: "file_mmap (\<lambda>_ _. False) ?dev 193 ?vma = (0, Some (pfn, 4096))"
     "ioctl_call generic_ioc 8 True True acking_exchange (io_pa (ca_csr ?dev)) quiet_dev (new_mbc 0) (new_mbc 0)
        (generic_ioc (PCIREGS_OFFSET_code 8)) 0 = PutUser ba"
     "\<forall>ibox < MBOX_NUM. unat pfn * 4096 + unat ba + 4 * ibox = unat (io_pa (ca_csr ?dev)) + MBOX ibox \<and> unat ba + 4 * ibox + 4 \<le> 4096"
    using client_mailbox_pointer [OF s _ _ _ _ generic_ioc_inj, of ?dev ?vma 8 True True acking_exchange quiet_dev "new_mbc 0" "new_mbc 0" 0]
    by auto
  from p(3) have "unat pfn * 4096 + unat ba + 12 = 0xfebc0480 + 0x1c"
    by (auto simp: register_defs dest: spec [of _ 3])
  with p(1,2) show ?thesis by (intro exI [of _ pfn] exI [of _ ba]) simp
qed

end
