(* ===== verification/Bus_Codes.thy ===== *)
theory Bus_Codes
  imports Bus_Protocol
begin

text \<open>
  The commands and queries of the card with their function codes, the option bits of their arguments, and the message types
  (\<^verbatim>\<open>src/acq32busprot.h\<close>, beside \<^verbatim>\<open>Bus_Protocol\<close>, which has what the driver itself uses).  Two interfaces carry the proofs: a
  field of a word, with the macros that write and read it, and the layout of a word as a list of disjoint masks.  Both are
  interpreted on the macros of the header; \<^verbatim>\<open>Bus_Modes\<close> interprets them again for the streaming modes.
\<close>

section \<open>Interfaces\<close>

text \<open>A field of \<open>width\<close> bits from bit \<open>lo\<close> on: \<open>put\<close> places a value that fits, \<open>get\<close> takes it out.\<close>

locale bit_field =
  fixes get :: "u32 \<Rightarrow> u32" and put :: "u32 \<Rightarrow> u32" and lo :: nat and width :: nat
  assumes get: "get w = take_bit width (drop_bit lo w)"
    and put: "x < 2 ^ width \<Longrightarrow> put x = push_bit lo x"
    and fits: "lo + width \<le> 32" "width < 32"
begin

lemma value_bits: "(x :: u32) < 2 ^ width \<Longrightarrow> bit x n \<Longrightarrow> n < width"
  using small_word_bits [of x width n] fits by simp

lemma get_put: "x < 2 ^ width \<Longrightarrow> get (put x) = x"
  using fits unfolding get by (intro bit_word_eqI) (auto simp: put bit_simps dest: value_bits)

lemma get_or: "get (v OR w) = get v OR get w"
  unfolding get by (intro bit_word_eqI) (auto simp: bit_simps)

text \<open>Words that have no bit in the field do not disturb it.\<close>

lemma get_outside: "\<forall>n. bit w n \<longrightarrow> n < lo \<or> lo + width \<le> n \<Longrightarrow> get w = 0"
  unfolding get by (intro bit_word_eqI) (auto simp: bit_simps)

lemma put_bits: "x < 2 ^ width \<Longrightarrow> bit (put x) n \<Longrightarrow> lo \<le> n \<and> n < lo + width"
  by (auto simp: put bit_simps dest: value_bits)

end

text \<open>A word as a list of masks no two of which share a bit.\<close>

definition disjoint_masks :: "u32 list \<Rightarrow> bool" where
  "disjoint_masks ms = sorted_wrt (\<lambda>x y. x AND y = 0) ms"

locale word_layout =
  fixes masks :: "u32 list"
  assumes disjoint: "disjoint_masks masks"
begin

lemma masks_disjoint:
  assumes "i < length masks" "j < length masks" "i \<noteq> j"
  shows "masks ! i AND masks ! j = 0"
proof (cases "i < j")
  case True
  then show ?thesis using disjoint assms(2) sorted_wrt_nth_less [of _ masks i j] by (auto simp: disjoint_masks_def)
next
  case False
  then have "masks ! j AND masks ! i = 0" using disjoint assms sorted_wrt_nth_less [of _ masks j i] by (auto simp: disjoint_masks_def)
  then show ?thesis by (simp add: and.commute)
qed

text \<open>Setting, clearing or writing one part keeps every other part.\<close>

lemma write_keeps:
  assumes "i < length masks" "j < length masks" "i \<noteq> j"
  shows "((w AND NOT (masks ! i)) OR (x AND masks ! i)) AND masks ! j = w AND masks ! j"
proof -
  have "bit (masks ! i) n \<Longrightarrow> \<not> bit (masks ! j) n" for n
    using arg_cong [OF masks_disjoint [OF assms], of "\<lambda>w. bit w n"] by (simp add: bit_simps)
  then show ?thesis by (intro bit_word_eqI) (auto simp: bit_simps)
qed

end

section \<open>Commands\<close>

definition BP_FC_SET_DEBUG :: u32 where "BP_FC_SET_DEBUG = funcode_word fcb"
definition BP_FC_SET_INTCLOCK :: u32 where "BP_FC_SET_INTCLOCK = funcode_word fci"
definition BP_FC_SET_EXTCLOCK :: u32 where "BP_FC_SET_EXTCLOCK = funcode_word fce"
definition BP_FC_SET_TAGGING :: u32 where "BP_FC_SET_TAGGING = funcode_word FCT"
definition BP_FC_SET_SPIN :: u32 where "BP_FC_SET_SPIN = funcode_word FCY"
definition BP_FC_BIG_DUMP :: u32 where "BP_FC_BIG_DUMP = funcode_word FCU"
definition BP_FC_SET_ROUTE :: u32 where "BP_FC_SET_ROUTE = funcode_word fcr"
definition BP_FC_SET_CALDACS :: u32 where "BP_FC_SET_CALDACS = funcode_word FCC"
definition BP_FC_SET_DACPOT :: u32 where "BP_FC_SET_DACPOT = funcode_word FCP"
definition BP_FC_SET_MODE :: u32 where "BP_FC_SET_MODE = funcode_word FCM"
definition BP_FC_SET_MODE_GC :: u32 where "BP_FC_SET_MODE_GC = funcode_word FCG"
definition BP_FC_SET_MODE_TC :: u32 where "BP_FC_SET_MODE_TC = funcode_word FCH"
definition BP_FC_SET_ARM :: u32 where "BP_FC_SET_ARM = funcode_word FCA"
definition BP_FC_SET_ABORT :: u32 where "BP_FC_SET_ABORT = funcode_word FCZ"
definition BP_FC_SET_MASK :: u32 where "BP_FC_SET_MASK = funcode_word FCK"
definition BP_FC_RESERVE_AO :: u32 where "BP_FC_RESERVE_AO = funcode_word fca"
definition BP_FC_SET_DACS :: u32 where "BP_FC_SET_DACS = funcode_word FCD"
definition BP_FC_SET_DO :: u32 where "BP_FC_SET_DO = funcode_word fcf"
definition BP_FC_SC_SET_DIO :: u32 where "BP_FC_SC_SET_DIO = funcode_word fcd"
definition BP_FC_SC_SET_CHANNEL :: u32 where "BP_FC_SC_SET_CHANNEL = funcode_word fcc"
definition BP_FC_SC_POT :: u32 where "BP_FC_SC_POT = funcode_word fcp"
definition BP_FC_SET_DISTRIBUTOR :: u32 where "BP_FC_SET_DISTRIBUTOR = funcode_word fcs"
definition BP_FC_SELECT_CALSET :: u32 where "BP_FC_SELECT_CALSET = funcode_word fcl"
definition BP_FC_ADJUST_TRIGGER :: u32 where "BP_FC_ADJUST_TRIGGER = funcode_word fc80"
definition BP_GUT_SETPHASE :: u32 where "BP_GUT_SETPHASE = funcode_word fc1"
definition BP_GUT_SETEVENT :: u32 where "BP_GUT_SETEVENT = funcode_word fc2"
definition BP_GUT_FIREEVENT :: u32 where "BP_GUT_FIREEVENT = funcode_word fc3"
definition BP_GUT_SETCLOCK :: u32 where "BP_GUT_SETCLOCK = funcode_word fc4"
definition BP_GUT_CLOCKNOW :: u32 where "BP_GUT_CLOCKNOW = funcode_word fc5"
definition BP_GUT_RESET :: u32 where "BP_GUT_RESET = funcode_word fc6"
definition BP_FC_SET_DATA_THRESHOLD :: u32 where "BP_FC_SET_DATA_THRESHOLD = funcode_word fct"
definition BP_FC_USER :: u32 where "BP_FC_USER = funcode_word fcu"
definition BP_FC_WAIT_EVENT :: u32 where "BP_FC_WAIT_EVENT = funcode_word fcw"
definition BP_FC_FETCH_DATA :: u32 where "BP_FC_FETCH_DATA = funcode_word FCF"
definition BP_FC_TXDATA :: u32 where "BP_FC_TXDATA = funcode_word FCX"
definition BP_FC_SET_MODE_LLC :: u32 where "BP_FC_SET_MODE_LLC = funcode_word FCL"
definition BP_FC_SETMODE_HTM :: u32 where "BP_FC_SETMODE_HTM = funcode_word fch"
definition BP_FC_CPCI_SET_ROUTE :: u32 where "BP_FC_CPCI_SET_ROUTE = funcode_word fcy"

definition commands :: "u32 list" where
  "commands = [BP_FC_SET_DEBUG, BP_FC_SET_INTERRUPTS, BP_FC_SET_INTCLOCK, BP_FC_SET_EXTCLOCK, BP_FC_SET_TAGGING,
     BP_FC_SET_HOST_DMABUF, BP_FC_SET_SPIN, BP_FC_BIG_DUMP, BP_FC_SET_ROUTE, BP_FC_SET_CALDACS,
     BP_FC_SET_DACPOT, BP_FC_SET_MODE, BP_FC_SET_MODE_GC, BP_FC_SET_MODE_TC, BP_FC_SET_ARM, BP_FC_SET_ABORT,
     BP_FC_SET_MASK, BP_FC_RESERVE_AO, BP_FC_SET_DACS, BP_FC_SET_DO, BP_FC_SC_SET_DIO, BP_FC_SC_SET_CHANNEL,
     BP_FC_SC_POT, BP_FC_SET_DISTRIBUTOR, BP_FC_SELECT_CALSET, BP_FC_ADJUST_TRIGGER, BP_GUT_SETPHASE,
     BP_GUT_SETEVENT, BP_GUT_FIREEVENT, BP_GUT_SETCLOCK, BP_GUT_CLOCKNOW, BP_GUT_RESET,
     BP_FC_SET_DATA_THRESHOLD, BP_FC_USER, BP_FC_WAIT_EVENT, BP_FC_FETCH_DATA, BP_FC_TXDATA, BP_FC_STREAM,
     BP_FC_SET_MODE_LLC, BP_FC_SETMODE_HTM, BP_FC_CPCI_SET_ROUTE]"

lemmas command_defs =
  BP_FC_SET_DEBUG_def BP_FC_SET_INTERRUPTS_def BP_FC_SET_INTCLOCK_def BP_FC_SET_EXTCLOCK_def BP_FC_SET_TAGGING_def
  BP_FC_SET_HOST_DMABUF_def BP_FC_SET_SPIN_def BP_FC_BIG_DUMP_def BP_FC_SET_ROUTE_def BP_FC_SET_CALDACS_def
  BP_FC_SET_DACPOT_def BP_FC_SET_MODE_def BP_FC_SET_MODE_GC_def BP_FC_SET_MODE_TC_def BP_FC_SET_ARM_def
  BP_FC_SET_ABORT_def BP_FC_SET_MASK_def BP_FC_RESERVE_AO_def BP_FC_SET_DACS_def BP_FC_SET_DO_def BP_FC_SC_SET_DIO_def
  BP_FC_SC_SET_CHANNEL_def BP_FC_SC_POT_def BP_FC_SET_DISTRIBUTOR_def BP_FC_SELECT_CALSET_def BP_FC_ADJUST_TRIGGER_def
  BP_GUT_SETPHASE_def BP_GUT_SETEVENT_def BP_GUT_FIREEVENT_def BP_GUT_SETCLOCK_def BP_GUT_CLOCKNOW_def BP_GUT_RESET_def
  BP_FC_SET_DATA_THRESHOLD_def BP_FC_USER_def BP_FC_WAIT_EVENT_def BP_FC_FETCH_DATA_def BP_FC_TXDATA_def
  BP_FC_STREAM_def BP_FC_SET_MODE_LLC_def BP_FC_SETMODE_HTM_def BP_FC_CPCI_SET_ROUTE_def

section \<open>Queries\<close>

definition BP_FC_GET_INTCLOCK :: u32 where "BP_FC_GET_INTCLOCK = funcode_word fci"
definition BP_FC_GET_EXTCLOCK :: u32 where "BP_FC_GET_EXTCLOCK = funcode_word fce"
definition BP_FC_GET_FWREV :: u32 where "BP_FC_GET_FWREV = funcode_word FCR"
definition BP_FC_GET_CONFIG :: u32 where "BP_FC_GET_CONFIG = funcode_word FCV"
definition BP_FC_GET_CALINFO :: u32 where "BP_FC_GET_CALINFO = funcode_word FCW"
definition BP_FC_GET_CAPTURESTATS :: u32 where "BP_FC_GET_CAPTURESTATS = funcode_word FCE"
definition BP_FC_DEBUG_GET_REGS :: u32 where "BP_FC_DEBUG_GET_REGS = funcode_word FCQ"
definition BP_FC_GET_NUMSAMPLES :: u32 where "BP_FC_GET_NUMSAMPLES = funcode_word FCN"
definition BP_FC_GET_MASK :: u32 where "BP_FC_GET_MASK = funcode_word FCK"
definition BPFC_GET_MODEL :: u32 where "BPFC_GET_MODEL = funcode_word fck"
definition BPFC_GET_RANGE :: u32 where "BPFC_GET_RANGE = funcode_word fcm"
definition BP_FC_QUERY_AO :: u32 where "BP_FC_QUERY_AO = funcode_word fca"
definition BP_FC_SC_GET_DIO :: u32 where "BP_FC_SC_GET_DIO = funcode_word fcd"
definition BP_FC_GET_ATRIGGER :: u32 where "BP_FC_GET_ATRIGGER = funcode_word fc80"
definition BP_GUT_GETPHASE :: u32 where "BP_GUT_GETPHASE = funcode_word fc1"
definition BP_GUT_GETEVENT :: u32 where "BP_GUT_GETEVENT = funcode_word fc2"
definition BP_FC_CPCI_GETROUTE_STATUS :: u32 where "BP_FC_CPCI_GETROUTE_STATUS = funcode_word fcy"

definition queries :: "u32 list" where
  "queries = [BP_FC_GET_INTCLOCK, BP_FC_GET_EXTCLOCK, BP_FC_GET_FWREV, BP_FC_GET_CONFIG, BP_FC_GET_CALINFO,
     BP_FC_GET_CAPTURESTATS, BP_FC_DEBUG_GET_REGS, BP_FC_GET_NUMSAMPLES, BP_FC_GET_MASK, BPFC_GET_MODEL,
     BPFC_GET_NCHANNELS, BPFC_GET_RANGE, BP_FC_QUERY_AO, BP_FC_SC_GET_DIO, BP_FC_GET_ATRIGGER,
     BP_GUT_GETPHASE, BP_GUT_GETEVENT, BP_FC_CPCI_GETROUTE_STATUS]"

lemmas query_defs =
  BP_FC_GET_INTCLOCK_def BP_FC_GET_EXTCLOCK_def BP_FC_GET_FWREV_def BP_FC_GET_CONFIG_def BP_FC_GET_CALINFO_def
  BP_FC_GET_CAPTURESTATS_def BP_FC_DEBUG_GET_REGS_def BP_FC_GET_NUMSAMPLES_def BP_FC_GET_MASK_def BPFC_GET_MODEL_def
  BPFC_GET_NCHANNELS_def BPFC_GET_RANGE_def BP_FC_QUERY_AO_def BP_FC_SC_GET_DIO_def BP_FC_GET_ATRIGGER_def
  BP_GUT_GETPHASE_def BP_GUT_GETEVENT_def BP_FC_CPCI_GETROUTE_STATUS_def

section \<open>Options\<close>

text \<open>Parameters in the argument fields, by command.\<close>

definition BP_FC_SET_MASK_RAW :: u32 where "BP_FC_SET_MASK_RAW = 114"
definition BP_FC_SET_MASK_ROW :: u32 where "BP_FC_SET_MASK_ROW = 82"
definition BP_FC_SET_MASK_CHAN :: u32 where "BP_FC_SET_MASK_CHAN = 67"

definition BP_FC_SET_DACPOT_UP :: u32 where "BP_FC_SET_DACPOT_UP = BP_SET_A2 117"
definition BP_FC_SET_DACPOT_DN :: u32 where "BP_FC_SET_DACPOT_DN = BP_SET_A2 100"

definition BP_FC_SM_FLAGS_DEB :: u32 where "BP_FC_SM_FLAGS_DEB = 0x80"
definition BP_FC_SM_FLAGS_NEM :: u32 where "BP_FC_SM_FLAGS_NEM = 0x40"

definition BP_FC_SET_XO_CLEAR :: u32 where "BP_FC_SET_XO_CLEAR = 0x80"
definition BP_FC_SET_XO_END :: u32 where "BP_FC_SET_XO_END = 0x40"
definition BP_FC_SET_XO_DATA :: u32 where "BP_FC_SET_XO_DATA = 0x02"
definition BP_FC_SET_XO_CYCLE :: u32 where "BP_FC_SET_XO_CYCLE = 0x01"

definition BP_FC_SC_POT_BOARD0 :: u32 where "BP_FC_SC_POT_BOARD0 = 0x00"
definition BP_FC_SC_POT_BOARD1 :: u32 where "BP_FC_SC_POT_BOARD1 = 0x80"
definition BP_FC_SC_POT_1V :: u32 where "BP_FC_SC_POT_1V = 0x00"
definition BP_FC_SC_POT_2V :: u32 where "BP_FC_SC_POT_2V = 0x04"
definition BP_FC_SC_POT_5V :: u32 where "BP_FC_SC_POT_5V = 0x08"
definition BP_FC_SC_POT_10V :: u32 where "BP_FC_SC_POT_10V = 0x0c"

definition BP_FC_SET_DIST_NORMAL :: u32 where "BP_FC_SET_DIST_NORMAL = 0"
definition BP_FC_SET_DIST_ID :: u32 where "BP_FC_SET_DIST_ID = 1"
definition BP_FC_SET_DIST_ID_ALL :: u32 where "BP_FC_SET_DIST_ID_ALL = 2"
definition BP_FC_SET_DATA_TRIGGER :: u32 where "BP_FC_SET_DATA_TRIGGER = 0x0d"
definition BP_FC_SET_DATA_TRIGGER_MULTI :: u32 where "BP_FC_SET_DATA_TRIGGER_MULTI = 0x0e"
definition BP_FC_SET_DATA_EDGE_TRIGGER :: u32 where "BP_FC_SET_DATA_EDGE_TRIGGER = 0x1d"
definition BP_FC_SET_DATA_EDGE_TRIGGER_MULTI :: u32 where "BP_FC_SET_DATA_EDGE_TRIGGER_MULTI = 0x1e"
definition BP_FC_SET_DATA_FAST_TRIGGER_MULTI :: u32 where "BP_FC_SET_DATA_FAST_TRIGGER_MULTI = 0x1f"

definition BP_GUT_FC_FX_AI :: u32 where "BP_GUT_FC_FX_AI = 0x80"
definition BP_GUT_FC_FX_AO :: u32 where "BP_GUT_FC_FX_AO = 0x40"
definition BP_GUT_FC_FX_DO :: u32 where "BP_GUT_FC_FX_DO = 0x20"
definition BP_GUT_FC_EV :: u32 where "BP_GUT_FC_EV = 0x10"
definition BP_GUT_FC_EPMASK :: u32 where "BP_GUT_FC_EPMASK = 0x0f"

definition BP_FC_USER_LED3_ON :: u32 where "BP_FC_USER_LED3_ON = 0x1"
definition BP_FC_USER_LED3_OFF :: u32 where "BP_FC_USER_LED3_OFF = 0x2"
definition BP_FC_USER_LED3_FLIP :: u32 where "BP_FC_USER_LED3_FLIP = 0x3"
definition BP_FC_USER_LED4_ON :: u32 where "BP_FC_USER_LED4_ON = 0x4"
definition BP_FC_USER_LED4_OFF :: u32 where "BP_FC_USER_LED4_OFF = 0x8"
definition BP_FC_USER_LED4_FLIP :: u32 where "BP_FC_USER_LED4_FLIP = 0xc"

definition BP_FC_STREAM_MEAN :: u32 where "BP_FC_STREAM_MEAN = 0x01"
definition BP_FC_STREAM_BURST :: u32 where "BP_FC_STREAM_BURST = 0x02"
definition BP_FC_STREAM_NPAIRS :: u32 where "BP_FC_STREAM_NPAIRS = 0xf0"

definition BP_INT_COMMAND_ACK :: u32 where "BP_INT_COMMAND_ACK = 0x0001"
definition BP_INT_STATUS_CHANGE :: u32 where "BP_INT_STATUS_CHANGE = 0x0002"
definition BP_INT_LLC_DMA_DONE :: u32 where "BP_INT_LLC_DMA_DONE = 0x0004"
definition BP_INT_LLC_ERROR :: u32 where "BP_INT_LLC_ERROR = 0x0008"

definition BP_A1_START_BS_16K :: u32 where "BP_A1_START_BS_16K = 0x01"
definition BP_A1_LENGTH_BS_16K :: u32 where "BP_A1_LENGTH_BS_16K = 0x02"
definition BP_A1_START_BS_1K :: u32 where "BP_A1_START_BS_1K = 0x04"
definition BP_A1_LENGTH_BS_1K :: u32 where "BP_A1_LENGTH_BS_1K = 0x08"
definition BP_A1_FETCH_PRETRIGGER :: u32 where "BP_A1_FETCH_PRETRIGGER = 0x10"

definition BP_FC_SET_XO_FUNCTION :: u32 where "BP_FC_SET_XO_FUNCTION = 70"

definition BP_FC_SC_SET_CHANNEL_CH_LSB :: nat where "BP_FC_SC_SET_CHANNEL_CH_LSB = 24"
definition BP_FC_SC_SET_CHANNEL_G1_LSB :: nat where "BP_FC_SC_SET_CHANNEL_G1_LSB = 16"
definition BP_FC_SC_SET_CHANNEL_G2_LSB :: nat where "BP_FC_SC_SET_CHANNEL_G2_LSB = 8"
definition BP_FC_SC_SET_CHANNEL_V_EX_LSB :: nat where "BP_FC_SC_SET_CHANNEL_V_EX_LSB = 0"

lemmas option_defs =
  BP_FC_SET_MASK_RAW_def BP_FC_SET_MASK_ROW_def BP_FC_SET_MASK_CHAN_def BP_FC_SET_DACPOT_UP_def BP_FC_SET_DACPOT_DN_def
  BP_FC_SM_FLAGS_DEB_def BP_FC_SM_FLAGS_NEM_def BP_FC_SET_XO_CLEAR_def BP_FC_SET_XO_END_def BP_FC_SET_XO_DATA_def
  BP_FC_SET_XO_CYCLE_def BP_FC_SC_POT_BOARD0_def BP_FC_SC_POT_BOARD1_def BP_FC_SC_POT_1V_def BP_FC_SC_POT_2V_def
  BP_FC_SC_POT_5V_def BP_FC_SC_POT_10V_def BP_FC_SET_DIST_NORMAL_def BP_FC_SET_DIST_ID_def BP_FC_SET_DIST_ID_ALL_def
  BP_FC_SET_DATA_TRIGGER_def BP_FC_SET_DATA_TRIGGER_MULTI_def BP_FC_SET_DATA_EDGE_TRIGGER_def
  BP_FC_SET_DATA_EDGE_TRIGGER_MULTI_def BP_FC_SET_DATA_FAST_TRIGGER_MULTI_def BP_GUT_FC_FX_AI_def BP_GUT_FC_FX_AO_def
  BP_GUT_FC_FX_DO_def BP_GUT_FC_EV_def BP_GUT_FC_EPMASK_def BP_FC_USER_LED3_ON_def BP_FC_USER_LED3_OFF_def
  BP_FC_USER_LED3_FLIP_def BP_FC_USER_LED4_ON_def BP_FC_USER_LED4_OFF_def BP_FC_USER_LED4_FLIP_def
  BP_FC_STREAM_MEAN_def BP_FC_STREAM_BURST_def BP_FC_STREAM_NPAIRS_def BP_INT_COMMAND_ACK_def BP_INT_STATUS_CHANGE_def
  BP_INT_LLC_DMA_DONE_def BP_INT_LLC_ERROR_def BP_A1_START_BS_16K_def BP_A1_LENGTH_BS_16K_def BP_A1_START_BS_1K_def
  BP_A1_LENGTH_BS_1K_def BP_A1_FETCH_PRETRIGGER_def

lemmas channel_lsb_defs =
  BP_FC_SC_SET_CHANNEL_CH_LSB_def BP_FC_SC_SET_CHANNEL_G1_LSB_def BP_FC_SC_SET_CHANNEL_G2_LSB_def
  BP_FC_SC_SET_CHANNEL_V_EX_LSB_def

section \<open>Message types\<close>

definition MTP_STREAM_IS_TAGGED :: u32 where "MTP_STREAM_IS_TAGGED = 0x800000"
definition MTP_STREAM_END_PACKET :: u32 where "MTP_STREAM_END_PACKET = 0x400000"
definition MTP_STREAM_NCHAN_MASK :: u32 where "MTP_STREAM_NCHAN_MASK = 0x0000ff"
definition MTP_STREAM_NSAM_MASK :: u32 where "MTP_STREAM_NSAM_MASK = 0x00ff00"

definition MT_FWREV :: u32 where "MT_FWREV = push_bit MT_TYPE_SHIFT BP_FC_GET_FWREV"

definition MT_BIGDUMP_COMPLETE :: u32 where "MT_BIGDUMP_COMPLETE = push_bit MT_TYPE_SHIFT BP_FC_BIG_DUMP"

definition MT_GETCALINFO :: u32 where "MT_GETCALINFO = push_bit MT_TYPE_SHIFT BP_FC_GET_CALINFO"

definition MT_GETCAPTURESTATS :: u32 where "MT_GETCAPTURESTATS = push_bit MT_TYPE_SHIFT BP_FC_GET_CAPTURESTATS"

definition MT_GETCONFIG :: u32 where "MT_GETCONFIG = BP_FC_GET_CONFIG"

section \<open>Fields and layouts\<close>

interpretation funcode: bit_field BP_GET_FUNCODE BP_SET_FUNCODE 16 8 by unfold_locales (simp_all add: bp_field_defs)
interpretation a1: bit_field BP_GET_A1 BP_SET_A1 8 8 by unfold_locales (simp_all add: bp_field_defs)
interpretation a2: bit_field BP_GET_A2 BP_SET_A2 0 8 by unfold_locales (simp_all add: bp_field_defs)
interpretation mode: bit_field BP_GET_MODE BP_SET_MODE 24 7 by unfold_locales (simp_all add: bp_field_defs)
interpretation state: bit_field BP_GET_STATE BP_SET_STATE 16 8 by unfold_locales (simp_all add: bp_field_defs)
interpretation cycle: bit_field BP_GET_CYCLE BP_SET_CYCLE 12 4 by unfold_locales (simp_all add: bp_field_defs)

lemma take_bit_small: "(x :: u32) < 2 ^ k \<Longrightarrow> k < 32 \<Longrightarrow> take_bit k x = x"
  by (intro bit_word_eqI) (auto simp: bit_simps dest: small_word_bits [THEN iffD1])

interpretation heartbeat: bit_field BP_GET_HEARTBEAT BP_SET_HEARTBEAT 0 12
  by unfold_locales (simp_all add: bp_field_defs take_bit_small)

text \<open>Masks in the middle of a word as shifted masks.\<close>

lemma and_shifted_mask: "drop_bit j (w AND push_bit j (mask k)) = take_bit k (drop_bit j (w :: u32))"
  by (intro bit_word_eqI) (auto simp: bit_simps dest: bit_imp_le_length)

interpretation npairs: bit_field BP_FC_GET_NPAIRS BP_FC_SET_NPAIRS 4 4
proof unfold_locales
  have m: "(0xf0 :: u32) = push_bit 4 (mask 4)" by (simp add: mask_eq_exp_minus_1)
  show "BP_FC_GET_NPAIRS w = take_bit 4 (drop_bit 4 w)" for w
    unfolding BP_FC_GET_NPAIRS_def m by (rule and_shifted_mask)
  show "BP_FC_SET_NPAIRS x = push_bit 4 x" if "x < 2 ^ 4" for x
  proof -
    have "bit x n \<Longrightarrow> n < 4" for n using small_word_bits [of x 4 n] that by simp
    then show ?thesis unfolding BP_FC_SET_NPAIRS_def m by (intro bit_word_eqI) (force simp: bit_simps)
  qed
qed simp_all

text \<open>The bytes of the conditioning command.\<close>

lemma byte_field: "lsb + 8 \<le> 32 \<Longrightarrow> bit_field (BYTE_DECODE_BIT lsb) (BYTE_ENCODE_BIT lsb) lsb 8"
  by unfold_locales (simp_all add: BYTE_DECODE_BIT_def BYTE_ENCODE_BIT_def)

interpretation sc_ch: bit_field "BYTE_DECODE_BIT BP_FC_SC_SET_CHANNEL_CH_LSB" "BYTE_ENCODE_BIT BP_FC_SC_SET_CHANNEL_CH_LSB" 24 8
  using byte_field [of 24] by (simp add: channel_lsb_defs)
interpretation sc_g1: bit_field "BYTE_DECODE_BIT BP_FC_SC_SET_CHANNEL_G1_LSB" "BYTE_ENCODE_BIT BP_FC_SC_SET_CHANNEL_G1_LSB" 16 8
  using byte_field [of 16] by (simp add: channel_lsb_defs)
interpretation sc_g2: bit_field "BYTE_DECODE_BIT BP_FC_SC_SET_CHANNEL_G2_LSB" "BYTE_ENCODE_BIT BP_FC_SC_SET_CHANNEL_G2_LSB" 8 8
  using byte_field [of 8] by (simp add: channel_lsb_defs)
interpretation sc_vex: bit_field "BYTE_DECODE_BIT BP_FC_SC_SET_CHANNEL_V_EX_LSB" "BYTE_ENCODE_BIT BP_FC_SC_SET_CHANNEL_V_EX_LSB" 0 8
  using byte_field [of 0] by (simp add: channel_lsb_defs)

text \<open>The argument bytes that are made of options.\<close>

definition gut_options :: "u32 list" where
  "gut_options = [BP_GUT_FC_FX_AI, BP_GUT_FC_FX_AO, BP_GUT_FC_FX_DO, BP_GUT_FC_EV, BP_GUT_FC_EPMASK]"
definition xo_options :: "u32 list" where
  "xo_options = [BP_FC_SET_XO_CLEAR, BP_FC_SET_XO_END, BP_FC_SET_XO_DATA, BP_FC_SET_XO_CYCLE]"
definition stream_options :: "u32 list" where
  "stream_options = [BP_FC_STREAM_NPAIRS, BP_FC_STREAM_BURST, BP_FC_STREAM_MEAN]"
definition fetch_options :: "u32 list" where
  "fetch_options = [BP_A1_FETCH_PRETRIGGER, BP_A1_LENGTH_BS_1K, BP_A1_START_BS_1K, BP_A1_LENGTH_BS_16K, BP_A1_START_BS_16K]"
definition pot_options :: "u32 list" where
  "pot_options = [BP_FC_SC_POT_BOARD1, BP_FC_SC_POT_10V]"
definition interrupt_options :: "u32 list" where
  "interrupt_options = [BP_INT_COMMAND_ACK, BP_INT_STATUS_CHANGE, BP_INT_LLC_DMA_DONE, BP_INT_LLC_ERROR]"

lemmas options_defs = gut_options_def xo_options_def stream_options_def fetch_options_def pot_options_def interrupt_options_def
  option_defs disjoint_masks_def

interpretation gut: word_layout gut_options by unfold_locales (simp add: options_defs)
interpretation xo: word_layout xo_options by unfold_locales (simp add: options_defs)
interpretation stream: word_layout stream_options by unfold_locales (simp add: options_defs)
interpretation fetch: word_layout fetch_options by unfold_locales (simp add: options_defs)
interpretation pot: word_layout pot_options by unfold_locales (simp add: options_defs)
interpretation interrupts: word_layout interrupt_options by unfold_locales (simp add: options_defs)

section \<open>Lemmas\<close>

lemmas code_defs = command_defs query_defs funcode_word_def

lemma command_codes: "distinct commands"
  by (simp add: commands_def code_defs)

lemma query_codes: "distinct queries"
  by (simp add: queries_def code_defs)

text \<open>The codes both kinds share are the set and get of the same thing.\<close>

definition shared_codes :: "u32 list" where
  "shared_codes = [BP_FC_SET_INTCLOCK, BP_FC_SET_EXTCLOCK, BP_FC_SET_MASK, BP_FC_RESERVE_AO, BP_FC_SC_SET_DIO, BP_FC_ADJUST_TRIGGER,
     BP_GUT_SETPHASE, BP_GUT_SETEVENT, BP_FC_CPCI_SET_ROUTE]"

lemma shared_filter: "filter (\<lambda>c. c \<in> set queries) commands = shared_codes"
  by (simp add: commands_def queries_def shared_codes_def code_defs)

lemma all_codes_used: "f \<noteq> fcz \<Longrightarrow> f \<noteq> keep_arm_sdt_happy \<Longrightarrow> funcode_word f \<in> set commands \<union> set queries"
  by (cases f) (simp_all add: commands_def queries_def command_defs query_defs BP_FC_SET_INTERRUPTS_def BP_FC_SET_HOST_DMABUF_def
      BPFC_GET_NCHANNELS_def BP_FC_STREAM_def)

lemma error_bit: "BP_GET_ERROR w \<longleftrightarrow> bit w 31"
  using and_exp_eq_0_iff_not_bit [of w 31] by (simp add: BP_GET_ERROR_def)

text \<open>Which bits the four fields of a status word occupy.\<close>

lemma status_bits:
  assumes "mode < 0x80" "state < 0x100" "cycle < 0x10"
  shows "bit (BP_SET_MODE mode) n \<Longrightarrow> 24 \<le> n \<and> n < 31" "bit (BP_SET_STATE state) n \<Longrightarrow> 16 \<le> n \<and> n < 24"
    "bit (BP_SET_CYCLE cycle) n \<Longrightarrow> 12 \<le> n \<and> n < 16" "bit (BP_SET_HEARTBEAT beat) n \<Longrightarrow> n < 12" "bit (BP_SET_ERROR e) n \<Longrightarrow> n = 31"
  using mode.put_bits [of mode n] state.put_bits [of state n] cycle.put_bits [of cycle n] assms
  by (auto simp: BP_SET_HEARTBEAT_def BP_SET_ERROR_def bit_simps)

lemma status_parts:
  assumes "mode < 0x80" "state < 0x100" "cycle < 0x10"
  shows "let s = BP_SET_ERROR (of_bool e) OR BP_SET_MODE mode OR BP_SET_STATE state OR BP_SET_CYCLE cycle OR BP_SET_HEARTBEAT beat in
    BP_GET_ERROR s = e \<and> BP_GET_MODE s = mode \<and> BP_GET_STATE s = state \<and> BP_GET_CYCLE s = cycle \<and> BP_GET_HEARTBEAT s = take_bit 12 beat"
proof -
  note b = status_bits [OF assms]
  have e: "bit (BP_SET_ERROR (of_bool e) OR BP_SET_MODE mode OR BP_SET_STATE state OR BP_SET_CYCLE cycle OR BP_SET_HEARTBEAT beat) 31 = e"
    using b [where n = 31] by (auto simp: bit_or_iff) (auto simp: BP_SET_ERROR_def bit_simps)
  have m: "BP_GET_MODE (BP_SET_ERROR x) = 0" "BP_GET_MODE (BP_SET_STATE state) = 0" "BP_GET_MODE (BP_SET_CYCLE cycle) = 0" "BP_GET_MODE (BP_SET_HEARTBEAT beat) = 0" for x
    by (rule mode.get_outside; use b in force)+
  have s: "BP_GET_STATE (BP_SET_ERROR x) = 0" "BP_GET_STATE (BP_SET_MODE mode) = 0" "BP_GET_STATE (BP_SET_CYCLE cycle) = 0" "BP_GET_STATE (BP_SET_HEARTBEAT beat) = 0" for x
    by (rule state.get_outside; use b in force)+
  have c: "BP_GET_CYCLE (BP_SET_ERROR x) = 0" "BP_GET_CYCLE (BP_SET_MODE mode) = 0" "BP_GET_CYCLE (BP_SET_STATE state) = 0" "BP_GET_CYCLE (BP_SET_HEARTBEAT beat) = 0" for x
    by (rule cycle.get_outside; use b in force)+
  have h: "BP_GET_HEARTBEAT (BP_SET_ERROR x) = 0" "BP_GET_HEARTBEAT (BP_SET_MODE mode) = 0" "BP_GET_HEARTBEAT (BP_SET_STATE state) = 0" "BP_GET_HEARTBEAT (BP_SET_CYCLE cycle) = 0" for x
    by (rule heartbeat.get_outside; use b in force)+
  have "BP_GET_HEARTBEAT (BP_SET_HEARTBEAT beat) = take_bit 12 beat" by (simp add: bp_field_defs)
  then show ?thesis
    using e assms by (simp add: Let_def error_bit mode.get_or state.get_or cycle.get_or heartbeat.get_or m s c h mode.get_put state.get_put cycle.get_put)
qed

text \<open>The argument word of the conditioning command.\<close>

lemma sc_channel_parts:
  assumes "ch < 0x100" "g1 < 0x100" "g2 < 0x100" "vex < 0x100"
  shows "let w = BYTE_ENCODE_BIT BP_FC_SC_SET_CHANNEL_CH_LSB ch OR BYTE_ENCODE_BIT BP_FC_SC_SET_CHANNEL_G1_LSB g1 OR
      BYTE_ENCODE_BIT BP_FC_SC_SET_CHANNEL_G2_LSB g2 OR BYTE_ENCODE_BIT BP_FC_SC_SET_CHANNEL_V_EX_LSB vex in
    BYTE_DECODE_BIT BP_FC_SC_SET_CHANNEL_CH_LSB w = ch \<and> BYTE_DECODE_BIT BP_FC_SC_SET_CHANNEL_G1_LSB w = g1 \<and>
    BYTE_DECODE_BIT BP_FC_SC_SET_CHANNEL_G2_LSB w = g2 \<and> BYTE_DECODE_BIT BP_FC_SC_SET_CHANNEL_V_EX_LSB w = vex"
proof -
  let ?ch = "BYTE_ENCODE_BIT BP_FC_SC_SET_CHANNEL_CH_LSB ch" and ?g1 = "BYTE_ENCODE_BIT BP_FC_SC_SET_CHANNEL_G1_LSB g1"
    and ?g2 = "BYTE_ENCODE_BIT BP_FC_SC_SET_CHANNEL_G2_LSB g2" and ?vex = "BYTE_ENCODE_BIT BP_FC_SC_SET_CHANNEL_V_EX_LSB vex"
  have b: "bit ?ch n \<Longrightarrow> 24 \<le> n \<and> n < 32" "bit ?g1 n \<Longrightarrow> 16 \<le> n \<and> n < 24" "bit ?g2 n \<Longrightarrow> 8 \<le> n \<and> n < 16" "bit ?vex n \<Longrightarrow> n < 8" for n
    using sc_ch.put_bits [of ch n] sc_g1.put_bits [of g1 n] sc_g2.put_bits [of g2 n] sc_vex.put_bits [of vex n] assms by auto
  have c: "BYTE_DECODE_BIT BP_FC_SC_SET_CHANNEL_CH_LSB w = 0" if "w \<in> {?g1, ?g2, ?vex}" for w
    by (rule sc_ch.get_outside) (use that b in force)
  have d: "BYTE_DECODE_BIT BP_FC_SC_SET_CHANNEL_G1_LSB w = 0" if "w \<in> {?ch, ?g2, ?vex}" for w
    by (rule sc_g1.get_outside) (use that b in force)
  have e: "BYTE_DECODE_BIT BP_FC_SC_SET_CHANNEL_G2_LSB w = 0" if "w \<in> {?ch, ?g1, ?vex}" for w
    by (rule sc_g2.get_outside) (use that b in force)
  have f: "BYTE_DECODE_BIT BP_FC_SC_SET_CHANNEL_V_EX_LSB w = 0" if "w \<in> {?ch, ?g1, ?g2}" for w
    by (rule sc_vex.get_outside) (use that b in force)
  show ?thesis
    using assms by (simp add: Let_def sc_ch.get_or sc_g1.get_or sc_g2.get_or sc_vex.get_or c d e f
        sc_ch.get_put sc_g1.get_put sc_g2.get_put sc_vex.get_put)
qed

section \<open>Properties\<close>

text \<open>The function codes.  No two commands have the same code and no two queries have; a command and a query share a code only as the
set and the get of the same thing, nine pairs in all; and apart from the code of the message packets and the padding constant every
code of the enumeration is in use.\<close>

theorem function_codes_unshared:
  "distinct commands \<and> distinct queries \<and> set commands \<inter> set queries = set shared_codes \<and>
   (\<forall>f. f = fcz \<or> f = keep_arm_sdt_happy \<or> funcode_word f \<in> set commands \<union> set queries)"
proof (intro conjI allI command_codes query_codes)
  show "set commands \<inter> set queries = set shared_codes"
    unfolding shared_filter [symmetric] by auto
  show "f = fcz \<or> f = keep_arm_sdt_happy \<or> funcode_word f \<in> set commands \<union> set queries" for f
    using all_codes_used [of f] by blast
qed

text \<open>Placing a code in a command word: it is read back for every command and query but the two of the trigger compensation, whose code
is the character constant of value 0x80, negative where plain characters are signed: there the word has all control flags set.\<close>

theorem function_code_in_command:
  assumes "c \<in> set (commands @ queries)"
  shows "(if c = funcode_word fc80 then BP_SET_FUNCODE c AND (BP_CI_ACK OR BP_CI_DONE OR BP_CI_COMMAND OR BP_CI_QUERY OR BP_CI_A3 OR BP_CI_A4) =
            BP_CI_ACK OR BP_CI_DONE OR BP_CI_COMMAND OR BP_CI_QUERY OR BP_CI_A3 OR BP_CI_A4
          else BP_GET_FUNCODE (BP_SET_FUNCODE c) = c \<and> drop_bit 24 (BP_SET_FUNCODE c) = 0)"
proof -
  have "list_all (\<lambda>c. c = funcode_word fc80 \<or> BP_GET_FUNCODE (BP_SET_FUNCODE c) = c \<and> drop_bit 24 (BP_SET_FUNCODE c) = 0) (commands @ queries)"
    by (simp add: commands_def queries_def code_defs BP_GET_FUNCODE_def BP_SET_FUNCODE_def)
  then show ?thesis
    using assms by (auto simp: list_all_iff) (simp_all add: funcode_word_def BP_SET_FUNCODE_def bp_ci_defs)
qed

theorem function_code_in_command_witness:
  "BP_GET_FUNCODE (BP_SET_FUNCODE BPFC_GET_NCHANNELS) = BPFC_GET_NCHANNELS \<and>
   BP_SET_FUNCODE BP_FC_GET_ATRIGGER AND (BP_CI_ACK OR BP_CI_DONE OR BP_CI_COMMAND OR BP_CI_QUERY OR BP_CI_A3 OR BP_CI_A4) =
     BP_CI_ACK OR BP_CI_DONE OR BP_CI_COMMAND OR BP_CI_QUERY OR BP_CI_A3 OR BP_CI_A4"
proof -
  have "BPFC_GET_NCHANNELS \<noteq> funcode_word fc80" "BP_FC_GET_ATRIGGER = funcode_word fc80"
    by (simp_all add: BPFC_GET_NCHANNELS_def BP_FC_GET_ATRIGGER_def funcode_word_def)
  moreover have "BPFC_GET_NCHANNELS \<in> set (commands @ queries)" "BP_FC_GET_ATRIGGER \<in> set (commands @ queries)"
    by (simp_all add: queries_def)
  ultimately show ?thesis
    using function_code_in_command [of BPFC_GET_NCHANNELS] function_code_in_command [of BP_FC_GET_ATRIGGER] by (simp only: if_True if_False)
qed

text \<open>Packed words give back what was packed: the status word its error flag, mode, state, cycle and heartbeat, the conditioning command
its channel, gains and excitation, the stream command its number of pairs.\<close>

theorem packed_words_roundtrip:
  assumes "mode < 0x80" "state < 0x100" "cycle < 0x10" and "ch < 0x100" "g1 < 0x100" "g2 < 0x100" "vex < 0x100" and "np < 0x10"
  shows "(let s = BP_SET_ERROR (of_bool e) OR BP_SET_MODE mode OR BP_SET_STATE state OR BP_SET_CYCLE cycle OR BP_SET_HEARTBEAT beat in
      BP_GET_ERROR s = e \<and> BP_GET_MODE s = mode \<and> BP_GET_STATE s = state \<and> BP_GET_CYCLE s = cycle \<and> BP_GET_HEARTBEAT s = take_bit 12 beat) \<and>
    (let w = BYTE_ENCODE_BIT BP_FC_SC_SET_CHANNEL_CH_LSB ch OR BYTE_ENCODE_BIT BP_FC_SC_SET_CHANNEL_G1_LSB g1 OR
        BYTE_ENCODE_BIT BP_FC_SC_SET_CHANNEL_G2_LSB g2 OR BYTE_ENCODE_BIT BP_FC_SC_SET_CHANNEL_V_EX_LSB vex in
      BYTE_DECODE_BIT BP_FC_SC_SET_CHANNEL_CH_LSB w = ch \<and> BYTE_DECODE_BIT BP_FC_SC_SET_CHANNEL_G1_LSB w = g1 \<and>
      BYTE_DECODE_BIT BP_FC_SC_SET_CHANNEL_G2_LSB w = g2 \<and> BYTE_DECODE_BIT BP_FC_SC_SET_CHANNEL_V_EX_LSB w = vex) \<and>
    BP_FC_GET_NPAIRS (BP_FC_SET_NPAIRS np) = np"
  using status_parts [OF assms(1-3)] sc_channel_parts [OF assms(4-7)] npairs.get_put [of np] assms(8) by simp

theorem packed_words_roundtrip_witness:
  "BP_GET_MODE (BP_SET_ERROR (of_bool True) OR BP_SET_MODE 0x7f OR BP_SET_STATE 3 OR BP_SET_CYCLE 15 OR BP_SET_HEARTBEAT 0xabc) = 0x7f \<and>
   BP_FC_GET_NPAIRS (BP_FC_SET_NPAIRS 15) = 15"
  using packed_words_roundtrip [of 127 3 15 1 2 3 4 15 True 2748] by (simp add: Let_def)

text \<open>The types of the messages that the card sends: each is its own type field, except that of the configuration reply, which is the
bare function code and has a type field of zero.\<close>

theorem message_types_identified:
  "map MT_ID [MT_STREAM, MT_FWREV, MT_BIGDUMP_COMPLETE, MT_GETCALINFO, MT_GETCAPTURESTATS, MT_COMMAND_PACKET] =
     [MT_STREAM, MT_FWREV, MT_BIGDUMP_COMPLETE, MT_GETCALINFO, MT_GETCAPTURESTATS, MT_COMMAND_PACKET] \<and>
   distinct [MT_STREAM, MT_FWREV, MT_BIGDUMP_COMPLETE, MT_GETCALINFO, MT_GETCAPTURESTATS, MT_COMMAND_PACKET] \<and>
   MT_ID MT_GETCONFIG = 0 \<and> MT_GETCONFIG \<noteq> 0"
  by (simp add: mt_defs MT_FWREV_def MT_BIGDUMP_COMPLETE_def MT_GETCALINFO_def MT_GETCAPTURESTATS_def MT_GETCONFIG_def code_defs)

end
