(* ===== verification/Bus_Modes.thy ===== *)
theory Bus_Modes
  imports Bus_Codes
begin

text \<open>
  The low latency and high throughput modes of the card and the formats of its data (\<^verbatim>\<open>src/acq32busprot.h\<close>): the control and status
  registers that master and slave share, the areas in host memory, the sample tags, the multi-frame marker and the flags of a host
  request.  The header defines constants and macros; the lemmas are about how they fit together.
\<close>

section \<open>Low latency control\<close>

definition BP_FC_SET_MODE_LLC_SOFTCLOCK :: u32 where "BP_FC_SET_MODE_LLC_SOFTCLOCK = 0x80"
definition BP_FC_SET_MODE_LLC_EXTCLOCK :: u32 where "BP_FC_SET_MODE_LLC_EXTCLOCK = 0x40"
definition BP_FC_SET_MODE_LLC_CLKPOL_POS :: u32 where "BP_FC_SET_MODE_LLC_CLKPOL_POS = 0x20"
definition BP_FC_SET_MODE_LLC_TRPOL_POS :: u32 where "BP_FC_SET_MODE_LLC_TRPOL_POS = 0x10"
definition BP_FC_SET_LLCV2_INIT :: u32 where "BP_FC_SET_LLCV2_INIT = 0x08"
definition BP_FC_SET_RTCLOCK_TIMING :: u32 where "BP_FC_SET_RTCLOCK_TIMING = 0x04"
definition BP_FC_SET_MODE_LLC_INTSOFT_CLK :: u32 where "BP_FC_SET_MODE_LLC_INTSOFT_CLK = 0x01"
definition BP_FC_SET_MODE_LLC_INTDIV_CLK :: u32 where "BP_FC_SET_MODE_LLC_INTDIV_CLK = 0x02"

definition LLC_CSR_SACK :: u32 where "LLC_CSR_SACK = 0x80000000"
definition LLC_CSR_SNACK :: u32 where "LLC_CSR_SNACK = 0x40000000"
definition LLC_CSR_READY :: u32 where "LLC_CSR_READY = 0x10000000"
definition LLC_CSR_S_IS_ARMED :: u32 where "LLC_CSR_S_IS_ARMED = 0x08000000"
definition LLC_CSR_S_CTR_RUN :: u32 where "LLC_CSR_S_CTR_RUN = 0x04000000"
definition LLC_CSR_S_DMA_DONE :: u32 where "LLC_CSR_S_DMA_DONE = 0x02000000"
definition LLC_CSR_S_ERROR :: u32 where "LLC_CSR_S_ERROR = 0x01000000"
definition LLC_CSR_S_TCYCLE :: u32 where "LLC_CSR_S_TCYCLE = 0x00ff0000"

definition LLC_CSR_M_DECIM :: u32 where "LLC_CSR_M_DECIM = 0x00000f00"
definition LLC_CSR_M_LLC200_INIT :: u32 where "LLC_CSR_M_LLC200_INIT = 0x00000080"
definition LLC_CSR_M_AUTOINCR :: u32 where "LLC_CSR_M_AUTOINCR = 0x00000020"
definition LLC_CSR_M_SETADDR :: u32 where "LLC_CSR_M_SETADDR = 0x00000010"
definition LLC_CSR_M_READCTR :: u32 where "LLC_CSR_M_READCTR = 0x00000008"
definition LLC_CSR_M_ESC :: u32 where "LLC_CSR_M_ESC = 0x00000004"
definition LLC_CSR_M_ARM :: u32 where "LLC_CSR_M_ARM = 0x00000002"
definition LLC_CSR_M_SOFTCLOCK :: u32 where "LLC_CSR_M_SOFTCLOCK = 0x00000001"

definition BP_MB_LLC_CSR :: nat where "BP_MB_LLC_CSR = 0"
definition BP_MB_LLC_DATA_ADDR :: nat where "BP_MB_LLC_DATA_ADDR = 1"
definition BP_MB_LLC_TADC :: nat where "BP_MB_LLC_TADC = 2"
definition BP_MB_LLC_TINST :: nat where "BP_MB_LLC_TINST = 3"

definition llc_slave :: "u32 list" where
  "llc_slave = [LLC_CSR_SACK, LLC_CSR_SNACK, LLC_CSR_READY, LLC_CSR_S_IS_ARMED, LLC_CSR_S_CTR_RUN, LLC_CSR_S_DMA_DONE,
     LLC_CSR_S_ERROR, LLC_CSR_S_TCYCLE]"

definition llc_master :: "u32 list" where
  "llc_master = [LLC_CSR_M_DECIM, LLC_CSR_M_LLC200_INIT, LLC_CSR_M_AUTOINCR, LLC_CSR_M_SETADDR, LLC_CSR_M_READCTR,
     LLC_CSR_M_ESC, LLC_CSR_M_ARM, LLC_CSR_M_SOFTCLOCK]"

section \<open>High throughput streaming\<close>

definition BP_FC_SETMODE_HTM_V2 :: u32 where "BP_FC_SETMODE_HTM_V2 = 0x80"
definition BP_FC_SETMODE_HTM_STATUSBUF :: u32 where "BP_FC_SETMODE_HTM_STATUSBUF = 0x40"
definition BP_FC_SETMODE_HTM_HOFF :: u32 where "BP_FC_SETMODE_HTM_HOFF = 0x1f"

definition HTM_CSR_SACK :: u32 where "HTM_CSR_SACK = 0x80000000"
definition HTM_CSR_SNACK :: u32 where "HTM_CSR_SNACK = 0x40000000"
definition HTM_CSR_READY :: u32 where "HTM_CSR_READY = 0x10000000"
definition HTM_CSR_S_IS_ARMED :: u32 where "HTM_CSR_S_IS_ARMED = 0x08000000"
definition HTM_CSR_S_OVERRUN :: u32 where "HTM_CSR_S_OVERRUN = 0x04000000"
definition HTM_CSR_S_COMPLETE :: u32 where "HTM_CSR_S_COMPLETE = 0x02000000"

definition HTM_HOSTBUF_MB :: u32 where "HTM_HOSTBUF_MB = 0x00fff000"
definition HTM_CSR_M_INTERRUPT :: u32 where "HTM_CSR_M_INTERRUPT = 0x00000100"
definition HTM_CSR_M_RECYCLE :: u32 where "HTM_CSR_M_RECYCLE = 0x00000020"
definition HTM_CSR_M_SETADDR :: u32 where "HTM_CSR_M_SETADDR = 0x00000010"
definition HTM_CSR_M_ESC :: u32 where "HTM_CSR_M_ESC = 0x00000004"
definition HTM_CSR_M_ARM :: u32 where "HTM_CSR_M_ARM = 0x00000002"

definition BP_MB_HTM_CSR :: nat where "BP_MB_HTM_CSR = 0"
definition BP_MB_HTM_DATA_ADDR :: nat where "BP_MB_HTM_DATA_ADDR = 1"
definition BP_MB_HTM_STATUS_ADDR :: nat where "BP_MB_HTM_STATUS_ADDR = 2"
definition BP_MB_HTM_CURRENT_ADDR :: nat where "BP_MB_HTM_CURRENT_ADDR = 3"

definition htm_slave :: "u32 list" where
  "htm_slave = [HTM_CSR_SACK, HTM_CSR_SNACK, HTM_CSR_READY, HTM_CSR_S_IS_ARMED, HTM_CSR_S_OVERRUN, HTM_CSR_S_COMPLETE]"

definition htm_master :: "u32 list" where
  "htm_master = [HTM_HOSTBUF_MB, HTM_CSR_M_INTERRUPT, HTM_CSR_M_RECYCLE, HTM_CSR_M_SETADDR, HTM_CSR_M_ESC, HTM_CSR_M_ARM]"

lemmas csr_defs =
  BP_FC_SET_MODE_LLC_SOFTCLOCK_def BP_FC_SET_MODE_LLC_EXTCLOCK_def BP_FC_SET_MODE_LLC_CLKPOL_POS_def
  BP_FC_SET_MODE_LLC_TRPOL_POS_def BP_FC_SET_LLCV2_INIT_def BP_FC_SET_RTCLOCK_TIMING_def
  BP_FC_SET_MODE_LLC_INTSOFT_CLK_def BP_FC_SET_MODE_LLC_INTDIV_CLK_def LLC_CSR_SACK_def LLC_CSR_SNACK_def
  LLC_CSR_READY_def LLC_CSR_S_IS_ARMED_def LLC_CSR_S_CTR_RUN_def LLC_CSR_S_DMA_DONE_def LLC_CSR_S_ERROR_def
  LLC_CSR_S_TCYCLE_def LLC_CSR_M_DECIM_def LLC_CSR_M_LLC200_INIT_def LLC_CSR_M_AUTOINCR_def LLC_CSR_M_SETADDR_def
  LLC_CSR_M_READCTR_def LLC_CSR_M_ESC_def LLC_CSR_M_ARM_def LLC_CSR_M_SOFTCLOCK_def BP_FC_SETMODE_HTM_V2_def
  BP_FC_SETMODE_HTM_STATUSBUF_def BP_FC_SETMODE_HTM_HOFF_def HTM_CSR_SACK_def HTM_CSR_SNACK_def HTM_CSR_READY_def
  HTM_CSR_S_IS_ARMED_def HTM_CSR_S_OVERRUN_def HTM_CSR_S_COMPLETE_def HTM_HOSTBUF_MB_def HTM_CSR_M_INTERRUPT_def
  HTM_CSR_M_RECYCLE_def HTM_CSR_M_SETADDR_def HTM_CSR_M_ESC_def HTM_CSR_M_ARM_def llc_slave_def llc_master_def
  htm_slave_def htm_master_def

section \<open>Host memory areas\<close>

text \<open>Indices of 32-bit words.\<close>

definition LLCV2_INIT_MARKER :: nat where "LLCV2_INIT_MARKER = 0"
definition LLCV2_INIT_AI_HSBT :: nat where "LLCV2_INIT_AI_HSBT = 1"
definition LLCV2_INIT_AO_HSBS :: nat where "LLCV2_INIT_AO_HSBS = 2"
definition LLCV2_INIT_DO_HSBS :: nat where "LLCV2_INIT_DO_HSBS = 3"
definition LLCV2_INIT_STATUS_HSBT :: nat where "LLCV2_INIT_STATUS_HSBT = 4"
definition LLCV2_INIT_LAST :: nat where "LLCV2_INIT_LAST = 5"

definition LLCV2_STATUS_MBOX0 :: nat where "LLCV2_STATUS_MBOX0 = 0"
definition LLCV2_STATUS_MBOX1 :: nat where "LLCV2_STATUS_MBOX1 = 1"
definition LLCV2_STATUS_MBOX2 :: nat where "LLCV2_STATUS_MBOX2 = 2"
definition LLCV2_STATUS_MBOX3 :: nat where "LLCV2_STATUS_MBOX3 = 3"
definition LLCV2_STATUS_DIO :: nat where "LLCV2_STATUS_DIO = 4"
definition LLCV2_STATUS_TINST :: nat where "LLCV2_STATUS_TINST = 5"
definition LLCV2_STATUS_TLATCH :: nat where "LLCV2_STATUS_TLATCH = 6"
definition LLCV2_STATUS_BDR :: nat where "LLCV2_STATUS_BDR = 7"

definition LLC_SYNC2V_IN_MBOX0 :: nat where "LLC_SYNC2V_IN_MBOX0 = LLCV2_STATUS_MBOX0"
definition LLC_SYNC2V_IN_MBOX1 :: nat where "LLC_SYNC2V_IN_MBOX1 = LLCV2_STATUS_MBOX1"
definition LLC_SYNC2V_IN_MBOX2 :: nat where "LLC_SYNC2V_IN_MBOX2 = LLCV2_STATUS_MBOX2"
definition LLC_SYNC2V_IN_MBOX3 :: nat where "LLC_SYNC2V_IN_MBOX3 = LLCV2_STATUS_MBOX3"
definition LLC_SYNC2V_IN_DIO6 :: nat where "LLC_SYNC2V_IN_DIO6 = LLCV2_STATUS_DIO"
definition LLC_SYNC2V_IN_TINST :: nat where "LLC_SYNC2V_IN_TINST = LLCV2_STATUS_TINST"
definition LLC_SYNC2V_IN_TLATCH :: nat where "LLC_SYNC2V_IN_TLATCH = LLCV2_STATUS_TLATCH"
definition LLC_SYNC2V_IN_BDR :: nat where "LLC_SYNC2V_IN_BDR = LLCV2_STATUS_BDR"
definition LLC_SYNC2V_IN_ITER :: nat where "LLC_SYNC2V_IN_ITER = LLCV2_STATUS_BDR + 1"
definition LLC_SYNC2V_IN_DI32 :: nat where "LLC_SYNC2V_IN_DI32 = LLCV2_STATUS_BDR + 2"
definition LLC_SYNC2V_IN_LASTE :: nat where "LLC_SYNC2V_IN_LASTE = LLCV2_STATUS_BDR + 3"
definition LLC_SYNC2V_IN_TLAT32 :: nat where "LLC_SYNC2V_IN_TLAT32 = LLCV2_STATUS_BDR + 4"
definition LLC_SYNC2V_IN_VERID :: nat where "LLC_SYNC2V_IN_VERID = LLCV2_STATUS_BDR + 5"
definition LLC_SYNC2V_IN_SCOUNT :: nat where "LLC_SYNC2V_IN_SCOUNT = LLCV2_STATUS_BDR + 6"
definition LLC_SYNC2V_IN_FIFSTA :: nat where "LLC_SYNC2V_IN_FIFSTA = LLCV2_STATUS_BDR + 7"
definition LLC_SYNC2V_IN_LAST :: nat where "LLC_SYNC2V_IN_LAST = LLCV2_STATUS_MBOX0 + 15"

lemmas area_defs =
  LLCV2_INIT_MARKER_def LLCV2_INIT_AI_HSBT_def LLCV2_INIT_AO_HSBS_def LLCV2_INIT_DO_HSBS_def LLCV2_INIT_STATUS_HSBT_def
  LLCV2_INIT_LAST_def LLCV2_STATUS_MBOX0_def LLCV2_STATUS_MBOX1_def LLCV2_STATUS_MBOX2_def LLCV2_STATUS_MBOX3_def
  LLCV2_STATUS_DIO_def LLCV2_STATUS_TINST_def LLCV2_STATUS_TLATCH_def LLCV2_STATUS_BDR_def LLC_SYNC2V_IN_MBOX0_def
  LLC_SYNC2V_IN_MBOX1_def LLC_SYNC2V_IN_MBOX2_def LLC_SYNC2V_IN_MBOX3_def LLC_SYNC2V_IN_DIO6_def
  LLC_SYNC2V_IN_TINST_def LLC_SYNC2V_IN_TLATCH_def LLC_SYNC2V_IN_BDR_def LLC_SYNC2V_IN_ITER_def LLC_SYNC2V_IN_DI32_def
  LLC_SYNC2V_IN_LASTE_def LLC_SYNC2V_IN_TLAT32_def LLC_SYNC2V_IN_VERID_def LLC_SYNC2V_IN_SCOUNT_def
  LLC_SYNC2V_IN_FIFSTA_def LLC_SYNC2V_IN_LAST_def BP_MB_LLC_CSR_def BP_MB_LLC_DATA_ADDR_def BP_MB_LLC_TADC_def
  BP_MB_LLC_TINST_def BP_MB_HTM_CSR_def BP_MB_HTM_DATA_ADDR_def BP_MB_HTM_STATUS_ADDR_def BP_MB_HTM_CURRENT_ADDR_def

definition LLC200_INIT_MASK_DDS_FTW :: u32 where "LLC200_INIT_MASK_DDS_FTW = 0x0001"
definition LLC200_INIT_MASK_RANGE :: u32 where "LLC200_INIT_MASK_RANGE = 0x0002"
definition LLC200_INIT_MASK_OFFSETS :: u32 where "LLC200_INIT_MASK_OFFSETS = 0x0004"
definition LLC200_INIT_MASK_TRIG :: u32 where "LLC200_INIT_MASK_TRIG = 0x0008"
definition LLC200_INIT_MASK_CHANNEL :: u32 where "LLC200_INIT_MASK_CHANNEL = 0x0010"
definition LLC200_INIT_MASK_INTCLK :: u32 where "LLC200_INIT_MASK_INTCLK = 0x0020"
definition LLC200_INIT_MASK_DDS_QDAC :: u32 where "LLC200_INIT_MASK_DDS_QDAC = 0x0040"

definition LLC200_INIT_TRIG_EXTRIG :: u32 where "LLC200_INIT_TRIG_EXTRIG = 0x0010"
definition LLC200_INIT_TRIG_EXTLINE :: u32 where "LLC200_INIT_TRIG_EXTLINE = 0x000f"
definition LLC200_INIT_TRIG_RISING :: u32 where "LLC200_INIT_TRIG_RISING = 0x0020"

definition LLC200_INIT_CHANNEL_MASK_ANTIPHASE :: u32 where "LLC200_INIT_CHANNEL_MASK_ANTIPHASE = 0x80000000"
definition LLC200_INIT_CHANNEL_MASK_BLOCKLEN_MASK :: u32 where "LLC200_INIT_CHANNEL_MASK_BLOCKLEN_MASK = 0x0fff0000"

lemmas llc200_defs =
  LLC200_INIT_MASK_DDS_FTW_def LLC200_INIT_MASK_RANGE_def LLC200_INIT_MASK_OFFSETS_def LLC200_INIT_MASK_TRIG_def
  LLC200_INIT_MASK_CHANNEL_def LLC200_INIT_MASK_INTCLK_def LLC200_INIT_MASK_DDS_QDAC_def LLC200_INIT_TRIG_EXTRIG_def
  LLC200_INIT_TRIG_EXTLINE_def LLC200_INIT_TRIG_RISING_def LLC200_INIT_CHANNEL_MASK_ANTIPHASE_def
  LLC200_INIT_CHANNEL_MASK_BLOCKLEN_MASK_def

section \<open>Frames\<close>

definition SUBFRAME_MASK :: u32 where "SUBFRAME_MASK = 0x3f"
definition NSUBFRAMES :: u32 where "NSUBFRAMES = 0x40"

definition nX_bit :: nat where "nX_bit = 15"
definition T_bit :: nat where "T_bit = 14"
definition s0_bit :: nat where "s0_bit = 8"

definition MFX_SF0 :: nat where "MFX_SF0 = 0"
definition MFX_SF1 :: nat where "MFX_SF1 = 1"
definition MFX_MF2 :: nat where "MFX_MF2 = 2"
definition MFX_MF3 :: nat where "MFX_MF3 = 3"
definition MFX_FNa :: nat where "MFX_FNa = 4"
definition MFX_FNb :: nat where "MFX_FNb = 5"
definition MFX_Ja :: nat where "MFX_Ja = 6"
definition MFX_Jb :: nat where "MFX_Jb = 7"
definition MFX_Jc :: nat where "MFX_Jc = 8"
definition MFX_Jd :: nat where "MFX_Jd = 9"
definition MFX_ESa :: nat where "MFX_ESa = 10"
definition MFX_ESb :: nat where "MFX_ESb = 11"
definition MFX_ESc :: nat where "MFX_ESc = 12"
definition MFX_ESd :: nat where "MFX_ESd = 13"
definition MFX_ESOFa :: nat where "MFX_ESOFa = 14"
definition MFX_ESOFb :: nat where "MFX_ESOFb = 15"
definition MFX_ESOFc :: nat where "MFX_ESOFc = 16"
definition MFX_DIO :: nat where "MFX_DIO = 17"
definition MFX_EDIOa :: nat where "MFX_EDIOa = 18"
definition MFX_EDIOb :: nat where "MFX_EDIOb = 19"
definition MFX_EDIOc :: nat where "MFX_EDIOc = 20"
definition MFX_EDIOd :: nat where "MFX_EDIOd = 21"
definition MFX_BLENa :: nat where "MFX_BLENa = 22"
definition MFX_BLENb :: nat where "MFX_BLENb = 23"
definition MFX_BDELa :: nat where "MFX_BDELa = 24"
definition MFX_BDELb :: nat where "MFX_BDELb = 25"
definition MFX_OVER :: nat where "MFX_OVER = 26"
definition MFX_MFNa :: nat where "MFX_MFNa = 28"
definition MFX_MFNb :: nat where "MFX_MFNb = 29"
definition MFX_MFNc :: nat where "MFX_MFNc = 30"
definition MFX_MFNd :: nat where "MFX_MFNd = 31"
definition MFX_TVSa :: nat where "MFX_TVSa = 32"
definition MFX_TVSb :: nat where "MFX_TVSb = 33"
definition MFX_TVSc :: nat where "MFX_TVSc = 34"
definition MFX_TVSd :: nat where "MFX_TVSd = 35"
definition MFX_TVUSa :: nat where "MFX_TVUSa = 36"
definition MFX_TVUSb :: nat where "MFX_TVUSb = 37"
definition MFX_TVUSc :: nat where "MFX_TVUSc = 38"
definition MFX_TVUSd :: nat where "MFX_TVUSd = 39"

definition mfx_bytes :: "nat list" where
  "mfx_bytes = [MFX_SF0, MFX_SF1, MFX_MF2, MFX_MF3, MFX_FNa, MFX_FNb, MFX_Ja, MFX_Jb, MFX_Jc, MFX_Jd, MFX_ESa, MFX_ESb,
     MFX_ESc, MFX_ESd, MFX_ESOFa, MFX_ESOFb, MFX_ESOFc, MFX_DIO, MFX_EDIOa, MFX_EDIOb, MFX_EDIOc, MFX_EDIOd,
     MFX_BLENa, MFX_BLENb, MFX_BDELa, MFX_BDELb, MFX_OVER, MFX_MFNa, MFX_MFNb, MFX_MFNc, MFX_MFNd, MFX_TVSa,
     MFX_TVSb, MFX_TVSc, MFX_TVSd, MFX_TVUSa, MFX_TVUSb, MFX_TVUSc, MFX_TVUSd]"

lemmas mfx_defs =
  MFX_SF0_def MFX_SF1_def MFX_MF2_def MFX_MF3_def MFX_FNa_def MFX_FNb_def MFX_Ja_def MFX_Jb_def MFX_Jc_def MFX_Jd_def
  MFX_ESa_def MFX_ESb_def MFX_ESc_def MFX_ESd_def MFX_ESOFa_def MFX_ESOFb_def MFX_ESOFc_def MFX_DIO_def MFX_EDIOa_def
  MFX_EDIOb_def MFX_EDIOc_def MFX_EDIOd_def MFX_BLENa_def MFX_BLENb_def MFX_BDELa_def MFX_BDELb_def MFX_OVER_def
  MFX_MFNa_def MFX_MFNb_def MFX_MFNc_def MFX_MFNd_def MFX_TVSa_def MFX_TVSb_def MFX_TVSc_def MFX_TVSd_def MFX_TVUSa_def
  MFX_TVUSb_def MFX_TVUSc_def MFX_TVUSd_def

definition T_TRIGGER_BIT :: u32 where "T_TRIGGER_BIT = 0x8000"
definition T_RAMP_MASK :: u32 where "T_RAMP_MASK = 0x7000"
definition T_CHANNEL_MASK :: u32 where "T_CHANNEL_MASK = 0x0f80"
definition T_ISAMPLE_BIT :: u32 where "T_ISAMPLE_BIT = 0x0040"
definition T_SUBFRAME_MASK :: u32 where "T_SUBFRAME_MASK = 0x003f"

lemmas frame_defs =
  SUBFRAME_MASK_def NSUBFRAMES_def nX_bit_def T_bit_def s0_bit_def T_TRIGGER_BIT_def T_RAMP_MASK_def T_CHANNEL_MASK_def
  T_ISAMPLE_BIT_def T_SUBFRAME_MASK_def

section \<open>Host requests\<close>

definition HRD_CHECKED :: u16 where "HRD_CHECKED = 0x4000"
definition HRD_WAVETRACK :: u16 where "HRD_WAVETRACK = 0x2000"

definition HRD_SPCLID_BATCHTO :: u16 where "HRD_SPCLID_BATCHTO = 99"
definition HRD_SPCLID_BATCHOUT :: u16 where "HRD_SPCLID_BATCHOUT = 100"
definition HRD_SPCLID_BATCHIO :: u16 where "HRD_SPCLID_BATCHIO = 101"
definition HRD_SPCLID_BATCHRSH :: u16 where "HRD_SPCLID_BATCHRSH = 102"
definition HRD_SPCLID_ACQCMD :: u16 where "HRD_SPCLID_ACQCMD = 109"

lemmas spclid_defs =
  HRD_SPCLID_BATCHTO_def HRD_SPCLID_BATCHOUT_def HRD_SPCLID_BATCHIO_def HRD_SPCLID_BATCHRSH_def HRD_SPCLID_ACQCMD_def

section \<open>Fields and layouts\<close>

interpretation tcycle: bit_field LLC_GET_TCYCLE LLC_MAKE_TCYCLE 16 8
proof unfold_locales
  have m: "(0x00ff0000 :: u32) = push_bit 16 (mask 8)" by (simp add: mask_eq_exp_minus_1)
  show "LLC_GET_TCYCLE w = take_bit 8 (drop_bit 16 w)" for w
    unfolding LLC_GET_TCYCLE_def m by (rule and_shifted_mask)
qed (simp_all add: LLC_MAKE_TCYCLE_def)

interpretation decim: bit_field LLC_GET_DECIM LLC_MAKE_DECIM 8 4
proof unfold_locales
  have m: "(0x00000f00 :: u32) = push_bit 8 (mask 4)" by (simp add: mask_eq_exp_minus_1)
  show "LLC_GET_DECIM w = take_bit 4 (drop_bit 8 w)" for w
    unfolding LLC_GET_DECIM_def m by (rule and_shifted_mask)
qed (simp_all add: LLC_MAKE_DECIM_def)

interpretation llc_csr: word_layout "llc_slave @ llc_master" by unfold_locales (simp add: csr_defs disjoint_masks_def)
interpretation htm_csr: word_layout "htm_slave @ htm_master" by unfold_locales (simp add: csr_defs disjoint_masks_def)

definition llc_options :: "u32 list" where
  "llc_options = [BP_FC_SET_MODE_LLC_SOFTCLOCK, BP_FC_SET_MODE_LLC_EXTCLOCK, BP_FC_SET_MODE_LLC_CLKPOL_POS, BP_FC_SET_MODE_LLC_TRPOL_POS,
     BP_FC_SET_LLCV2_INIT, BP_FC_SET_RTCLOCK_TIMING, BP_FC_SET_MODE_LLC_INTDIV_CLK, BP_FC_SET_MODE_LLC_INTSOFT_CLK]"
definition htm_options :: "u32 list" where
  "htm_options = [BP_FC_SETMODE_HTM_V2, BP_FC_SETMODE_HTM_STATUSBUF, BP_FC_SETMODE_HTM_HOFF]"
definition llc200_changes :: "u32 list" where
  "llc200_changes = [LLC200_INIT_MASK_DDS_FTW, LLC200_INIT_MASK_RANGE, LLC200_INIT_MASK_OFFSETS, LLC200_INIT_MASK_TRIG,
     LLC200_INIT_MASK_CHANNEL, LLC200_INIT_MASK_INTCLK, LLC200_INIT_MASK_DDS_QDAC]"
definition llc200_trigger :: "u32 list" where
  "llc200_trigger = [LLC200_INIT_TRIG_RISING, LLC200_INIT_TRIG_EXTRIG, LLC200_INIT_TRIG_EXTLINE]"
definition llc200_channels :: "u32 list" where
  "llc200_channels = [LLC200_INIT_CHANNEL_MASK_ANTIPHASE, LLC200_INIT_CHANNEL_MASK_BLOCKLEN_MASK, 0xffff]"

interpretation llc_opt: word_layout llc_options by unfold_locales (simp add: llc_options_def csr_defs disjoint_masks_def)
interpretation htm_opt: word_layout htm_options by unfold_locales (simp add: htm_options_def csr_defs disjoint_masks_def)
interpretation llc200_mask: word_layout llc200_changes by unfold_locales (simp add: llc200_changes_def llc200_defs disjoint_masks_def)
interpretation llc200_trig: word_layout llc200_trigger by unfold_locales (simp add: llc200_trigger_def llc200_defs disjoint_masks_def)
interpretation llc200_chan: word_layout llc200_channels by unfold_locales (simp add: llc200_channels_def llc200_defs disjoint_masks_def)

text \<open>The sample tag (sample number bit, trigger, subframe, digital inputs) and the word of the test distributor.\<close>

definition sample_tag :: "u32 list" where
  "sample_tag = [MASK nX_bit, MASK T_bit, push_bit s0_bit SUBFRAME_MASK, 0xff]"
definition test_sample :: "u32 list" where
  "test_sample = [T_TRIGGER_BIT, T_RAMP_MASK, T_CHANNEL_MASK, T_ISAMPLE_BIT, T_SUBFRAME_MASK]"

interpretation tag: word_layout sample_tag by unfold_locales (simp add: sample_tag_def frame_defs MASK_def disjoint_masks_def)
interpretation test: word_layout test_sample by unfold_locales (simp add: test_sample_def frame_defs disjoint_masks_def)

section \<open>Lemmas\<close>

text \<open>Every master part against every slave part of a shared register.\<close>

lemma owners_disjoint:
  assumes "word_layout (ss @ ms)" "m \<in> set ms" "s \<in> set ss"
  shows "((w AND NOT m) OR (x AND m)) AND s = w AND s" "((w AND NOT s) OR (x AND s)) AND m = w AND m"
proof -
  obtain i j where i: "i < length ss" "ss ! i = s" and j: "j < length ms" "ms ! j = m"
    using assms(2,3) by (auto simp: in_set_conv_nth)
  have a: "(ss @ ms) ! i = s" "(ss @ ms) ! (length ss + j) = m" "length ss + j \<noteq> i" using i j by (simp_all add: nth_append)
  show "((w AND NOT m) OR (x AND m)) AND s = w AND s"
    using word_layout.write_keeps [OF assms(1), of "length ss + j" i w x] i(1) j(1) a by simp
  show "((w AND NOT s) OR (x AND s)) AND m = w AND m"
    using word_layout.write_keeps [OF assms(1), of i "length ss + j" w x] i(1) j(1) a by simp
qed

lemma hostbuf_mask: "HTM_HOSTBUF_MB = push_bit 12 (mask 12)"
  by (simp add: HTM_HOSTBUF_MB_def mask_eq_exp_minus_1)

lemma htm_length: "HTM_GET_BUFFLEN_BYTES (HTM_SET_BUFFLEN_BYTES len) = push_bit 20 (drop_bit 20 len)"
proof -
  have m: "(0x00fff000 :: u32) = push_bit 12 (mask 12)" by (simp add: mask_eq_exp_minus_1)
  show ?thesis
    unfolding HTM_GET_BUFFLEN_BYTES_def HTM_SET_BUFFLEN_BYTES_def m
    by (intro bit_word_eqI) (auto simp: bit_simps dest: bit_imp_le_length)
qed

lemma htm_length_inside: "HTM_SET_BUFFLEN_BYTES len AND NOT HTM_HOSTBUF_MB = 0"
  unfolding HTM_SET_BUFFLEN_BYTES_def hostbuf_mask
  by (intro bit_word_eqI) (auto simp: bit_simps dest: bit_imp_le_length)

text \<open>A channel number from 0 and a track, packed as the header describes them: the track comes back, the channel counted from 1.\<close>

lemma track_and_channel:
  assumes "track < 8" "c < 32"
  shows "HRD_TRACK (push_bit 5 track OR c) = track \<and> HRD_CHAN (push_bit 5 track OR c) = c + 1"
proof -
  have b: "bit c n \<Longrightarrow> n < 5" "bit track n \<Longrightarrow> n < 3" for n
    using small_word_bits [of c 5 n] small_word_bits [of track 3 n] assms by simp_all
  have "drop_bit 5 (push_bit 5 track OR c) = track" by (intro bit_word_eqI) (auto simp: bit_simps dest: b)
  moreover have "take_bit 3 track = track" "take_bit 5 (push_bit 5 track OR c) = c"
    by (intro bit_word_eqI; auto simp: bit_simps dest: b)+
  moreover have "(0x7 :: u32) = mask 3" "(0x1f :: u32) = mask 5" by (simp_all add: mask_eq_exp_minus_1)
  ultimately show ?thesis unfolding HRD_TRACK_def HRD_CHAN_def by (simp only: take_bit_eq_mask [symmetric])
qed

lemma frame_positions: "distinct mfx_bytes" "set mfx_bytes = {0..39} - {27}"
proof -
  have m: "mfx_bytes = [0..<27] @ [28..<40]" by (simp add: mfx_bytes_def mfx_defs upt_rec)
  show "distinct mfx_bytes" "set mfx_bytes = {0..39} - {27}"
    unfolding m distinct_append set_append set_upt by (simp_all only: distinct_upt) auto
qed

section \<open>Enumerations\<close>

datatype ACQ32_DIOSELECT = ACQ32_DIO_NONE | ACQ32_DI_0 | ACQ32_DI_1 | ACQ32_DI_2 | ACQ32_DI_3 | ACQ32_DI_4 | ACQ32_DI_5
  | ACQ32_DO_0 | ACQ32_DO_1 | ACQ32_DO_2 | ACQ32_DO_3 | ACQ32_DO_4 | ACQ32_DO_5

primrec dioselect_val :: "ACQ32_DIOSELECT \<Rightarrow> u32" where
  "dioselect_val ACQ32_DIO_NONE = 0"
| "dioselect_val ACQ32_DI_0 = MASK 0" | "dioselect_val ACQ32_DI_1 = MASK 1" | "dioselect_val ACQ32_DI_2 = MASK 2"
| "dioselect_val ACQ32_DI_3 = MASK 3" | "dioselect_val ACQ32_DI_4 = MASK 4" | "dioselect_val ACQ32_DI_5 = MASK 5"
| "dioselect_val ACQ32_DO_0 = MASK 0" | "dioselect_val ACQ32_DO_1 = MASK 1" | "dioselect_val ACQ32_DO_2 = MASK 2"
| "dioselect_val ACQ32_DO_3 = MASK 3" | "dioselect_val ACQ32_DO_4 = MASK 4" | "dioselect_val ACQ32_DO_5 = MASK 5"

datatype Q32C_SR_DEST = Q32C_SR_DEST_NONE | Q32C_SR_DEST_MIx | Q32C_SR_DEST_MOx
  | Q32C_SR_DEST_J50 | Q32C_SR_DEST_J51 | Q32C_SR_DEST_J52 | Q32C_SR_DEST_J53 | Q32C_SR_DEST_J34 | Q32C_SR_DEST_J35
  | Q32C_SR_DEST_PXI_TRIG0 | Q32C_SR_DEST_PXI_TRIG1 | Q32C_SR_DEST_PXI_TRIG2 | Q32C_SR_DEST_PXI_TRIG3 | Q32C_SR_DEST_PXI_TRIG4
  | Q32C_SR_DEST_PXI_TRIG5 | Q32C_SR_DEST_PXI_TRIG6 | Q32C_SR_DEST_PXI_TRIG7 | Q32C_SR_DEST_PXI_STAR | Q32C_SR_DEST_PXI_CLK10

primrec sr_dest_val :: "Q32C_SR_DEST \<Rightarrow> u32" where
  "sr_dest_val Q32C_SR_DEST_NONE = 0x00" | "sr_dest_val Q32C_SR_DEST_MIx = 0x01" | "sr_dest_val Q32C_SR_DEST_MOx = 0x02"
| "sr_dest_val Q32C_SR_DEST_J50 = 0x04" | "sr_dest_val Q32C_SR_DEST_J51 = 0x04" | "sr_dest_val Q32C_SR_DEST_J52 = 0x04"
| "sr_dest_val Q32C_SR_DEST_J53 = 0x04" | "sr_dest_val Q32C_SR_DEST_J34 = 0x04" | "sr_dest_val Q32C_SR_DEST_J35 = 0x04"
| "sr_dest_val Q32C_SR_DEST_PXI_TRIG0 = 0x08" | "sr_dest_val Q32C_SR_DEST_PXI_TRIG1 = 0x08"
| "sr_dest_val Q32C_SR_DEST_PXI_TRIG2 = 0x08" | "sr_dest_val Q32C_SR_DEST_PXI_TRIG3 = 0x08"
| "sr_dest_val Q32C_SR_DEST_PXI_TRIG4 = 0x08" | "sr_dest_val Q32C_SR_DEST_PXI_TRIG5 = 0x08"
| "sr_dest_val Q32C_SR_DEST_PXI_TRIG6 = 0x10" | "sr_dest_val Q32C_SR_DEST_PXI_TRIG7 = 0x10"
| "sr_dest_val Q32C_SR_DEST_PXI_STAR = 0x10" | "sr_dest_val Q32C_SR_DEST_PXI_CLK10 = 0x10"

text \<open>The trigger flags can be merged into any selection of lines, and two destinations have the same bit or none in common.\<close>

lemma trigger_flags_free: "dioselect_val l AND (BP_FC_SM_FLAGS_DEB OR BP_FC_SM_FLAGS_NEM) = 0"
  by (cases l) (simp_all add: MASK_def BP_FC_SM_FLAGS_DEB_def BP_FC_SM_FLAGS_NEM_def)

lemma destinations_disjoint: "sr_dest_val d = sr_dest_val d' \<or> sr_dest_val d AND sr_dest_val d' = 0"
  by (cases d; cases d') simp_all

section \<open>Properties\<close>



text \<open>The length of the host buffer.  It is kept in units of 1 MB in a field of its own, so any length comes back rounded down to a
whole number of MB, and exactly when it is one; nothing outside the field is set.  Cycle time and decimation come back when they fit
their fields.\<close>

theorem streaming_fields_roundtrip:
  assumes "tc < 0x100" "dec < 0x10"
  shows "HTM_GET_BUFFLEN_BYTES (HTM_SET_BUFFLEN_BYTES len) = push_bit 20 (drop_bit 20 len) \<and>
    HTM_SET_BUFFLEN_BYTES len AND NOT HTM_HOSTBUF_MB = 0 \<and>
    LLC_GET_TCYCLE (LLC_MAKE_TCYCLE tc) = tc \<and> LLC_GET_DECIM (LLC_MAKE_DECIM dec) = dec"
  using htm_length htm_length_inside tcycle.get_put [of tc] decim.get_put [of dec] assms by simp

theorem streaming_fields_roundtrip_witness:
  "HTM_GET_BUFFLEN_BYTES (HTM_SET_BUFFLEN_BYTES 0x12345678) = 0x12300000 \<and> LLC_GET_DECIM (LLC_MAKE_DECIM 15) = 15"
  using streaming_fields_roundtrip [of 255 15 305419896] by simp

text \<open>The formats of the data.  The bytes of the multi-frame marker are 0 to 39 with 27 spare, each with one meaning; the parts of a
sample tag and those of a test sample are disjoint and use all 16 bits; the status words of the two-vector mode are 0 to 15.\<close>

theorem data_formats_partitioned:
  "distinct mfx_bytes \<and> set mfx_bytes = {0..39} - {27} \<and>
   disjoint_masks sample_tag \<and> fold (OR) sample_tag 0 = 0xffff \<and> disjoint_masks test_sample \<and> fold (OR) test_sample 0 = 0xffff \<and>
   NSUBFRAMES = SUBFRAME_MASK + 1 \<and>
   [LLC_SYNC2V_IN_MBOX0, LLC_SYNC2V_IN_MBOX1, LLC_SYNC2V_IN_MBOX2, LLC_SYNC2V_IN_MBOX3, LLC_SYNC2V_IN_DIO6, LLC_SYNC2V_IN_TINST,
    LLC_SYNC2V_IN_TLATCH, LLC_SYNC2V_IN_BDR, LLC_SYNC2V_IN_ITER, LLC_SYNC2V_IN_DI32, LLC_SYNC2V_IN_LASTE, LLC_SYNC2V_IN_TLAT32,
    LLC_SYNC2V_IN_VERID, LLC_SYNC2V_IN_SCOUNT, LLC_SYNC2V_IN_FIFSTA, LLC_SYNC2V_IN_LAST] = [0..<16]"
  using frame_positions tag.disjoint test.disjoint
  by (simp add: sample_tag_def test_sample_def frame_defs MASK_def area_defs upt_rec)

text \<open>The flags of a host request leave the channel number alone and are distinct bits, except that the flag of a wave track is the same
bit as that of an absolute bus address.  A packed track is read back; the channel is read back counted from 1.\<close>

theorem host_request_flags:
  assumes "track < 8" "c < 32"
  shows "sorted_wrt (\<lambda>x y. x AND y = 0) [HRD_CHAN_IS_FILE, HRD_CHECKED, HRD_ABS_PCI, HRD_READ_NEXT, HRD_CHAN_EOF, 0xff] \<and>
    HRD_WAVETRACK = HRD_ABS_PCI \<and>
    HRD_TRACK (push_bit 5 track OR c) = track \<and> HRD_CHAN (push_bit 5 track OR c) = c + 1"
  using track_and_channel [OF assms] by (simp add: hrd_defs HRD_CHECKED_def HRD_WAVETRACK_def)

theorem host_request_flags_witness: "HRD_WAVETRACK = HRD_ABS_PCI \<and> HRD_TRACK 0xff = 7 \<and> HRD_CHAN 0xff = 32"
  using host_request_flags [of 7 31] by simp

end
