(* ===== verification/Bus_Markers.thy ===== *)
theory Bus_Markers
  imports Bus_Modes Devices
begin

text \<open>
  Markers and limits of the bus protocol that no other theory reads (\<^verbatim>\<open>src/acq32busprot.h\<close>, \<^verbatim>\<open>src/acq200.h\<close>, \<^verbatim>\<open>src/acq32ioctl.h\<close>): bit
  numbers of the command word, block sizes, the marks of sample frames, special values in messages and status words, and the types of boards.  The theorems say
  that a marker is not met by accident: no request and no message id of the driver looks like one of them.
\<close>

section \<open>Definitions\<close>

definition BP_CI_ACK_BIT :: nat where "BP_CI_ACK_BIT = 31"
definition BP_CI_DONE_BIT :: nat where "BP_CI_DONE_BIT = 30"
definition BP_CI_COMMAND_BIT :: nat where "BP_CI_COMMAND_BIT = 29"
definition BP_CI_QUERY_BIT :: nat where "BP_CI_QUERY_BIT = 28"
definition BP_CI_A3_BIT :: nat where "BP_CI_A3_BIT = 27"
definition BP_CI_A4_BIT :: nat where "BP_CI_A4_BIT = 26"

definition BS_16K :: nat where "BS_16K = 0x4000"
definition BS_1K :: nat where "BS_1K = 0x400"
definition MAX_START_CODING :: nat where "MAX_START_CODING = 0xffff"
definition MAX_LENGTH_CODING :: nat where "MAX_LENGTH_CODING = 0xffff"

definition SF0 :: nat where "SF0 = 0xfe"
definition SF1 :: nat where "SF1 = 0xed"
definition NID_BITS :: nat where "NID_BITS = 0x30"
definition MF_MF2 :: nat where "MF_MF2 = 0xf0"
definition MF_MF3 :: nat where "MF_MF3 = 0x01"
definition MF_FILLa :: nat where "MF_FILLa = 0xf1"
definition MF_FILLb :: nat where "MF_FILLb = 0x11"

definition FLAVOR_KEY :: string where "FLAVOR_KEY = ''FLAVOR''"

definition LLCV2_INIT_MAGIC_MARKER :: u32 where "LLCV2_INIT_MAGIC_MARKER = 0xfeedc0de"
definition LLC_SYNC2V_DO :: nat where "LLC_SYNC2V_DO = 8"
definition LLC_SYNC2V_IDLE_PAT :: u32 where "LLC_SYNC2V_IDLE_PAT = 0x2f2fc0de"
definition HTM_V2_STATUS_OVERRUN :: u32 where "HTM_V2_STATUS_OVERRUN = 0x1"
definition HTM_V2_STATUS_COMPLETE :: u32 where "HTM_V2_STATUS_COMPLETE = 0x2"

definition REQUESTMAXBYTES :: "HOST_REQUEST_DATA_RECORD \<Rightarrow> u32" where "REQUESTMAXBYTES hrdr = hrd_nsamples hrdr"
definition START_LATEST :: u32 where "START_LATEST = 0xFFFFFFFF"
definition MID_NOT_VALID :: u16 where "MID_NOT_VALID = 0x8000"

definition DEV_TYPE_ACQ32 :: int where "DEV_TYPE_ACQ32 = 0x0100"
definition DEV_TYPE_ACQ16 :: int where "DEV_TYPE_ACQ16 = 0x0200"
definition DEV_TYPE_ACQ164 :: int where "DEV_TYPE_ACQ164 = 0x1100"
definition DEV_TYPE_WAV232 :: int where "DEV_TYPE_WAV232 = 0x2000"

text \<open>The output format of the channel files: one of the exclusive formats, and two flags.\<close>

datatype (plugins only: code size) ChannelMode = CM_BINARY | CM_HEX | CM_DEC | CM_VOLTS | CM_BIGEND | CM_EXCLUSIVE_OPTS | CM_LINENUMS | CM_DOS_LINES

primrec channel_mode :: "ChannelMode \<Rightarrow> u32" where
  "channel_mode CM_BINARY = 0"
| "channel_mode CM_HEX = 1"
| "channel_mode CM_DEC = 2"
| "channel_mode CM_VOLTS = 3"
| "channel_mode CM_BIGEND = 4"
| "channel_mode CM_EXCLUSIVE_OPTS = 0xf"
| "channel_mode CM_LINENUMS = 0x40"
| "channel_mode CM_DOS_LINES = 0x80"

text \<open>The arguments of the calls that access the card's memory and wait for events; the 16-bit member of the union is the low half of the word.\<close>

record ACQ32_RW_DEF =
  rw_offset :: u32
  rw_data :: u32

definition rw_data_w :: "ACQ32_RW_DEF \<Rightarrow> u16" where "rw_data_w a = ucast (rw_data a)"

record ACQ32_WAIT_DEF =
  event_mask :: u32
  wait_timeout :: u32

lemmas marker_defs = BP_CI_ACK_BIT_def BP_CI_DONE_BIT_def BP_CI_COMMAND_BIT_def BP_CI_QUERY_BIT_def BP_CI_A3_BIT_def BP_CI_A4_BIT_def
  BS_16K_def BS_1K_def MAX_START_CODING_def MAX_LENGTH_CODING_def SF0_def SF1_def NID_BITS_def MF_MF2_def MF_MF3_def MF_FILLa_def MF_FILLb_def
  LLCV2_INIT_MAGIC_MARKER_def LLC_SYNC2V_DO_def LLC_SYNC2V_IDLE_PAT_def HTM_V2_STATUS_OVERRUN_def HTM_V2_STATUS_COMPLETE_def START_LATEST_def
  MID_NOT_VALID_def DEV_TYPE_ACQ32_def DEV_TYPE_ACQ16_def DEV_TYPE_ACQ164_def DEV_TYPE_WAV232_def

section \<open>Properties\<close>

lemma half_not_max: "(x :: u32) div 2 \<noteq> 0xffffffff"
proof
  assume e: "x div 2 = 0xffffffff"
  have "unat (x div 2) \<le> unat x div 2" by (simp add: unat_div)
  moreover have "unat x < 2 ^ 32" using unsigned_less [of x] by simp
  ultimately show False unfolding e by simp
qed

text \<open>No request of the driver is taken for one of the special ones: its start is a number of samples and never the mark for the latest data, its count
is never the mark for an error, its id never carries the mark for an invalid id and is never zero, whatever file, position and length the
request is for.\<close>

theorem requests_meet_no_marker:
  "let m = set_msg_id (next_id d) (scratch (build_hrd_message path pa (s div 2) (n div 2) stride outbound cflags)) in
   hrd_start (m_hrdr0 m) \<noteq> START_LATEST \<and> REQUESTMAXBYTES (m_hrdr0 m) \<noteq> 0xffffffff \<and>
   mh_id (m_header m) AND MID_NOT_VALID = 0 \<and> mh_id (m_header m) \<noteq> 0"
proof -
  let ?i = "MAKE_ID_DTACQ (sint (i2o_last_id_out d) + 1)"
  have b: "0xDC \<le> ?i" "?i \<le> 0x7FDC" using make_id_bounds by simp_all
  then have u: "uint (next_id d) = ?i" by (simp add: next_id_def uint_word_of_int_eq take_bit_int_eq_self)
  have "\<not> bit (next_id d) 15"
    using b u bit_uint_iff [of "next_id d" 15] by (simp add: bit_iff_odd)
  then have "next_id d AND MID_NOT_VALID = 0"
    by (simp add: MID_NOT_VALID_def and_exp_eq_0_iff_not_bit [of _ 15, simplified])
  moreover have "next_id d \<noteq> 0" using u b by auto
  ultimately show ?thesis
    by (simp add: Let_def set_msg_id_def build_hrd_message_def START_LATEST_def REQUESTMAXBYTES_def half_not_max)
qed

text \<open>The flags of the command word are the bits of those numbers, all different; the two marks of a frame and of a multi frame differ from each
other and from the filling; the bits that number the samples leave 16 of the subframes; a 16-bit start or length in blocks covers what the next
smaller block size covers; the status bits of a half buffer are separate; the exclusive formats fit their mask and the flags lie outside of it; and the types of
boards are different.\<close>

theorem markers_distinct:
  "[BP_CI_ACK, BP_CI_DONE, BP_CI_COMMAND, BP_CI_QUERY, BP_CI_A3] =
     map (\<lambda>i. push_bit i 1) [BP_CI_ACK_BIT, BP_CI_DONE_BIT, BP_CI_COMMAND_BIT, BP_CI_QUERY_BIT, BP_CI_A3_BIT] \<and>
   distinct [BP_CI_ACK_BIT, BP_CI_DONE_BIT, BP_CI_COMMAND_BIT, BP_CI_QUERY_BIT, BP_CI_A3_BIT, BP_CI_A4_BIT] \<and>
   distinct [(SF0, SF1), (MF_MF2, MF_MF3), (MF_FILLa, MF_FILLb)] \<and> NID_BITS + 16 = unat NSUBFRAMES \<and>
   MAX_START_CODING \<le> MAX_START_CODING * BS_1K \<and> MAX_START_CODING * BS_1K \<le> MAX_START_CODING * BS_16K \<and>
   HTM_V2_STATUS_OVERRUN AND HTM_V2_STATUS_COMPLETE = 0 \<and> LLCV2_INIT_MAGIC_MARKER \<noteq> LLC_SYNC2V_IDLE_PAT \<and>
   (\<forall>m \<in> {CM_BINARY, CM_HEX, CM_DEC, CM_VOLTS, CM_BIGEND}. channel_mode m AND channel_mode CM_EXCLUSIVE_OPTS = channel_mode m) \<and>
   channel_mode CM_LINENUMS AND channel_mode CM_EXCLUSIVE_OPTS = 0 \<and> channel_mode CM_DOS_LINES AND channel_mode CM_EXCLUSIVE_OPTS = 0 \<and>
   distinct [DEV_TYPE_ACQ32, DEV_TYPE_ACQ16, DEV_TYPE_ACQ196, DEV_TYPE_ACQ164, DEV_TYPE_WAV232, DEV_TYPE_ACQ216]"
  by (simp add: marker_defs BP_CI_ACK_def BP_CI_DONE_def BP_CI_COMMAND_def BP_CI_QUERY_def BP_CI_A3_def MASK_def NSUBFRAMES_def
      DEV_TYPE_ACQ196_def DEV_TYPE_ACQ216_def)

end
