(* ===== verification/Bus_Records.thy ===== *)
theory Bus_Records
  imports Wire Bus_Modes
begin

text \<open>
  The remaining structures and enumerations of \<^verbatim>\<open>src/acq32busprot.h\<close>: the host side initialisation block of the ACQ216, the
  status notification request and the output data record as bytes, and the enumerations with the values the C rules give them.
\<close>

section \<open>Enumerations\<close>

text \<open>An enumerator without a value is one more than the one before it; the first is 0.\<close>

fun c_enum :: "int \<Rightarrow> ('a \<times> int option) list \<Rightarrow> ('a \<times> int) list" where
  "c_enum nxt [] = []"
| "c_enum nxt ((c, v) # ds) = (case v of None \<Rightarrow> (c, nxt) # c_enum (nxt + 1) ds | Some k \<Rightarrow> (c, k) # c_enum (k + 1) ds)"

definition enum_val :: "('a \<times> int option) list \<Rightarrow> 'a \<Rightarrow> int" where "enum_val ds c = the (map_of (c_enum 0 ds) c)"

datatype ACQXX_FLAVOR = ACQXX_FLAVOR32 | ACQXX_FLAVOR16 | ACQXX_FLAVOR_NOT_FOUND

definition ACQXX_FLAVOR_decl :: "(ACQXX_FLAVOR \<times> int option) list" where
  "ACQXX_FLAVOR_decl = [(ACQXX_FLAVOR32, Some 32), (ACQXX_FLAVOR16, Some 16), (ACQXX_FLAVOR_NOT_FOUND, None)]"

datatype BPFC_RANGE = BPFC_RANGE_UNKNOWN | BPFC_RANGE_10_10 | BPFC_RANGE_05_05 | BPFC_RANGE_02_02 | BPFC_RANGE_01_01 | BPFC_RANGE_2p5_2p5

definition BPFC_RANGE_decl :: "(BPFC_RANGE \<times> int option) list" where
  "BPFC_RANGE_decl = [(BPFC_RANGE_UNKNOWN, Some 0), (BPFC_RANGE_10_10, Some 1), (BPFC_RANGE_05_05, None), (BPFC_RANGE_02_02, None),
     (BPFC_RANGE_01_01, None), (BPFC_RANGE_2p5_2p5, None)]"

datatype PHASE_PROPERTY = PP_REQUESTED_SAMPLES | PP_ACTUAL_SAMPLES | PP_STATE

definition PHASE_PROPERTY_decl :: "(PHASE_PROPERTY \<times> int option) list" where
  "PHASE_PROPERTY_decl = [(PP_REQUESTED_SAMPLES, Some 1), (PP_ACTUAL_SAMPLES, None), (PP_STATE, None)]"

datatype EVENT_CONDITION = EC_NONE | EC_TRUE | EC_SOFT | EC_TRIGGER_RISING | EC_TRIGGER_FALLING | EC_DATA_ABOVE | EC_DATA_BELOW

definition EVENT_CONDITION_decl :: "(EVENT_CONDITION \<times> int option) list" where
  "EVENT_CONDITION_decl = map (\<lambda>c. (c, None))
     [EC_NONE, EC_TRUE, EC_SOFT, EC_TRIGGER_RISING, EC_TRIGGER_FALLING, EC_DATA_ABOVE, EC_DATA_BELOW]"

datatype CLOCK_SOURCE = CS_DI0 | CS_DI1 | CS_DI2 | CS_DI3 | CS_DI4 | CS_DI5 | CS_SOFT_CLOCK | CS_INT_CLOCK

definition CLOCK_SOURCE_decl :: "(CLOCK_SOURCE \<times> int option) list" where
  "CLOCK_SOURCE_decl = map (\<lambda>c. (c, None)) [CS_DI0, CS_DI1, CS_DI2, CS_DI3, CS_DI4, CS_DI5, CS_SOFT_CLOCK, CS_INT_CLOCK]"

datatype Q32C_SR_FUNC = SR_FUNC_DI0 | SR_FUNC_DI1 | SR_FUNC_DI2 | SR_FUNC_DI3 | SR_FUNC_DI4 | SR_FUNC_DI5
  | SR_FUNC_AICLK | SR_FUNC_AITRIG | SR_FUNC_AOCLK | SR_FUNC_AOTRIG | SR_FUNC_DOCLK | SR_FUNC_DOTRIG

definition Q32C_SR_FUNC_decl :: "(Q32C_SR_FUNC \<times> int option) list" where
  "Q32C_SR_FUNC_decl = [(SR_FUNC_DI0, None), (SR_FUNC_DI1, None), (SR_FUNC_DI2, None), (SR_FUNC_DI3, None), (SR_FUNC_DI4, None),
     (SR_FUNC_DI5, None), (SR_FUNC_AICLK, Some 0), (SR_FUNC_AITRIG, None), (SR_FUNC_AOCLK, None), (SR_FUNC_AOTRIG, None),
     (SR_FUNC_DOCLK, None), (SR_FUNC_DOTRIG, None)]"

lemmas decl_defs = ACQXX_FLAVOR_decl_def BPFC_RANGE_decl_def PHASE_PROPERTY_decl_def EVENT_CONDITION_decl_def CLOCK_SOURCE_decl_def
  Q32C_SR_FUNC_decl_def

section \<open>The initialisation block of the ACQ216\<close>

definition LLC200_INIT_MAGIC_MARKER :: u32 where "LLC200_INIT_MAGIC_MARKER = 0x200cafe0"
definition LLC200_INIT_CHANNEL_MASK_BLOCKLEN_SHIFT :: nat where "LLC200_INIT_CHANNEL_MASK_BLOCKLEN_SHIFT = 16"
definition LLC200_INIT_CHANNEL_BLOCKLEN_1K :: nat where "LLC200_INIT_CHANNEL_BLOCKLEN_1K = 10"

record LLC200_INIT =
  li_marker :: u32
  li_mask :: u32
  li_dds_ftw :: "u8 list"
  li_vranges :: "u16 list"
  li_offsets :: "u16 list"
  li_trig :: u32
  li_channel_mask :: u32
  li_int_clk :: u32

text \<open>The declared lengths of the three arrays.\<close>

definition llc200_ok :: "LLC200_INIT \<Rightarrow> bool" where
  "llc200_ok r \<longleftrightarrow> length (li_dds_ftw r) = 8 \<and> length (li_vranges r) = 4 \<and> length (li_offsets r) = 16"

text \<open>The structure is packed: the members follow each other.\<close>

definition enc_llc200 :: "LLC200_INIT \<Rightarrow> u8 list" where
  "enc_llc200 r = enc32 (li_marker r) @ enc32 (li_mask r) @ li_dds_ftw r @ concat (map enc16 (li_vranges r)) @
     concat (map enc16 (li_offsets r)) @ enc32 (li_trig r) @ enc32 (li_channel_mask r) @ enc32 (li_int_clk r)"

definition words16 :: "nat \<Rightarrow> u8 list \<Rightarrow> u16 list" where "words16 n bs = map (\<lambda>i. dec16 (piece 2 bs i)) [0..<n]"

definition dec_llc200 :: "u8 list \<Rightarrow> LLC200_INIT" where
  "dec_llc200 bs = \<lparr>li_marker = dec32 (take 4 bs), li_mask = dec32 (take 4 (drop 4 bs)), li_dds_ftw = take 8 (drop 8 bs),
     li_vranges = words16 4 (drop 16 bs), li_offsets = words16 16 (drop 24 bs), li_trig = dec32 (take 4 (drop 56 bs)),
     li_channel_mask = dec32 (take 4 (drop 60 bs)), li_int_clk = dec32 (take 4 (drop 64 bs))\<rparr>"

text \<open>The ranges as the other member of their union.\<close>

definition vranges_ull :: "u16 list \<Rightarrow> nat" where "vranges_ull ws = le_nat (concat (map enc16 ws))"

text \<open>The length of a block in bytes, kept in units of 1 KB in the channel mask.\<close>

definition block_field :: "u32 \<Rightarrow> u32" where
  "block_field cm = drop_bit LLC200_INIT_CHANNEL_MASK_BLOCKLEN_SHIFT (cm AND LLC200_INIT_CHANNEL_MASK_BLOCKLEN_MASK)"

definition block_bytes :: "u32 \<Rightarrow> nat" where
  "block_bytes cm = unat (block_field cm) * 2 ^ LLC200_INIT_CHANNEL_BLOCKLEN_1K"

section \<open>Records of messages\<close>

record STATUS_CHANGE_NOTIFICATION_REQUEST =
  request_mask :: u32
  response_mask :: u32

definition enc_notification :: "STATUS_CHANGE_NOTIFICATION_REQUEST \<Rightarrow> u8 list" where
  "enc_notification r = enc32 (request_mask r) @ enc32 (response_mask r)"

definition dec_notification :: "u8 list \<Rightarrow> STATUS_CHANGE_NOTIFICATION_REQUEST" where
  "dec_notification bs = \<lparr>request_mask = dec32 (take 4 bs), response_mask = dec32 (take 4 (drop 4 bs))\<rparr>"

interpretation notification: codec enc_notification dec_notification 8
  by unfold_locales (simp_all add: enc_notification_def dec_notification_def c32.enc_length c32.dec_enc)

text \<open>The array at the end of the output record has one declared entry; the record goes on for as many as the first entry says.\<close>

record ACQ32_PULL_OUTPUT_DATA_RECORD =
  po_src_pci :: u32
  po_func :: u32
  po_start :: u32
  po_nsamples :: u32
  po_data :: "u32 list"

definition enc_output :: "ACQ32_PULL_OUTPUT_DATA_RECORD \<Rightarrow> u8 list" where
  "enc_output r = concat (map enc32 ([po_src_pci r, po_func r, po_start r, po_nsamples r, of_nat (length (po_data r))] @ po_data r))"

definition dec_output :: "u8 list \<Rightarrow> ACQ32_PULL_OUTPUT_DATA_RECORD" where
  "dec_output bs = (let w = \<lambda>i. dec32 (piece 4 bs i) in
     \<lparr>po_src_pci = w 0, po_func = w 1, po_start = w 2, po_nsamples = w 3, po_data = map (\<lambda>i. w (5 + i)) [0..<unat (w 4)]\<rparr>)"

section \<open>Lemmas\<close>

lemma length_words: "length (concat (map enc16 ws)) = 2 * length ws" "length (concat (map enc32 ls)) = 4 * length ls"
  by (rule c16.array_length, rule c32.array_length)

lemma words16_enc: "length ws = n \<Longrightarrow> words16 n (concat (map enc16 ws) @ rest) = ws"
  by (rule nth_equalityI) (simp_all add: words16_def c16.piece_of_array)

text \<open>The bytes from each member on.\<close>

lemma llc200_drops:
  assumes "llc200_ok r"
  shows "drop 4 (enc_llc200 r) = enc32 (li_mask r) @ li_dds_ftw r @ concat (map enc16 (li_vranges r)) @ concat (map enc16 (li_offsets r)) @
      enc32 (li_trig r) @ enc32 (li_channel_mask r) @ enc32 (li_int_clk r)"
    "drop 8 (enc_llc200 r) = li_dds_ftw r @ concat (map enc16 (li_vranges r)) @ concat (map enc16 (li_offsets r)) @
      enc32 (li_trig r) @ enc32 (li_channel_mask r) @ enc32 (li_int_clk r)"
    "drop 16 (enc_llc200 r) = concat (map enc16 (li_vranges r)) @ concat (map enc16 (li_offsets r)) @
      enc32 (li_trig r) @ enc32 (li_channel_mask r) @ enc32 (li_int_clk r)"
    "drop 24 (enc_llc200 r) = concat (map enc16 (li_offsets r)) @ enc32 (li_trig r) @ enc32 (li_channel_mask r) @ enc32 (li_int_clk r)"
    "drop 56 (enc_llc200 r) = enc32 (li_trig r) @ enc32 (li_channel_mask r) @ enc32 (li_int_clk r)"
    "drop 60 (enc_llc200 r) = enc32 (li_channel_mask r) @ enc32 (li_int_clk r)"
    "drop 64 (enc_llc200 r) = enc32 (li_int_clk r)"
  using assms by (simp_all add: llc200_ok_def enc_llc200_def length_words c32.enc_length)

lemma dec_enc_llc200:
  assumes "llc200_ok r"
  shows "dec_llc200 (enc_llc200 r) = r"
proof -
  have "take 4 (enc_llc200 r) = enc32 (li_marker r)" by (simp add: enc_llc200_def c32.enc_length)
  then show ?thesis
    using assms unfolding dec_llc200_def llc200_drops [OF assms]
    by (simp add: words16_enc llc200_ok_def c32.enc_length c32.dec_enc)
qed

lemma le_nat_append: "le_nat (xs @ ys) = le_nat xs + 256 ^ length xs * le_nat ys"
  by (induction xs) (simp_all add: algebra_simps)

lemma le_nat_enc16: "le_nat (enc16 w) = unat w"
  unfolding enc16_def by (rule le_nat_le_bytes) (rule less_le_trans [OF unsigned_less], simp)

lemma vranges_value: "vranges_ull [a, b, c, d] = unat a + 2 ^ 16 * unat b + 2 ^ 32 * unat c + 2 ^ 48 * unat d"
  by (simp add: vranges_ull_def le_nat_append le_nat_enc16 c16.enc_length)

lemma enum_injective: "inj (enum_val ACQXX_FLAVOR_decl)" "inj (enum_val BPFC_RANGE_decl)" "inj (enum_val PHASE_PROPERTY_decl)"
  "inj (enum_val EVENT_CONDITION_decl)" "inj (enum_val CLOCK_SOURCE_decl)"
  by (rule injI, case_tac x; case_tac y; simp add: enum_val_def decl_defs)+

text \<open>Channels, block length and the antiphase flag share the channel mask; the length of a block is read back whatever the others are.\<close>

interpretation blocklen: bit_field block_field "push_bit 16" 16 12
proof unfold_locales
  have m: "LLC200_INIT_CHANNEL_MASK_BLOCKLEN_MASK = push_bit 16 (mask 12)"
    by (simp add: LLC200_INIT_CHANNEL_MASK_BLOCKLEN_MASK_def mask_eq_exp_minus_1)
  show "block_field w = take_bit 12 (drop_bit 16 w)" for w
    unfolding block_field_def m LLC200_INIT_CHANNEL_MASK_BLOCKLEN_SHIFT_def by (rule and_shifted_mask)
qed simp_all

lemma block_length:
  assumes "k < 2 ^ 12" "channels < 2 ^ 16"
  shows "block_bytes (push_bit 16 k OR channels OR (if antiphase then LLC200_INIT_CHANNEL_MASK_ANTIPHASE else 0)) = unat k * 1024"
proof -
  have "block_field channels = 0" using small_word_bits [OF assms(2)] by (intro blocklen.get_outside) auto
  moreover have "block_field (if antiphase then LLC200_INIT_CHANNEL_MASK_ANTIPHASE else 0) = 0"
    by (simp add: block_field_def LLC200_INIT_CHANNEL_MASK_ANTIPHASE_def LLC200_INIT_CHANNEL_MASK_BLOCKLEN_MASK_def
        LLC200_INIT_CHANNEL_MASK_BLOCKLEN_SHIFT_def)
  ultimately have "block_field (push_bit 16 k OR channels OR (if antiphase then LLC200_INIT_CHANNEL_MASK_ANTIPHASE else 0)) = k"
    using blocklen.get_put [OF assms(1)] by (simp only: blocklen.get_or or.right_neutral)
  then show ?thesis by (simp add: block_bytes_def LLC200_INIT_CHANNEL_BLOCKLEN_1K_def)
qed

lemma length_enc_output: "length (enc_output r) = 20 + 4 * length (po_data r)"
  unfolding enc_output_def length_words by simp

lemma dec_enc_output:
  assumes "length (po_data r) < 2 ^ 32"
  shows "dec_output (enc_output r) = r"
proof -
  let ?ws = "[po_src_pci r, po_func r, po_start r, po_nsamples r, of_nat (length (po_data r))] @ po_data r"
  have w: "dec32 (piece 4 (enc_output r) i) = ?ws ! i" if "i < 5 + length (po_data r)" for i
    using c32.piece_of_array [of i ?ws "[]"] that unfolding enc_output_def by simp
  have n: "unat (of_nat (length (po_data r)) :: u32) = length (po_data r)"
    using assms by (simp add: unsigned_of_nat take_bit_nat_eq_self)
  have "map (\<lambda>i. dec32 (piece 4 (enc_output r) (5 + i))) [0..<length (po_data r)] = po_data r"
    by (rule nth_equalityI) (simp_all add: w nth_append)
  then show ?thesis
    unfolding dec_output_def Let_def by (simp add: w [of 0] w [of 1, simplified] w [of 2] w [of 3] w [of 4] n)
qed

section \<open>Properties\<close>

text \<open>
  The enumerations.  Every enumerator of the flavours, ranges, phase properties, event conditions and clock sources has its own value;
  the digital lines are the clock sources 0 to 5.  The functions of the signal router have the same six values twice: line \<open>k\<close> and
  the \<open>k\<close>-th of the six clocks and triggers cannot be told apart.
\<close>

theorem enum_values:
  "inj (enum_val ACQXX_FLAVOR_decl) \<and> inj (enum_val BPFC_RANGE_decl) \<and> inj (enum_val PHASE_PROPERTY_decl) \<and>
   inj (enum_val EVENT_CONDITION_decl) \<and> inj (enum_val CLOCK_SOURCE_decl) \<and>
   map (enum_val CLOCK_SOURCE_decl) [CS_DI0, CS_DI1, CS_DI2, CS_DI3, CS_DI4, CS_DI5] = [0..5] \<and>
   map (enum_val Q32C_SR_FUNC_decl) [SR_FUNC_DI0, SR_FUNC_DI1, SR_FUNC_DI2, SR_FUNC_DI3, SR_FUNC_DI4, SR_FUNC_DI5] = [0..5] \<and>
   map (enum_val Q32C_SR_FUNC_decl) [SR_FUNC_AICLK, SR_FUNC_AITRIG, SR_FUNC_AOCLK, SR_FUNC_AOTRIG, SR_FUNC_DOCLK, SR_FUNC_DOTRIG] = [0..5]"
  using enum_injective by (simp add: enum_val_def decl_defs upto_rec1)

text \<open>
  The initialisation block has 68 bytes, and every member, arrays included, begins on a multiple of four, as its comment asks for; it is
  read back from its bytes.  The ranges seen as one 64-bit number are the four 16-bit ones in ascending places.
\<close>

theorem llc200_init_layout:
  assumes "llc200_ok r"
  shows "length (enc_llc200 r) = 68 \<and> dec_llc200 (enc_llc200 r) = r \<and>
    (\<forall>(off, bs) \<in> set [(0, enc32 (li_marker r)), (4, enc32 (li_mask r)), (8, li_dds_ftw r), (16, concat (map enc16 (li_vranges r))),
        (24, concat (map enc16 (li_offsets r))), (56, enc32 (li_trig r)), (60, enc32 (li_channel_mask r)), (64, enc32 (li_int_clk r))].
       4 dvd off \<and> take (length bs) (drop off (enc_llc200 r)) = bs) \<and>
    vranges_ull (li_vranges r) = (\<Sum>i < 4. 2 ^ (16 * i) * unat (li_vranges r ! i))"
proof -
  have "length (enc_llc200 r) = 68"
    using assms by (simp add: enc_llc200_def llc200_ok_def length_words c32.enc_length)
  moreover have "take 4 (enc_llc200 r) = enc32 (li_marker r)" by (simp add: enc_llc200_def c32.enc_length)
  moreover obtain a b c d where "li_vranges r = [a, b, c, d]"
    using assms by (auto simp: llc200_ok_def numeral_eq_Suc length_Suc_conv)
  ultimately show ?thesis
    using assms dec_enc_llc200 [OF assms] by (simp add: llc200_drops vranges_value c32.enc_length lessThan_nat_numeral)
qed

theorem llc200_init_layout_witness:
  "length (enc_llc200 \<lparr>li_marker = LLC200_INIT_MAGIC_MARKER, li_mask = 0x7f, li_dds_ftw = [1, 2, 3, 4, 5, 6, 7, 8], li_vranges = [1, 2, 3, 0],
     li_offsets = replicate 16 0, li_trig = 0x30, li_channel_mask = 0xffff, li_int_clk = 1000000\<rparr>) = 68"
  using llc200_init_layout [of "\<lparr>li_marker = LLC200_INIT_MAGIC_MARKER, li_mask = 0x7f, li_dds_ftw = [1, 2, 3, 4, 5, 6, 7, 8],
     li_vranges = [1, 2, 3, 0], li_offsets = replicate 16 0, li_trig = 0x30, li_channel_mask = 0xffff, li_int_clk = 1000000\<rparr>"]
  by (simp add: llc200_ok_def)

text \<open>
  The output record carries its own count and is read back with exactly that many data words; it fits a message if and only if there are
  at most 249 of them.
\<close>

theorem output_record_fits:
  assumes "length (po_data r) < 2 ^ 32"
  shows "dec_output (enc_output r) = r \<and> (length (enc_output r) \<le> MESSAGE_DATA_LEN \<longleftrightarrow> length (po_data r) \<le> 249)"
  using dec_enc_output [OF assms]
  by (simp add: length_enc_output MESSAGE_DATA_LEN_def MESSAGE_LEN_def MESSAGE_HEADER_SIZE_def)

theorem output_record_fits_witness:
  "let r = \<lparr>po_src_pci = 0, po_func = 5, po_start = 0, po_nsamples = 2, po_data = [10, 20]\<rparr> in
     dec_output (enc_output r) = r \<and> length (enc_output r) \<le> MESSAGE_DATA_LEN"
  using output_record_fits [of "\<lparr>po_src_pci = 0, po_func = 5, po_start = 0, po_nsamples = 2, po_data = [10, 20]\<rparr>"]
  by (simp add: Let_def)

end
