(* ===== verification/Ht_Program.thy ===== *)
theory Ht_Program
  imports Htstream
begin

text \<open>
  The streaming client as a whole (\<^verbatim>\<open>src/htstream.c\<close>): the four workers, the program from its environment variables to its exit
  code, and the status line of the debug output with the buffer it is printed into.  \<open>data k\<close> is what the mapped buffer holds at
  the \<open>k\<close>-th call of the worker and \<open>newfd k\<close> what an \<open>open\<close> returns during it.
\<close>

section \<open>Workers\<close>

datatype effect = Md5 "u8 list" | Usleep int

type_synonym worker_state = "effect list \<times> ht_files"

definition checkWork :: "u8 list \<Rightarrow> u32 \<Rightarrow> worker_state \<Rightarrow> worker_state" where
  "checkWork bytes len st = (fst st @ [Md5 (take (unat len) bytes)], snd st)"

definition sleepWork :: "int \<Rightarrow> worker_state \<Rightarrow> worker_state" where
  "sleepWork SLEEP_WORK st = (fst st @ [Usleep SLEEP_WORK], snd st)"

definition defaultWork :: "worker_state \<Rightarrow> worker_state" where "defaultWork st = st"

text \<open>The call through the function pointer; the length is an \<open>int\<close> there.\<close>

definition doWork :: "ht_config \<Rightarrow> int \<Rightarrow> u8 list \<Rightarrow> u32 \<Rightarrow> worker_state \<Rightarrow> int + worker_state" where
  "doWork cf fd bytes len st =
     (case cf_work cf of
        DefaultWork \<Rightarrow> Inr (defaultWork st)
      | CheckWork \<Rightarrow> Inr (checkWork bytes len st)
      | SleepWork \<Rightarrow> Inr (sleepWork (cf_sleep cf) st)
      | FileWork \<Rightarrow> (case fileWork fd (sint len) (snd st) of Inl e \<Rightarrow> Inl e | Inr f \<Rightarrow> Inr (fst st, f)))"

fun doWorks :: "ht_config \<Rightarrow> (nat \<Rightarrow> int) \<Rightarrow> (nat \<Rightarrow> u8 list) \<Rightarrow> nat \<Rightarrow> (nat \<times> u32) list \<Rightarrow> worker_state \<Rightarrow> int + worker_state" where
  "doWorks cf newfd data k [] st = Inr st"
| "doWorks cf newfd data k ((i, len) # ws) st =
     (case doWork cf (newfd k) (data k) len st of Inl e \<Rightarrow> Inl e | Inr st1 \<Rightarrow> doWorks cf newfd data (Suc k) ws st1)"

section \<open>The program\<close>

text \<open>
  One turn after the other, the worker on the buffers of each; the exit code, if there is one yet, the state of the loop and that of the
  worker.  When a worker exits the files are left as they were.
\<close>

fun ht_loop :: "ht_config \<Rightarrow> (nat \<Rightarrow> int) \<Rightarrow> (nat \<Rightarrow> u8 list) \<Rightarrow> ioctl_ret list \<Rightarrow> ht_client \<Rightarrow> worker_state \<Rightarrow>
    int option \<times> ht_client \<times> worker_state" where
  "ht_loop cf newfd data [] c st = (None, c, st)"
| "ht_loop cf newfd data (r # rs) c st =
     (let (out, c1) = action_turn (cf_maxto cf) (cf_timeout cf) r c in
      case doWorks cf newfd data (length (work c)) (drop (length (work c)) (work c1)) st of
        Inl e \<Rightarrow> (Some e, c1, st)
      | Inr st1 \<Rightarrow>
          (case out of
             Again \<Rightarrow> ht_loop cf newfd data rs c1 st1
           | GaveUp \<Rightarrow> (Some (- 1), c1, st1)
           | Finished \<Rightarrow> (Some 0, c1, st1)))"

definition start_files :: "ht_config \<Rightarrow> ht_files" where
  "start_files cf = FILE_INFO.extend (cf_file cf) \<lparr>fpos = 0, written = []\<rparr>"

definition ht_main ::
  "(string \<Rightarrow> string option) \<Rightarrow> (string \<Rightarrow> int + int) \<Rightarrow> (int \<Rightarrow> ulong \<Rightarrow> int + int) \<Rightarrow> (nat \<Rightarrow> int) \<Rightarrow> (nat \<Rightarrow> u8 list) \<Rightarrow>
   ioctl_ret list \<Rightarrow> int option \<times> ht_client \<times> worker_state" where
  "ht_main getenv sys_open sys_mmap newfd data rs =
     (let cf = ht_main_config getenv in
      case initMapping sys_open sys_mmap (cf_slot cf) (bufAB ! BUFFERA) of
        Inl e \<Rightarrow> (Some e, ht_init, [], start_files cf)
      | Inr a \<Rightarrow>
          (case initMapping sys_open sys_mmap (cf_slot cf) (bufAB ! BUFFERB) of
             Inl e \<Rightarrow> (Some e, ht_init, [], start_files cf)
           | Inr b \<Rightarrow> ht_loop cf newfd data rs ht_init ([], start_files cf)))"

section \<open>The status line\<close>

definition STATUS_SIZE :: nat where "STATUS_SIZE = 80"

definition pad8 :: "string \<Rightarrow> string" where "pad8 s = replicate (8 - length s) CHR '' '' @ s"

definition buffer_status :: "nat \<Rightarrow> BufferAB_Ops \<Rightarrow> string" where
  "buffer_status next o1 = ''N:'' @ dec_str (int next) @ '' '' @ pad8 (dec_str (sint (ds_sid o1 ! next))) @ '' '' @
     pad8 (dec_str (sint (ds_len o1 ! next))) @ '' :''"

definition status_line :: "int \<Rightarrow> ht_client \<Rightarrow> BufferAB_Ops \<Rightarrow> string" where
  "status_line acq200_debug c o1 =
     (if acq200_debug \<noteq> 0 \<and> timeouts c \<noteq> 0 then [CHR 0x0A] else []) @ pad8 (dec_str (syscalls c)) @ '':'' @
     (if ds_full o1 AND BUFFER_FLAG_LUT ! nxt c \<noteq> 0 then
        buffer_status (nxt c) o1 @
        (let next = (if nxt c = 0 then 1 else 0) in
         if ds_full o1 AND BUFFER_FLAG_LUT ! next \<noteq> 0 then ''..'' @ buffer_status next o1 else [])
      else [])"

section \<open>Lemmas on the program\<close>

lemma take_buffer_work: "take_buffer c = Some c' \<Longrightarrow> \<exists>w. work c' = work c @ [w]"
  by (auto simp: take_buffer_def split: if_splits)

lemma take_buffers_work: "\<exists>ws. work (take_buffers c) = work c @ ws"
proof (cases "take_buffer c")
  case (Some c1)
  then obtain w where w: "work c1 = work c @ [w]" using take_buffer_work by blast
  show ?thesis
  proof (cases "take_buffer c1")
    case (Some c2)
    then obtain w' where "work c2 = work c1 @ [w']" using take_buffer_work by blast
    with w Some \<open>take_buffer c = Some c1\<close> show ?thesis by (simp add: take_buffers_def)
  qed (use w \<open>take_buffer c = Some c1\<close> in \<open>simp add: take_buffers_def\<close>)
qed (simp add: take_buffers_def)

lemma action_turn_work:
  assumes "action_turn m t r c = (out, c')"
  shows "\<exists>ws. work c' = work c @ ws"
proof (cases r)
  case (IoctlOk o1)
  obtain ws where "work (take_buffers (c\<lparr>ops := o1\<lparr>ci_recycle := 0\<rparr>, timeouts := 0, started := True\<rparr>)) = work c @ ws"
    using take_buffers_work [of "c\<lparr>ops := o1\<lparr>ci_recycle := 0\<rparr>, timeouts := 0, started := True\<rparr>"] by auto
  with assms IoctlOk show ?thesis by (auto simp: action_turn_def next_turn_def Let_def split: if_splits)
qed (use assms in \<open>auto simp: action_turn_def next_turn_def Let_def split: if_splits\<close>)

lemma action_work: "action m t rs c = (out, c') \<Longrightarrow> \<exists>ws. work c' = work c @ ws"
proof (induction rs arbitrary: c)
  case (Cons r rs)
  obtain o1 c1 where t: "action_turn m t r c = (o1, c1)" by fastforce
  then obtain ws where "work c1 = work c @ ws" using action_turn_work by blast
  with Cons t show ?case by (fastforce split: if_splits)
qed simp

lemma doWorks_append:
  "doWorks cf newfd data k (ws @ ws') st =
     (case doWorks cf newfd data k ws st of Inl e \<Rightarrow> Inl e | Inr st1 \<Rightarrow> doWorks cf newfd data (k + length ws) ws' st1)"
proof (induction ws arbitrary: k st)
  case (Cons w ws)
  then show ?case by (cases w) (auto split: sum.split)
qed simp

definition exit_of :: "ht_outcome \<Rightarrow> int option" where
  "exit_of out = (case out of Again \<Rightarrow> None | GaveUp \<Rightarrow> Some (- 1) | Finished \<Rightarrow> Some 0)"

text \<open>If the worker does not exit, the program is the loop followed by the worker on all that the loop took.\<close>

lemma ht_loop_works:
  assumes "action (cf_maxto cf) (cf_timeout cf) rs c = (out, c')"
    and "doWorks cf newfd data (length (work c)) (drop (length (work c)) (work c')) st = Inr st'"
  shows "ht_loop cf newfd data rs c st = (exit_of out, c', st')"
  using assms
proof (induction rs arbitrary: c st)
  case Nil
  then show ?case by (simp add: exit_of_def)
next
  case (Cons r rs)
  obtain o1 c1 where t: "action_turn (cf_maxto cf) (cf_timeout cf) r c = (o1, c1)" by fastforce
  obtain w1 where w1: "work c1 = work c @ w1" using action_turn_work [OF t] by blast
  obtain w2 where w2: "work c' = work c1 @ w2"
  proof (cases "o1 = Again")
    case True
    then show thesis using Cons.prems(1) t action_work that by fastforce
  next
    case False
    then show thesis using Cons.prems(1) t that [of "[]"] by simp
  qed
  obtain st1 where d: "doWorks cf newfd data (length (work c)) w1 st = Inr st1" "doWorks cf newfd data (length (work c1)) w2 st1 = Inr st'"
    using Cons.prems(2) by (auto simp: w1 w2 doWorks_append split: sum.splits)
  show ?case
  proof (cases "o1 = Again")
    case True
    then have "ht_loop cf newfd data rs c1 st1 = (exit_of out, c', st')"
      using Cons.IH [of c1 st1] Cons.prems(1) t d(2) w2 by simp
    then show ?thesis using True t d(1) w1 by simp
  next
    case False
    then have e: "out = o1" "c' = c1" using Cons.prems(1) t by simp_all
    then have "w2 = []" using w2 append_self_conv [of "work c1" w2] by simp
    then have "st1 = st'" using d(2) by simp
    then show ?thesis using False t d(1) unfolding e by (cases o1) (simp_all add: w1 exit_of_def)
  qed
qed

lemma doWorks_files:
  assumes "cf_work cf = FileWork"
  shows "doWorks cf newfd data k ws (l, f) =
    (case fileWorks (zip (map newfd [k..<k + length ws]) (map (sint \<circ> snd) ws)) f of Inl e \<Rightarrow> Inl e | Inr f' \<Rightarrow> Inr (l, f'))"
proof (induction ws arbitrary: k f)
  case (Cons w ws)
  show ?case
    using Cons.IH [of "Suc k"] assms by (cases w) (auto simp: doWork_def upt_conv_Cons simp del: upt_Suc split: sum.split)
qed simp

lemma doWorks_others:
  assumes "cf_work cf \<noteq> FileWork"
  shows "doWorks cf newfd data k ws (l, f) = Inr (l @ (case cf_work cf of
      CheckWork \<Rightarrow> map (\<lambda>i. Md5 (take (unat (snd (ws ! i))) (data (k + i)))) [0..<length ws]
    | SleepWork \<Rightarrow> replicate (length ws) (Usleep (cf_sleep cf)) | _ \<Rightarrow> []), f)"
proof (induction ws arbitrary: k l)
  case (Cons w ws)
  have "map (\<lambda>i. Md5 (take (unat (snd ((w # ws) ! i))) (data (k + i)))) [0..<length (w # ws)] =
      Md5 (take (unat (snd w)) (data k)) # map (\<lambda>i. Md5 (take (unat (snd (ws ! i))) (data (Suc k + i)))) [0..<length ws]"
    by (simp add: upt_conv_Cons map_Suc_upt [symmetric] comp_def del: upt_Suc)
  then show ?case
    using Cons.IH [of "Suc k"] assms
    by (cases w; cases "cf_work cf") (simp_all add: doWork_def checkWork_def sleepWork_def defaultWork_def del: upt_Suc)
qed (simp split: worker.split)

text \<open>A setting that does not touch a field leaves it alone, whether or not its variable is set.\<close>

lemma when_set_keep: "(\<And>a x. p (f a x) = p x) \<Longrightarrow> p (when_set v f x) = p x"
  by (cases v) (simp_all add: when_set_def)

lemmas when_set_simps = when_set_def [of "None"] when_set_def [of "Some _"] when_set_keep [where p = cf_work]
  when_set_keep [where p = cf_sleep] when_set_keep [where p = cf_file]

lemma config_work:
  "cf_work (ht_main_config getenv) =
     (if getenv ''ACQ200_WRITEFILE'' \<noteq> None then FileWork else if getenv ''ACQ200_SLEEP_WORK'' \<noteq> None then SleepWork
      else if getenv ''ACQ200_CHECKWORK'' \<noteq> None then CheckWork else DefaultWork)"
  unfolding ht_main_config_def
  by (cases "getenv ''ACQ200_WRITEFILE''"; cases "getenv ''ACQ200_SLEEP_WORK''"; cases "getenv ''ACQ200_CHECKWORK''")
    (simp_all add: when_set_simps default_config_def)

lemma config_sleep: "getenv ''ACQ200_SLEEP_WORK'' = Some v \<Longrightarrow> cf_sleep (ht_main_config getenv) = max (atoi v) 1"
  unfolding ht_main_config_def by (simp add: when_set_simps)

lemma start_files_inv: "ifile (cf_file cf) = 0 \<Longrightarrow> fi_fd (cf_file cf) = - 1 \<Longrightarrow> files_inv [] (start_files cf)"
  by (simp add: files_inv_def start_files_def FILE_INFO.extend_def)

lemma file_config_fresh: "ifile (file_config getenv fmt f) = ifile f" "fi_fd (file_config getenv fmt f) = fi_fd f"
  by (simp_all add: file_config_def when_set_def split: option.split)

lemma config_file: "ifile (cf_file (ht_main_config getenv)) = 0" "fi_fd (cf_file (ht_main_config getenv)) = - 1"
proof -
  have "cf_file (ht_main_config getenv) = G_file \<or> (\<exists>fmt. cf_file (ht_main_config getenv) = file_config getenv fmt G_file)"
    unfolding ht_main_config_def
    by (cases "getenv ''ACQ200_WRITEFILE''") (auto simp: when_set_simps default_config_def)
  then show "ifile (cf_file (ht_main_config getenv)) = 0" "fi_fd (cf_file (ht_main_config getenv)) = - 1"
    by (auto simp: file_config_fresh G_file_def)
qed

section \<open>Lemmas on the status line\<close>

lemma length_dec_str: "- (2 ^ 31) \<le> i \<Longrightarrow> i < 2 ^ 31 \<Longrightarrow> length (dec_str i) \<le> 11"
  using length_dec_nat [of 10 "nat (- i)"] length_dec_nat [of 10 "nat i"] by (auto simp: dec_str_def nat_less_iff)

lemma length_pad8: "length s \<le> 11 \<Longrightarrow> length (pad8 s) \<le> 11"
  by (simp add: pad8_def)

lemma length_word_dec: "length (pad8 (dec_str (sint (w :: u32)))) \<le> 11"
  using sint_ge [of w] sint_lt [of w] by (intro length_pad8 length_dec_str) simp_all

lemma length_buffer_status:
  assumes "ix < 2"
  shows "length (buffer_status ix o1) \<le> 29"
proof -
  have "length (dec_str (int ix)) \<le> 1" using length_dec_nat [of 1 ix] assms by (simp add: dec_str_def)
  then show ?thesis
    using length_word_dec [of "ds_sid o1 ! ix"] length_word_dec [of "ds_len o1 ! ix"] by (simp add: buffer_status_def)
qed

lemma action_turn_syscalls: "action_turn m t r c = (out, c') \<Longrightarrow> syscalls c \<le> syscalls c' \<and> syscalls c' \<le> syscalls c + 1"
proof -
  have "syscalls (take_buffers c) = syscalls c" for c
    by (auto simp: take_buffers_def take_buffer_def split: option.split)
  then show "action_turn m t r c = (out, c') \<Longrightarrow> syscalls c \<le> syscalls c' \<and> syscalls c' \<le> syscalls c + 1"
    by (auto simp: action_turn_def Let_def next_turn_def split: ioctl_ret.splits if_splits)
qed

lemma action_syscalls: "action m t rs c = (out, c') \<Longrightarrow> syscalls c \<le> syscalls c' \<and> syscalls c' \<le> syscalls c + int (length rs)"
proof (induction rs arbitrary: c)
  case (Cons r rs)
  obtain o1 c1 where t: "action_turn m t r c = (o1, c1)" by fastforce
  with Cons.prems Cons.IH [of c1] action_turn_syscalls [OF t] show ?case by (auto split: if_splits)
qed simp

section \<open>Properties\<close>


definition example_env :: "string \<Rightarrow> string option" where
  "example_env v = (if v = ''ACQ200_WRITEFILE'' then Some ''out'' else if v = ''ACQ200_NFILES'' then Some ''3'' else None)"


text \<open>
  The status line.  Whatever the driver reports, in every turn of a run of fewer than 2^31 - 1 turns the line that is printed into the
  80 characters of \<open>status\<close> fits together with its terminating zero, although it is printed unchecked.
\<close>

theorem status_line_fits:
  assumes "action MAXTO timeout rs ht_init = (out, c)" and "length rs < 2 ^ 31 - 1"
  shows "length (status_line acq200_debug c o1) < STATUS_SIZE"
proof -
  have "client_inv c" using action_inv [OF client_inv_init, of MAXTO timeout rs] assms(1) by simp
  then have n: "nxt c < 2" by (simp add: client_inv_def)
  have "syscalls ht_init = 1" by (simp add: ht_init_def)
  then have "1 \<le> syscalls c" "syscalls c < 2 ^ 31" using action_syscalls [OF assms(1)] assms(2) by auto
  then have "length (pad8 (dec_str (syscalls c))) \<le> 11" by (intro length_pad8 length_dec_str) simp_all
  moreover have "length (buffer_status (nxt c) o1) \<le> 29" "length (buffer_status (if nxt c = 0 then 1 else 0) o1) \<le> 29"
    using n by (intro length_buffer_status; simp)+
  ultimately show ?thesis by (simp add: status_line_def STATUS_SIZE_def Let_def)
qed

theorem status_line_fits_witness:
  "length (status_line 1 ht_init (full_ops 3)) < STATUS_SIZE"
  using status_line_fits [of 60 50 "[]" Again ht_init 1 "full_ops 3"] by simp

end
