(* ===== verification/Acqcmd.thy ===== *)
theory Acqcmd
  imports Printf "HOL-Library.Sublist"
begin

text \<open>
  The command line client (\<^verbatim>\<open>src/acqcmd.c\<close>) and the string helpers it shares (\<^verbatim>\<open>src/local.h\<close>).  A connection is the
  text sent so far and the text still to be read; \<open>fgets\<close> reads a line, or a full buffer of a longer line.  The
  option parser is a library: its result, the options in order, is an argument, and so are the results of the system
  calls that open a connection.
\<close>

section \<open>Strings\<close>

definition nl :: string where "nl = [CHR 0x0A]"

text \<open>\<open>fgets\<close> with a buffer of the given size: at most \<open>n - 1\<close> characters, up to and with the first newline.\<close>

fun fgets_upto :: "nat \<Rightarrow> string \<Rightarrow> string \<times> string" where
  "fgets_upto 0 s = ([], s)"
| "fgets_upto (Suc n) [] = ([], [])"
| "fgets_upto (Suc n) (c # cs) =
     (if c = CHR 0x0A then ([c], cs) else let (l, r) = fgets_upto n cs in (c # l, r))"

definition fgets :: "nat \<Rightarrow> string \<Rightarrow> (string \<times> string) option" where
  "fgets n s = (if s = [] then None else Some (fgets_upto (n - 1) s))"

lemma fgets_upto_split: "fgets_upto n s = (l, r) \<Longrightarrow> l @ r = s"
  by (induction n s arbitrary: l r rule: fgets_upto.induct) (auto split: if_splits prod.splits)

lemma fgets_upto_nonempty: "0 < n \<Longrightarrow> s \<noteq> [] \<Longrightarrow> fst (fgets_upto n s) \<noteq> []"
  by (cases n; cases s) (auto split: prod.split)

lemma fgets_shorter:
  assumes "fgets n s = Some (l, r)" "1 < n"
  shows "length r < length s" "l @ r = s" "l \<noteq> []"
proof -
  have u: "fgets_upto (n - 1) s = (l, r)" "s \<noteq> []" using assms(1) by (auto simp: fgets_def split: if_splits)
  show a: "l @ r = s" by (rule fgets_upto_split [OF u(1)])
  show b: "l \<noteq> []" using fgets_upto_nonempty [of "n - 1" s] u assms(2) by simp
  from a b show "length r < length s" by auto
qed

fun strncmp_match :: "string \<Rightarrow> string \<Rightarrow> bool" where
  "strncmp_match s [] = True"
| "strncmp_match [] (p # ps) = False"
| "strncmp_match (c # cs) (p # ps) = (c = p \<and> strncmp_match cs ps)"

fun strstr :: "string \<Rightarrow> string \<Rightarrow> bool" where
  "strstr [] pat = (pat = [])"
| "strstr (c # cs) pat = (strncmp_match (c # cs) pat \<or> strstr cs pat)"

text \<open>The helpers of \<^verbatim>\<open>local.h\<close>.  \<open>chomp\<close> walks an index down; an access before the string is \<open>None\<close>.\<close>

definition is_eol :: "char \<Rightarrow> bool" where "is_eol c \<longleftrightarrow> c = CHR 0x0A \<or> c = CHR 0x0D"

fun chomp_loop :: "string \<Rightarrow> nat \<Rightarrow> string option" where
  "chomp_loop s 0 = None"
| "chomp_loop s (Suc i) =
     (if is_eol (s ! i) then (if i = 1 then Some (take i s) else chomp_loop (take i s) i) else Some s)"

definition chomp :: "string \<Rightarrow> string option" where
  "chomp s = chomp_loop s (length s)"

definition tr :: "string \<Rightarrow> char \<Rightarrow> char \<Rightarrow> string" where
  "tr s c1 c2 = fold (\<lambda>i t. if t ! i = c1 then t[i := c2] else t) [0..<length s] s"

section \<open>One command\<close>

definition ERROR_STRING :: string where "ERROR_STRING = ''ACQ32:ERROR''"
definition EOF_LINE :: string where "EOF_LINE = ''EOF'' @ nl"
definition REPLY_SIZE :: nat where "REPLY_SIZE = 80"

text \<open>The loop over the replies: number of lines shown, error seen, text shown, text left.\<close>

function reply_loop :: "string \<Rightarrow> nat \<Rightarrow> bool \<Rightarrow> string \<Rightarrow> nat \<times> bool \<times> string \<times> string" where
  "reply_loop inp nout er out =
     (case fgets REPLY_SIZE inp of
        None \<Rightarrow> (nout, er, out, inp)
      | Some (reply, rest) \<Rightarrow>
          let er1 = (er \<or> strncmp_match reply ERROR_STRING) in
          if reply = EOF_LINE then (nout, er1, out, rest) else reply_loop rest (Suc nout) er1 (out @ reply))"
  by pat_completeness auto
termination
  by (relation "measure (\<lambda>(inp, nout, er, out). length inp)") (auto simp: REPLY_SIZE_def dest: fgets_shorter(1))

declare reply_loop.simps [simp del]

definition command_text :: "string list \<Rightarrow> string" where
  "command_text words = concat (map (\<lambda>w. w @ '' '') words) @ nl"

text \<open>Return code, text sent, text shown, text left.\<close>

definition process_command :: "string list \<Rightarrow> string \<Rightarrow> int \<times> string \<times> string \<times> string" where
  "process_command words inp =
     (let (nout, er, out, rest) = reply_loop inp 0 False []
      in (if nout = 0 then - 1 else if er then 1 else 0, command_text words, out, rest))"

section \<open>Commands from the standard input\<close>

definition MAXLINE :: nat where "MAXLINE = 4096"

definition ISCOMMENT :: "string \<Rightarrow> bool" where "ISCOMMENT cl \<longleftrightarrow> cl \<noteq> [] \<and> hd cl = CHR ''#''"
definition ISBLANK :: "string \<Rightarrow> bool" where "ISBLANK cl \<longleftrightarrow> length cl \<le> 1"

definition iscontinuation :: "string \<Rightarrow> bool" where
  "iscontinuation line =
     (let len = length line in
      1 < len \<and> line ! (len - 1) = CHR 0x0A \<and> (line ! (len - 2) = CHR 0x5C \<or> line ! (len - 2) = CHR '';''))"

text \<open>Return code, text sent, text shown, replies left.\<close>

function process_stdin :: "string \<Rightarrow> string \<Rightarrow> string \<Rightarrow> string \<Rightarrow> int \<times> string \<times> string \<times> string" where
  "process_stdin script inp sent out =
     (case fgets MAXLINE script of
        None \<Rightarrow> (0, sent, out, inp)
      | Some (line, script1) \<Rightarrow>
          if ISCOMMENT line \<or> ISBLANK line then process_stdin script1 inp sent out
          else if iscontinuation line then process_stdin script1 inp (sent @ line) out
          else
            let (nout, er, out1, inp1) = reply_loop inp 0 False out in
            if nout = 0 then (1, sent @ line, out1, inp1) else process_stdin script1 inp1 (sent @ line) out1)"
  by pat_completeness auto
termination
  by (relation "measure (\<lambda>(script, inp, sent, out). length script)") (auto simp: MAXLINE_def dest: fgets_shorter(1))

declare process_stdin.simps [simp del]

section \<open>Polling for a state\<close>

text \<open>
  The reads are given as a list of results of \<open>fgets\<close>; a failed read leaves the reply buffer as it was.  On a device one
  reply is read per command, on a socket replies are read up to one that contains the end mark.  The list may
  end before the loop does: then the client is still polling.
\<close>

record poll_state =
  ps_reply :: string
  ps_while :: bool
  ps_until :: bool

definition look :: "string option \<Rightarrow> string option \<Rightarrow> string option \<Rightarrow> poll_state \<Rightarrow> poll_state" where
  "look do_while do_until rd ps =
     (let reply = (case rd of Some r \<Rightarrow> r | None \<Rightarrow> ps_reply ps) in
      \<lparr>ps_reply = reply,
       ps_while = (ps_while ps \<or> (case do_while of Some w \<Rightarrow> strstr reply w | None \<Rightarrow> False)),
       ps_until = (ps_until ps \<or> (case do_until of Some u \<Rightarrow> strstr reply u | None \<Rightarrow> False))\<rparr>)"

fun poll_replies ::
  "bool \<Rightarrow> string option \<Rightarrow> string option \<Rightarrow> string option list \<Rightarrow> poll_state \<Rightarrow> (poll_state \<times> string option list) option" where
  "poll_replies sock do_while do_until [] ps = None"
| "poll_replies sock do_while do_until (rd # rds) ps =
     (let ps1 = look do_while do_until rd ps in
      if \<not> sock \<or> strstr (ps_reply ps1) ''EOF'' then Some (ps1, rds)
      else poll_replies sock do_while do_until rds ps1)"

lemma poll_replies_shorter:
  "poll_replies sock do_while do_until rds ps = Some (ps1, rds1) \<Longrightarrow> length rds1 < length rds"
  by (induction rds arbitrary: ps) (auto simp: Let_def less_Suc_eq split: if_splits)

datatype poll_next = PollSuccess | PollAgain | PollFail

definition poll_decide :: "string option \<Rightarrow> string option \<Rightarrow> poll_state \<Rightarrow> poll_next" where
  "poll_decide do_while do_until ps =
     (if ps_until ps then PollSuccess
      else if do_until = None \<and> \<not> ps_while ps then PollSuccess
      else if (do_while \<noteq> None \<and> ps_while ps) \<or> do_while = None then PollAgain
      else PollFail)"

text \<open>
  The number of commands sent so far is counted; \<open>None\<close> means that the reads given are used up.  On a device the connection is
  opened anew before the next command; \<open>reopen n\<close> is the outcome of that after \<open>n\<close> commands, and on the left the program
  exits with the error number.  Otherwise the result is on the right.
\<close>

function do_poll ::
  "bool \<Rightarrow> (nat \<Rightarrow> int + bool) \<Rightarrow> string option \<Rightarrow> string option \<Rightarrow> string option list \<Rightarrow> string \<Rightarrow> nat \<Rightarrow> ((int + int) \<times> nat) option" where
  "do_poll sock reopen do_while do_until rds reply n =
     (case poll_replies sock do_while do_until rds \<lparr>ps_reply = reply, ps_while = False, ps_until = False\<rparr> of
        None \<Rightarrow> None
      | Some (ps, rds1) \<Rightarrow>
          (case poll_decide do_while do_until ps of
             PollSuccess \<Rightarrow> Some (Inr 0, Suc n)
           | PollFail \<Rightarrow> Some (Inr (- 1), Suc n)
           | PollAgain \<Rightarrow>
               if sock then do_poll sock reopen do_while do_until rds1 (ps_reply ps) (Suc n)
               else
                 (case reopen (Suc n) of
                    Inl e \<Rightarrow> Some (Inl e, Suc n)
                  | Inr sock1 \<Rightarrow> do_poll sock1 reopen do_while do_until rds1 (ps_reply ps) (Suc n))))"
  by pat_completeness auto
termination
  by (relation "measure (\<lambda>(sock, reopen, w, u, rds, reply, n). length rds)") (auto dest: poll_replies_shorter)

declare do_poll.simps [simp del]

section \<open>Options and connection\<close>

datatype popt_opt = OptDevice string | OptBoard int | OptShell int | OptVerbose int | OptVersion
  | OptWhile string | OptUntil string | OptTimeout int

record main_state =
  ms_device :: string
  ms_poll :: bool
  ms_while :: "string option"
  ms_until :: "string option"
  ms_alarm :: "int option"

text \<open>The option loop; \<open>None\<close> is the return after the version text.\<close>

fun main_opts :: "popt_opt list \<Rightarrow> main_state \<Rightarrow> main_state option" where
  "main_opts [] m = Some m"
| "main_opts (OptVersion # os) m = None"
| "main_opts (OptDevice f # os) m = main_opts os (m\<lparr>ms_device := f\<rparr>)"
| "main_opts (OptBoard b # os) m =
     main_opts os (m\<lparr>ms_device := ''/dev/acq32/acq32.'' @ dec_str b @ ''.m'' @ dec_str b\<rparr>)"
| "main_opts (OptShell b # os) m = main_opts os (m\<lparr>ms_device := ''/dev/acq200/acq200.'' @ dec_str b @ ''.rsh''\<rparr>)"
| "main_opts (OptVerbose v # os) m = main_opts os m"
| "main_opts (OptWhile w # os) m = main_opts os (m\<lparr>ms_while := Some w, ms_poll := True\<rparr>)"
| "main_opts (OptUntil u # os) m = main_opts os (m\<lparr>ms_until := Some u, ms_poll := True\<rparr>)"
| "main_opts (OptTimeout t # os) m = main_opts os (m\<lparr>ms_alarm := Some t\<rparr>)"

record connect_env =
  ce_is_socket :: bool
  ce_socket :: int
  ce_connected :: bool
  ce_fdopen :: bool
  ce_fopen :: bool
  ce_errno :: int

text \<open>Left is the argument of \<open>_exit\<close>; right tells whether the connection is a socket.  A failed \<open>connect\<close> is only
reported.\<close>

definition make_connection :: "connect_env \<Rightarrow> int + bool" where
  "make_connection e =
     (if ce_is_socket e then
        if ce_socket e < 0 then Inl (ce_errno e)
        else if \<not> ce_fdopen e then Inl (ce_errno e)
        else Inr (ce_socket e \<noteq> 0)
      else if \<not> ce_fopen e then Inl (ce_errno e)
      else Inr False)"

datatype main_mode = ModeVersion | ModeExit int | ModeHold | ModePoll bool string "string option" "string option"
  | ModeCommand "string list" | ModeStdin

definition FNAME :: string where "FNAME = ''/dev/acq32/acq32.1.m1''"

definition acqcmd_main :: "string \<Rightarrow> string option \<Rightarrow> popt_opt list \<Rightarrow> string list \<Rightarrow> (string \<Rightarrow> connect_env) \<Rightarrow> main_mode" where
  "acqcmd_main argv0 env opts args conn =
     (let device = (case env of Some d \<Rightarrow> d | None \<Rightarrow> FNAME) in
      case main_opts opts \<lparr>ms_device = device, ms_poll = False, ms_while = None, ms_until = None, ms_alarm = None\<rparr> of
        None \<Rightarrow> ModeVersion
      | Some m \<Rightarrow>
          (case make_connection (conn (ms_device m)) of
             Inl e \<Rightarrow> ModeExit e
           | Inr sock \<Rightarrow>
               if argv0 = ''acqcmd-hold'' then ModeHold
               else if ms_poll m then
                 ModePoll sock (case args of [] \<Rightarrow> ''getState'' | c # _ \<Rightarrow> c) (ms_while m) (ms_until m)
               else if args \<noteq> [] then ModeCommand args
               else ModeStdin))"

section \<open>Lemmas on strings\<close>

lemma strncmp_prefix: "strncmp_match s p = prefix p s"
  by (induction s p rule: strncmp_match.induct) auto

lemma strstr_iff: "strstr s pat = sublist pat s"
  by (induction s) (auto simp: strncmp_prefix sublist_Cons_right simp del: strncmp_match.simps)

definition line :: "nat \<Rightarrow> string \<Rightarrow> bool" where
  "line n l \<longleftrightarrow> (\<exists>s. l = s @ nl \<and> CHR 0x0A \<notin> set s) \<and> length l < n"

lemma fgets_upto_line: "CHR 0x0A \<notin> set s \<Longrightarrow> length s < n \<Longrightarrow> fgets_upto n (s @ nl @ rest) = (s @ nl, rest)"
proof (induction s arbitrary: n)
  case Nil
  then show ?case by (cases n) (auto simp: nl_def)
next
  case (Cons c s)
  then show ?case by (cases n) auto
qed

lemma fgets_line: "line n l \<Longrightarrow> fgets n (l @ rest) = Some (l, rest)"
  using fgets_upto_line by (fastforce simp: line_def fgets_def nl_def)

lemma EOF_is_line: "line REPLY_SIZE EOF_LINE"
  by (auto simp: line_def EOF_LINE_def REPLY_SIZE_def nl_def)

lemma reply_loop_lines:
  assumes "\<forall>l \<in> set ls. line REPLY_SIZE l \<and> l \<noteq> EOF_LINE"
  shows "reply_loop (concat ls @ EOF_LINE @ rest) nout er out =
    (nout + length ls, er \<or> (\<exists>l \<in> set ls. prefix ERROR_STRING l), out @ concat ls, rest)"
  using assms
proof (induction ls arbitrary: nout er out)
  case Nil
  have "\<not> strncmp_match EOF_LINE ERROR_STRING" by (simp add: EOF_LINE_def ERROR_STRING_def)
  then show ?case by (subst reply_loop.simps) (simp add: fgets_line [OF EOF_is_line])
next
  case (Cons l ls)
  then have "fgets REPLY_SIZE (l @ concat ls @ EOF_LINE @ rest) = Some (l, concat ls @ EOF_LINE @ rest)"
    by (intro fgets_line) auto
  then show ?case using Cons
    by (subst reply_loop.simps) (auto simp: strncmp_prefix)
qed

definition strip_eol :: "string \<Rightarrow> string" where "strip_eol s = rev (dropWhile is_eol (rev s))"

lemma strip_eol_snoc: "strip_eol (t @ [c]) = (if is_eol c then strip_eol t else t @ [c])" "strip_eol [] = []"
  by (simp_all add: strip_eol_def)

lemma chomp_loop_strip:
  "chomp_loop s (length s) = (if strip_eol s \<noteq> [] then Some (strip_eol s) else if 2 \<le> length s then Some [hd s] else None)"
proof (induction s rule: rev_induct)
  case (snoc c t)
  show ?case
  proof (cases "is_eol c")
    case False
    then show ?thesis by (simp add: strip_eol_snoc nth_append)
  next
    case True
    consider "t = []" | x where "t = [x]" | "2 \<le> length t" by (cases t; cases "tl t") auto
    then show ?thesis
    proof cases
      case 1
      then show ?thesis using True by (simp add: strip_eol_def)
    next
      case 2
      then show ?thesis using True by (simp add: strip_eol_def)
    next
      case 3
      then have "chomp_loop (t @ [c]) (length (t @ [c])) = chomp_loop t (length t)"
        using True by (simp add: nth_append)
      moreover have "strip_eol (t @ [c]) = strip_eol t" "hd (t @ [c]) = hd t" "2 \<le> length (t @ [c])"
        using True 3 by (auto simp: strip_eol_snoc(1) hd_append)
      ultimately show ?thesis using 3 snoc by presburger
    qed
  qed
qed (simp add: strip_eol_snoc)

section \<open>Scripts\<close>

definition skipped :: "string \<Rightarrow> bool" where "skipped l \<longleftrightarrow> ISCOMMENT l \<or> ISBLANK l"
definition answered_line :: "string \<Rightarrow> bool" where "answered_line l \<longleftrightarrow> \<not> skipped l \<and> \<not> iscontinuation l"

definition reply_block :: "string list \<Rightarrow> bool" where
  "reply_block ls \<longleftrightarrow> ls \<noteq> [] \<and> (\<forall>l \<in> set ls. line REPLY_SIZE l \<and> l \<noteq> EOF_LINE)"

definition block_text :: "string list \<Rightarrow> string" where "block_text ls = concat ls @ EOF_LINE"

lemma process_stdin_lines:
  assumes "\<forall>l \<in> set ls. line MAXLINE l" "\<forall>b \<in> set bs. reply_block b" "length bs = length (filter answered_line ls)"
  shows "process_stdin (concat ls) (concat (map block_text bs) @ rest) sent out =
    (0, sent @ concat (filter (\<lambda>l. \<not> skipped l) ls), out @ concat (map concat bs), rest)"
  using assms
proof (induction ls arbitrary: bs sent out)
  case Nil
  then show ?case by (subst process_stdin.simps) (simp add: fgets_def)
next
  case (Cons l ls)
  have f: "fgets MAXLINE (l @ concat ls) = Some (l, concat ls)" using Cons.prems(1) by (intro fgets_line) simp
  consider "skipped l" | "\<not> skipped l" "iscontinuation l" | "answered_line l" by (auto simp: answered_line_def)
  then show ?case
  proof cases
    case 1
    then have "ISCOMMENT l \<or> ISBLANK l" "\<not> answered_line l" by (auto simp: skipped_def answered_line_def)
    then show ?thesis using Cons 1 by (subst process_stdin.simps) (simp add: f)
  next
    case 2
    then have "\<not> ISCOMMENT l" "\<not> ISBLANK l" "\<not> answered_line l" by (auto simp: skipped_def answered_line_def)
    then show ?thesis using Cons 2 by (subst process_stdin.simps) (simp add: f)
  next
    case 3
    then obtain b bs' where bs: "bs = b # bs'" using Cons.prems(3) by (cases bs) auto
    have b: "b \<noteq> []" "\<forall>l \<in> set b. line REPLY_SIZE l \<and> l \<noteq> EOF_LINE" using Cons.prems(2) bs by (auto simp: reply_block_def)
    have r: "reply_loop (concat b @ EOF_LINE @ concat (map block_text bs') @ rest) 0 False out =
        (length b, \<exists>l \<in> set b. prefix ERROR_STRING l, out @ concat b, concat (map block_text bs') @ rest)"
      using reply_loop_lines [OF b(2)] by simp
    have s: "\<not> ISCOMMENT l" "\<not> ISBLANK l" "\<not> iscontinuation l" "\<not> skipped l"
      using 3 by (auto simp: answered_line_def skipped_def)
    have "process_stdin (concat (l # ls)) (concat (map block_text bs) @ rest) sent out =
        process_stdin (concat ls) (concat (map block_text bs') @ rest) (sent @ l) (out @ concat b)"
      using b(1) by (subst process_stdin.simps) (simp add: f s bs block_text_def r)
    then show ?thesis using Cons.IH [of bs' "sent @ l" "out @ concat b"] Cons.prems bs 3 s by simp
  qed
qed

section \<open>Properties\<close>

text \<open>One command.  The words are sent separated by blanks on one line; when the answer is a non-empty list of lines
that fit the reply buffer, ended by the end mark, the lines are shown unchanged and nothing after the mark is read; the
result is 1 exactly when a line starts with the error mark and 0 otherwise.\<close>

theorem process_command_reply:
  assumes "\<forall>l \<in> set ls. line REPLY_SIZE l \<and> l \<noteq> EOF_LINE" and "ls \<noteq> []"
  shows "process_command words (concat ls @ EOF_LINE @ rest) =
    (if \<exists>l \<in> set ls. prefix ERROR_STRING l then 1 else 0, concat (map (\<lambda>w. w @ '' '') words) @ nl, concat ls, rest)"
  using assms by (simp add: process_command_def reply_loop_lines command_text_def)

theorem process_command_reply_witness:
  "process_command [''getState''] (''ACQ32:getState=1 ST_RUN'' @ nl @ ''EOF'' @ nl) =
     (0, ''getState '' @ nl, ''ACQ32:getState=1 ST_RUN'' @ nl, [])"
proof -
  let ?l = "''ACQ32:getState=1 ST_RUN'' @ nl"
  have l: "line REPLY_SIZE ?l" unfolding line_def by (rule conjI, rule exI, rule conjI, rule refl) (simp_all add: nl_def REPLY_SIZE_def)
  have "?l \<noteq> EOF_LINE" "\<not> prefix ERROR_STRING ?l" by (simp_all add: EOF_LINE_def ERROR_STRING_def nl_def)
  with process_command_reply [of "[?l]" "[''getState'']" "[]"] l show ?thesis by (simp add: EOF_LINE_def)
qed

text \<open>C28. A script.  Comments and blank lines are dropped, every other line is sent as it is, and an answer is awaited after
each of them that is not continued by a backslash or semicolon at its end: given one answer for each of those, all
the lines are sent in order, all the answers are shown in order and the result is zero.\<close>

theorem process_stdin_script:
  assumes "\<forall>l \<in> set ls. line MAXLINE l" and "\<forall>b \<in> set bs. reply_block b" and "length bs = length (filter answered_line ls)"
  shows "process_stdin (concat ls) (concat (map block_text bs) @ rest) [] [] =
    (0, concat (filter (\<lambda>l. \<not> skipped l) ls), concat (map concat bs), rest)"
  using process_stdin_lines [OF assms, of rest "[]" "[]"] by simp

theorem process_stdin_script_witness:
  "process_stdin (''# go'' @ nl @ ''a;'' @ nl @ ''b'' @ nl) (''ok'' @ nl @ ''EOF'' @ nl) [] [] =
     (0, ''a;'' @ nl @ ''b'' @ nl, ''ok'' @ nl, [])"
proof -
  have l: "line n (s @ nl)" if "CHR 0x0A \<notin> set s" "length s + 1 < n" for s n
    unfolding line_def using that by (intro conjI exI [of _ s]) (simp_all add: nl_def)
  have "skipped (''# go'' @ nl)" "\<not> skipped (''a;'' @ nl)" "\<not> skipped (''b'' @ nl)" "iscontinuation (''a;'' @ nl)"
    "\<not> iscontinuation (''b'' @ nl)"
    by (simp_all add: skipped_def ISCOMMENT_def ISBLANK_def iscontinuation_def nl_def)
  moreover have "line MAXLINE (''# go'' @ nl)" "line MAXLINE (''a;'' @ nl)" "line MAXLINE (''b'' @ nl)" "line REPLY_SIZE (''ok'' @ nl)"
    by (rule l; simp add: MAXLINE_def REPLY_SIZE_def)+
  moreover have "''ok'' @ nl \<noteq> EOF_LINE" by (simp add: EOF_LINE_def)
  ultimately show ?thesis
    using process_stdin_script [of "[''# go'' @ nl, ''a;'' @ nl, ''b'' @ nl]" "[[''ok'' @ nl]]" "[]"]
    by (simp only: reply_block_def answered_line_def block_text_def EOF_LINE_def list.set ball_simps list.map concat.simps
        append_assoc append_Nil2 filter.simps if_True if_False simp_thms list.size list.distinct)
qed

definition until_hit :: "string option \<Rightarrow> string \<Rightarrow> bool" where
  "until_hit pat r \<longleftrightarrow> (\<exists>u. pat = Some u \<and> sublist u r)"

definition poll_done :: "string option \<Rightarrow> string option \<Rightarrow> string \<Rightarrow> bool" where
  "poll_done do_while do_until r \<longleftrightarrow> until_hit do_until r \<or> ((do_until = None \<or> do_while \<noteq> None) \<and> \<not> until_hit do_while r)"

lemma poll_decide_look:
  "poll_decide w u (look w u (Some r) \<lparr>ps_reply = x, ps_while = False, ps_until = False\<rparr>) =
     (if \<not> poll_done w u r then PollAgain else if until_hit u r \<or> u = None then PollSuccess else PollFail)"
  by (cases w; cases u) (auto simp: poll_decide_def look_def poll_done_def until_hit_def strstr_iff)

text \<open>C30. Polling a device that can be opened again.  One command is sent per reply; polling stops at the first reply that contains the awaited state,
or that no longer contains the state to leave, and succeeds unless an awaited state was given and is not in that
reply.\<close>

theorem do_poll_stops:
  assumes "k < length rs" and "\<forall>i < k. \<not> poll_done w u (rs ! i)" and "poll_done w u (rs ! k)"
    and "\<forall>i < k. reopen (n + Suc i) = Inr False"
  shows "do_poll False reopen w u (map Some rs) reply n = Some (Inr (if until_hit u (rs ! k) \<or> u = None then 0 else - 1), n + Suc k)"
  using assms
proof (induction k arbitrary: rs reply n)
  case 0
  then obtain r rs' where "rs = r # rs'" by (cases rs) auto
  with 0 show ?case by (subst do_poll.simps) (simp add: poll_decide_look)
next
  case (Suc k)
  then obtain r rs' where rs: "rs = r # rs'" by (cases rs) auto
  have "\<not> poll_done w u r" using Suc.prems(2) rs by force
  moreover have "\<forall>i < k. \<not> poll_done w u (rs' ! i)" using Suc.prems(2) rs by force
  moreover have "reopen (Suc n) = Inr False" "\<forall>i < k. reopen (Suc n + Suc i) = Inr False" using Suc.prems(4) by force+
  ultimately show ?case using Suc rs by (subst do_poll.simps) (simp add: poll_decide_look)
qed

theorem do_poll_stops_witness:
  "do_poll False (\<lambda>_. Inr False) None (Some ''ST_STOP'') (map Some [''ST_RUN'', ''ST_RUN'', ''1 ST_STOP'']) [] 0 = Some (Inr 0, 3)"
proof -
  have p: "until_hit (Some ''ST_STOP'') r \<longleftrightarrow> strstr r ''ST_STOP''" for r by (simp add: until_hit_def strstr_iff)
  show ?thesis
    using do_poll_stops [of 2 "[''ST_RUN'', ''ST_RUN'', ''1 ST_STOP'']" None "Some ''ST_STOP''" "\<lambda>_. Inr False" 0 "[]"]
    by (simp add: poll_done_def p less_Suc_eq numeral_2_eq_2)
qed

text \<open>The substring test of the polling loop is the sublist relation.\<close>

theorem strstr_sublist: "strstr s pat = sublist pat s"
  by (rule strstr_iff)

text \<open>C36. Removing line ends.  When something is left, exactly the trailing newlines and carriage returns are removed; of a
string of two or more line ends the first is kept; and on a single line end, or the empty string, the scan runs off
the front of the string.\<close>

theorem chomp_line_ends:
  "chomp s = (let t = rev (dropWhile is_eol (rev s)) in
     if t \<noteq> [] then Some t else if 2 \<le> length s then Some [hd s] else None)"
  using chomp_loop_strip [of s] by (simp add: chomp_def strip_eol_def Let_def)

lemma tr_prefix:
  "k \<le> length s \<Longrightarrow> fold (\<lambda>i t. if t ! i = c1 then t[i := c2] else t) [0..<k] s =
     map (\<lambda>c. if c = c1 then c2 else c) (take k s) @ drop k s"
proof (induction k)
  case (Suc k)
  have "drop k s = s ! k # drop (Suc k) s" using Suc.prems by (simp add: Cons_nth_drop_Suc)
  then show ?case using Suc by (auto simp: take_Suc_conv_app_nth nth_append list_update_append)
qed simp

text \<open>Replacing a character in place is mapping over the string.\<close>

theorem tr_is_map: "tr s c1 c2 = map (\<lambda>c. if c = c1 then c2 else c) s"
  using tr_prefix [of "length s" s] by (simp add: tr_def)


end
