(* ===== verification/Acqcmd_Program.thy ===== *)
theory Acqcmd_Program
  imports Acqcmd Hostdrv_Prelude
begin

text \<open>
  The command line client as a whole (\<^verbatim>\<open>src/acqcmd.c\<close>): the test for a socket, the alarm, and the run of the program from
  its arguments to the exit status that the shell sees.  What the system calls return is the environment of a run; the alarm may or may not
  expire before the work is done.
\<close>

section \<open>Sockets and signals\<close>

definition S_IFMT :: u32 where "S_IFMT = 0xF000"
definition S_IFSOCK :: u32 where "S_IFSOCK = 0xC000"
definition S_IFCHR :: u32 where "S_IFCHR = 0x2000"

text \<open>The result of \<open>stat\<close> is not tested: when it fails the mode is what the stack held.\<close>

definition is_socket :: "u32 \<Rightarrow> u32 option \<Rightarrow> bool" where
  "is_socket stack st = ((case st of Some mode \<Rightarrow> mode | None \<Rightarrow> stack) AND S_IFMT = S_IFSOCK)"

text \<open>The parent sees the lowest eight bits of the value a program exits with.\<close>

definition exit_status :: "int \<Rightarrow> nat" where "exit_status rc = nat (rc mod 256)"

text \<open>\<open>alarm\<close> takes the number of seconds as unsigned; zero cancels.  The handler exits.\<close>

definition alarm_handler :: int where "alarm_handler = - ETIMEDOUT"
definition armed :: "int option \<Rightarrow> bool" where "armed a \<longleftrightarrow> (case a of Some t \<Rightarrow> t \<noteq> 0 | None \<Rightarrow> False)"

section \<open>A run of the program\<close>

record run_env =
  re_stat :: "string \<Rightarrow> u32 option"
  re_stack :: u32
  re_socket :: int
  re_connected :: bool
  re_fdopen :: bool
  re_fopen :: "string \<Rightarrow> bool"
  re_errno :: int
  re_stdin :: string
  re_replies :: string
  re_reads :: "string option list"
  re_buffer :: string
  re_expires :: bool

definition connect_to :: "run_env \<Rightarrow> string \<Rightarrow> connect_env" where
  "connect_to e dev = \<lparr>ce_is_socket = is_socket (re_stack e) (re_stat e dev), ce_socket = re_socket e, ce_connected = re_connected e,
     ce_fdopen = re_fdopen e, ce_fopen = re_fopen e dev, ce_errno = re_errno e\<rparr>"

text \<open>The alarm that is pending when the option loop ends, or returns after the version text.\<close>

fun alarm_of :: "popt_opt list \<Rightarrow> int option \<Rightarrow> int option" where
  "alarm_of [] a = a"
| "alarm_of (OptVersion # os) a = a"
| "alarm_of (OptTimeout t # os) a = alarm_of os (Some t)"
| "alarm_of (_ # os) a = alarm_of os a"

definition main_device :: "string option \<Rightarrow> popt_opt list \<Rightarrow> string" where
  "main_device env opts =
     ms_device (the (main_opts opts \<lparr>ms_device = (case env of Some d \<Rightarrow> d | None \<Rightarrow> FNAME), ms_poll = False, ms_while = None,
       ms_until = None, ms_alarm = None\<rparr>))"

datatype run_result = StillRunning | TimedOut nat | Exited nat string string

text \<open>Exit status, text sent, text shown.  \<open>pause\<close> returns only after a signal, and the only handler exits.\<close>

definition run_mode :: "run_env \<Rightarrow> string \<Rightarrow> main_mode \<Rightarrow> run_result" where
  "run_mode e device mode =
     (case mode of
        ModeVersion \<Rightarrow> Exited (exit_status 0) [] []
      | ModeExit err \<Rightarrow> Exited (exit_status err) [] []
      | ModeHold \<Rightarrow> StillRunning
      | ModePoll sock command w u \<Rightarrow>
          (case do_poll sock (\<lambda>_. make_connection (connect_to e device)) w u (re_reads e) (re_buffer e) 0 of
             None \<Rightarrow> StillRunning
           | Some (rc, n) \<Rightarrow> Exited (exit_status (case rc of Inl err \<Rightarrow> err | Inr r \<Rightarrow> r)) (concat (replicate n (command @ nl))) [])
      | ModeCommand words \<Rightarrow> (case process_command words (re_replies e) of (rc, sent, out, rest) \<Rightarrow> Exited (exit_status rc) sent out)
      | ModeStdin \<Rightarrow> (case process_stdin (re_stdin e) (re_replies e) [] [] of (rc, sent, out, rest) \<Rightarrow> Exited (exit_status rc) sent out))"

definition acqcmd :: "string \<Rightarrow> string option \<Rightarrow> popt_opt list \<Rightarrow> string list \<Rightarrow> run_env \<Rightarrow> run_result" where
  "acqcmd argv0 env opts args e =
     (if armed (alarm_of opts None) \<and> re_expires e then TimedOut (exit_status alarm_handler)
      else run_mode e (main_device env opts) (acqcmd_main argv0 env opts args (connect_to e)))"

section \<open>Lemmas\<close>

lemma alarm_of_main: "main_opts opts m = Some m' \<Longrightarrow> ms_alarm m' = alarm_of opts (ms_alarm m)"
  by (induction opts m rule: main_opts.induct) auto

lemma exit_status_values [simp]: "exit_status 0 = 0" "exit_status 1 = 1" "exit_status (- 1) = 255"
  by (simp_all add: exit_status_def)

text \<open>The mode of an invocation that polls nothing, once the connection is there.\<close>

definition plain_opts :: "popt_opt list \<Rightarrow> bool" where
  "plain_opts opts \<longleftrightarrow> (\<forall>opt \<in> set opts. case opt of OptVersion \<Rightarrow> False | OptWhile _ \<Rightarrow> False | OptUntil _ \<Rightarrow> False | _ \<Rightarrow> True)"

lemma plain_main_opts:
  assumes "plain_opts opts"
  shows "\<exists>m'. main_opts opts m = Some m' \<and> ms_poll m' = ms_poll m"
  using assms by (induction opts m rule: main_opts.induct) (auto simp: plain_opts_def)

lemma plain_mode:
  assumes "plain_opts opts" "argv0 \<noteq> ''acqcmd-hold''" "make_connection (connect_to e (main_device env opts)) = Inr sock"
  shows "acqcmd_main argv0 env opts args (connect_to e) = (if args \<noteq> [] then ModeCommand args else ModeStdin)"
proof -
  let ?m = "\<lparr>ms_device = (case env of Some d \<Rightarrow> d | None \<Rightarrow> FNAME), ms_poll = False, ms_while = None, ms_until = None, ms_alarm = None\<rparr>"
  obtain m' where m': "main_opts opts ?m = Some m'" "\<not> ms_poll m'" using plain_main_opts [OF assms(1), of ?m] by auto
  have "main_device env opts = ms_device m'" using m'(1) by (simp add: main_device_def)
  with assms m' show ?thesis by (simp add: acqcmd_main_def)
qed

section \<open>Properties\<close>


text \<open>
  The timeout.  If the alarm of the timeout option expires before the program has finished, the status is 146 whatever the arguments and
  the mode; an alarm of zero seconds, or none, cannot expire, and then the holding invocation with a connection never ends.
\<close>

theorem acqcmd_timeout:
  "acqcmd argv0 env opts args (e\<lparr>re_expires := True\<rparr>) =
     (if armed (alarm_of opts None) then TimedOut 146 else acqcmd argv0 env opts args (e\<lparr>re_expires := False\<rparr>)) \<and>
   (plain_opts opts \<and> make_connection (connect_to e (main_device env opts)) = Inr sock \<and> \<not> armed (alarm_of opts None) \<longrightarrow>
      acqcmd ''acqcmd-hold'' env opts args e = StillRunning)"
proof (intro conjI impI)
  have c: "connect_to (e\<lparr>re_expires := x\<rparr>) = connect_to e" for x by (rule ext) (simp add: connect_to_def)
  then have r: "run_mode (e\<lparr>re_expires := x\<rparr>) dev mode = run_mode e dev mode" for x dev mode
    by (simp add: run_mode_def split: main_mode.split)
  show "acqcmd argv0 env opts args (e\<lparr>re_expires := True\<rparr>) =
     (if armed (alarm_of opts None) then TimedOut 146 else acqcmd argv0 env opts args (e\<lparr>re_expires := False\<rparr>))"
    by (simp add: acqcmd_def c r exit_status_def alarm_handler_def ETIMEDOUT_def)
next
  assume a: "plain_opts opts \<and> make_connection (connect_to e (main_device env opts)) = Inr sock \<and> \<not> armed (alarm_of opts None)"
  let ?m = "\<lparr>ms_device = (case env of Some d \<Rightarrow> d | None \<Rightarrow> FNAME), ms_poll = False, ms_while = None, ms_until = None, ms_alarm = None\<rparr>"
  obtain m' where m': "main_opts opts ?m = Some m'" using plain_main_opts [of opts ?m] a by auto
  then have "main_device env opts = ms_device m'" by (simp add: main_device_def)
  with a m' show "acqcmd ''acqcmd-hold'' env opts args e = StillRunning"
    by (simp add: acqcmd_def run_mode_def acqcmd_main_def)
qed

definition example_run :: run_env where
  "example_run = \<lparr>re_stat = (\<lambda>_. Some (S_IFCHR OR 0x1b6)), re_stack = 0, re_socket = - 1, re_connected = False, re_fdopen = False,
     re_fopen = (\<lambda>dev. dev = ''/dev/acq200/acq200.2.rsh''), re_errno = 2, re_stdin = ''setX'' @ nl,
     re_replies = (ERROR_STRING @ '' setX'' @ nl) @ EOF_LINE, re_reads = [], re_buffer = [], re_expires = False\<rparr>"

lemma example_connects: "make_connection (connect_to example_run (main_device None [OptShell 2])) = Inr False"
proof -
  have "main_device None [OptShell 2] = ''/dev/acq200/acq200.2.rsh''" by code_simp
  then show ?thesis by (simp add: make_connection_def connect_to_def is_socket_def example_run_def S_IFMT_def S_IFSOCK_def S_IFCHR_def)
qed


theorem acqcmd_timeout_witness:
  "acqcmd ''acqcmd-hold'' None [OptShell 2] [] example_run = StillRunning \<and>
   acqcmd ''acqcmd-hold'' None [OptShell 2, OptTimeout 5] [] (example_run\<lparr>re_expires := True\<rparr>) = TimedOut 146"
  using acqcmd_timeout [of "''acqcmd-hold''" None "[OptShell 2, OptTimeout 5]" "[]" example_run]
    acqcmd_timeout [of "''acqcmd-hold''" None "[OptShell 2]" "[]" example_run False] example_connects
  by (simp add: plain_opts_def armed_def)

end
