(* ===== verification/Test_Programs.thy ===== *)
theory Test_Programs
  imports Imask Paths Printf
begin

text \<open>
  The two test programs of the repository: the interrupt masking test (\<^verbatim>\<open>src/int-disable-test.c\<close>), which runs a busy loop with and
  without masked interrupt lines, on the driver's \<open>imask\<close> file; and the kernel module that finds the largest block
  of pages (\<^verbatim>\<open>src/hw.c\<close>).
\<close>

section \<open>The interrupt masking test\<close>

definition NOMASK :: string where "NOMASK = ''00000000''"

record test_config =
  tc_slot :: int
  tc_loopcount :: int
  tc_mask :: string

definition IN_RANGE :: "int \<Rightarrow> int \<Rightarrow> int \<Rightarrow> bool" where "IN_RANGE x l r \<longleftrightarrow> l \<le> x \<and> x \<le> r"

text \<open>\<open>None\<close> is the failed assertion on the slot, the left the exit after the usage line; \<open>argv\<close> are the arguments after the name.\<close>

definition init_defaults :: "string option \<Rightarrow> string list \<Rightarrow> (int + test_config) option" where
  "init_defaults slot_env argv =
     (let slot = (case slot_env of Some s \<Rightarrow> atoi s | None \<Rightarrow> 2) in
      if slot_env \<noteq> None \<and> \<not> IN_RANGE slot 2 10 then None
      else
        (case argv of
           [] \<Rightarrow> Some (Inl 1)
         | m # rest \<Rightarrow> Some (Inr \<lparr>tc_slot = slot, tc_loopcount = (case rest of [] \<Rightarrow> 1 | l # _ \<Rightarrow> atoi l), tc_mask = m\<rparr>)))"

text \<open>What the program does, in order: shell commands, the busy loop with its count, and writes to the mask file with their effect.\<close>

datatype test_event = System string | Busy int | Store "imask_event list"

definition dump_state :: "string \<Rightarrow> string \<Rightarrow> test_event" where
  "dump_state m name = System (''cp /proc/interrupts irqstat.'' @ m @ ''.'' @ name)"

definition run_test :: "int \<Rightarrow> string \<Rightarrow> test_event list" where
  "run_test loopcount m = [dump_state m ''before'', Busy loopcount, dump_state m ''after'']"

text \<open>The mask file must open; the mask is written as a line.\<close>

definition set_mask :: "bool \<Rightarrow> nat \<Rightarrow> int \<Rightarrow> string \<Rightarrow> imask_dev \<Rightarrow> (imask_dev \<times> test_event) option" where
  "set_mask opens NR_IRQS debug m d =
     (if \<not> opens then None
      else
        (case store_imask NR_IRQS debug (Some d) (m @ [CHR 0x0A]) of
           Some (rc, Some d1, evs) \<Rightarrow> Some (d1, Store evs)
         | _ \<Rightarrow> None))"

definition int_test_main :: "bool \<Rightarrow> nat \<Rightarrow> int \<Rightarrow> test_config \<Rightarrow> imask_dev \<Rightarrow> (imask_dev \<times> test_event list) option" where
  "int_test_main opens NR_IRQS debug c d =
     do { (d1, e1) \<leftarrow> set_mask opens NR_IRQS debug (tc_mask c) d;
          (d2, e2) \<leftarrow> set_mask opens NR_IRQS debug NOMASK d1;
          Some (d2, run_test (tc_loopcount c) NOMASK @ [e1] @ run_test (tc_loopcount c) (tc_mask c) @ [e2]) }"

section \<open>The page allocation test\<close>

text \<open>The orders tried and whether they succeeded.\<close>

fun get_max :: "(nat \<Rightarrow> int) \<Rightarrow> nat \<Rightarrow> (nat \<times> bool) list" where
  "get_max pages 0 = [(0, pages 0 \<noteq> 0)]"
| "get_max pages (Suc n) = (if pages (Suc n) \<noteq> 0 then [(Suc n, True)] else (Suc n, False) # get_max pages n)"

definition hello_init :: "(nat \<Rightarrow> int) \<Rightarrow> (nat \<Rightarrow> int) \<Rightarrow> int \<times> (nat \<times> bool) list" where
  "hello_init pages1 pages2 = (0, get_max pages1 12 @ get_max pages2 12)"

section \<open>Lemmas\<close>

lemma get_max_nonempty: "get_max pages n \<noteq> []"
  by (cases n) auto

lemma hex_line_mask:
  assumes "\<forall>c \<in> set m. isxdigit c"
  shows "takeWhile isxdigit (take n (cstr (m @ [CHR 0x0A]))) = take n m"
proof -
  have x: "\<not> isxdigit NUL" "\<not> isxdigit CHR 0x0A" by (simp_all add: isxdigit_def xdigit_value_def char_code_def NUL_def)
  then have "\<forall>c \<in> set (m @ [CHR 0x0A]). c \<noteq> NUL" using assms by (auto simp: NUL_def)
  then have "cstr (m @ [CHR 0x0A]) = m @ [CHR 0x0A]" unfolding cstr_def by (rule takeWhile_eq_all_conv [THEN iffD2])
  moreover have "takeWhile isxdigit (take n m @ xs) = take n m" if "xs = [] \<or> hd xs = CHR 0x0A" for xs
  proof -
    have "takeWhile isxdigit (take n m @ xs) = take n m @ takeWhile isxdigit xs"
      by (rule takeWhile_append2) (use assms in \<open>auto dest: in_set_takeD\<close>)
    then show ?thesis using that x(2) by (cases xs) auto
  qed
  moreover have "take (n - length m) [CHR 0x0A] = [] \<or> hd (take (n - length m) [CHR 0x0A]) = CHR 0x0A"
    by (cases "n - length m") auto
  ultimately show ?thesis by (simp only: take_append)
qed

lemma hexval_zeros: "hexval (replicate n CHR ''0'') = 0"
  by (induction n) (simp_all add: hexval_def xdigit_value_def char_code_def)

lemma hexval_nomask: "hexval (take n NOMASK) = 0"
proof -
  have z: "NOMASK = replicate 8 CHR ''0''" by (simp add: NOMASK_def numeral_eq_Suc)
  show ?thesis unfolding z take_replicate by (rule hexval_zeros)
qed

text \<open>Writing a line of hexadecimal digits to the mask file of a device whose lock is free.\<close>

lemma set_mask_effect:
  assumes "debug \<le> 2" "imask_inv NR_IRQS d" "\<not> bkl_lock d" "\<forall>c \<in> set m. isxdigit c"
  shows "\<exists>d' evs. set_mask True NR_IRQS debug m d = Some (d', Store evs) \<and> imask_inv NR_IRQS d' \<and> \<not> bkl_lock d' \<and>
    (\<forall>j < 4 * (NR_IRQS div 4). let r = bit (hexval (take (NR_IRQS div 4) m)) j in
       active_line (imask_a d') (NR_IRQS div 4) j = r \<and>
       irq_depth evs (int j) = (if r then 1 else if active_line (imask_a d) (NR_IRQS div 4) j then -1 else 0))"
proof -
  have "\<not> isxdigit CHR ''L''" by (simp add: isxdigit_def char_code_def)
  then have "hd (m @ [CHR 0x0A]) \<noteq> CHR ''L''" using assms(4) by (cases m) auto
  then have "\<not> imask_command d (m @ [CHR 0x0A])"
    using assms(3) by (cases "m @ [CHR 0x0A]") (auto simp: imask_command_def strncmp_eq_def)
  from store_imask_mask [OF assms(1,2) this] show ?thesis
    unfolding hex_line_mask [OF assms(4)] using assms(3)
    by (auto simp: set_mask_def mask_lines_def irq_depth_lines Let_def)
qed

section \<open>Properties\<close>

text \<open>The masking test leaves the machine as it found it.  On a device that masks nothing and whose lock is free, every line of the
mask is disabled once while the second busy loop runs and no other line is; at the end every line has been enabled as
often as disabled, and the driver remembers none.\<close>

theorem int_test_restores:
  assumes "debug \<le> 2" "imask_inv NR_IRQS d" "\<not> bkl_lock d" "\<forall>c \<in> set (tc_mask c). isxdigit c"
    and "\<forall>j < 4 * (NR_IRQS div 4). \<not> active_line (imask_a d) (NR_IRQS div 4) j"
  shows "\<exists>d' e1 e2. int_test_main True NR_IRQS debug c d =
      Some (d', run_test (tc_loopcount c) NOMASK @ [Store e1] @ run_test (tc_loopcount c) (tc_mask c) @ [Store e2]) \<and>
    (\<forall>j < 4 * (NR_IRQS div 4).
       irq_depth e1 (int j) = (if bit (hexval (take (NR_IRQS div 4) (tc_mask c))) j then 1 else 0) \<and>
       irq_depth (e1 @ e2) (int j) = 0 \<and> \<not> active_line (imask_a d') (NR_IRQS div 4) j)"
proof -
  obtain d1 e1 where 1: "set_mask True NR_IRQS debug (tc_mask c) d = Some (d1, Store e1)" "imask_inv NR_IRQS d1" "\<not> bkl_lock d1"
      "\<forall>j < 4 * (NR_IRQS div 4). active_line (imask_a d1) (NR_IRQS div 4) j = bit (hexval (take (NR_IRQS div 4) (tc_mask c))) j \<and>
         irq_depth e1 (int j) = (if bit (hexval (take (NR_IRQS div 4) (tc_mask c))) j then 1 else 0)"
    using set_mask_effect [OF assms(1-4)] assms(5) by (auto simp: Let_def)
  have "\<forall>x \<in> set NOMASK. isxdigit x" by (simp add: NOMASK_def isxdigit_def char_code_def)
  from set_mask_effect [OF assms(1) 1(2,3) this] obtain d2 e2 where
    2: "set_mask True NR_IRQS debug NOMASK d1 = Some (d2, Store e2)"
      "\<forall>j < 4 * (NR_IRQS div 4). \<not> active_line (imask_a d2) (NR_IRQS div 4) j \<and>
         irq_depth e2 (int j) = (if active_line (imask_a d1) (NR_IRQS div 4) j then -1 else 0)"
    by (auto simp: Let_def hexval_nomask)
  show ?thesis using 1 2 by (intro exI [of _ d2] exI [of _ e1] exI [of _ e2]) (simp add: int_test_main_def)
qed

theorem int_test_restores_witness:
  "let d = \<lparr>imask = [NUL, NUL, NUL], imask_a = [0, 0, 0], bkl_lock = False, bkl_is_locked = 0\<rparr>;
       c = \<lparr>tc_slot = 2, tc_loopcount = 1, tc_mask = ''3f''\<rparr> in
   \<exists>d' e1 e2. int_test_main True 8 0 c d =
      Some (d', run_test 1 NOMASK @ [Store e1] @ run_test 1 ''3f'' @ [Store e2]) \<and>
    (\<forall>j < 4 * (8 div 4). irq_depth e1 (int j) = (if bit (hexval (take (8 div 4) ''3f'')) j then 1 else 0) \<and>
       irq_depth (e1 @ e2) (int j) = 0 \<and> \<not> active_line (imask_a d') (8 div 4) j)"
proof -
  let ?d = "\<lparr>imask = [NUL, NUL, NUL], imask_a = [0, 0, 0], bkl_lock = False, bkl_is_locked = 0\<rparr>"
  let ?c = "\<lparr>tc_slot = 2, tc_loopcount = 1, tc_mask = ''3f''\<rparr>"
  have "imask_inv 8 ?d" by (simp add: imask_inv_def)
  moreover have "\<forall>j < 4 * (8 div 4). \<not> active_line (imask_a ?d) (8 div 4) j"
    by (auto simp: active_line_def nth_Cons split: nat.split)
  moreover have "\<forall>x \<in> set (tc_mask ?c). isxdigit x" by (simp add: isxdigit_def char_code_def)
  ultimately show ?thesis using int_test_restores [of 0 8 ?d ?c] by (simp add: Let_def)
qed

text \<open>The page allocation test finds what the driver's allocator finds: its last line names the order of the buffer that the driver
would get from the same kernel, or reports that not even one page was free.\<close>

theorem get_max_agrees:
  "last (get_max pages n) = (case get_max_buf pages b n of Some b' \<Rightarrow> (order b', True) | None \<Rightarrow> (0, False))"
  by (induction n) (auto simp: get_max_nonempty)

end
