(* ===== verification/Local_Macros.thy ===== *)
theory Local_Macros
  imports Acqcmd Test_Programs
begin

text \<open>
  The helper macros of the client programs (\<^verbatim>\<open>src/local.h\<close>): comparisons of strings, arithmetic on \<open>int\<close> at its
  width of 32 bits, and the logging macros as the text they put on the screen and into the system log.  A format with its arguments is a text
  here.
\<close>

section \<open>Strings\<close>

definition STREQ :: "string \<Rightarrow> string \<Rightarrow> bool" where "STREQ s1 s2 \<longleftrightarrow> s1 = s2"
definition STREQN :: "string \<Rightarrow> string \<Rightarrow> nat \<Rightarrow> bool" where "STREQN s1 s2 n \<longleftrightarrow> take n s1 = take n s2"
definition STREQNL :: "string \<Rightarrow> string \<Rightarrow> bool" where "STREQNL s1 s2 \<longleftrightarrow> STREQN s1 s2 (length s2)"
definition ATOL :: "string \<Rightarrow> u32" where "ATOL s1 = strtoul0 s1"

section \<open>Arithmetic\<close>

definition CLAMP :: "u32 \<Rightarrow> u32 \<Rightarrow> u32 \<Rightarrow> u32" where
  "CLAMP xx ll rr = (if sint xx < sint ll then ll else if sint rr < sint xx then rr else xx)"
definition SWAP :: "'a \<times> 'a \<times> 'a \<Rightarrow> 'a \<times> 'a \<times> 'a" where "SWAP = (\<lambda>(aa, bb, tt). (bb, aa, aa))"
definition MAX_of :: "u32 \<Rightarrow> u32 \<Rightarrow> u32" where "MAX_of aa bb = (if sint bb \<le> sint aa then aa else bb)"
definition MIN_of :: "u32 \<Rightarrow> u32 \<Rightarrow> u32" where "MIN_of aa bb = (if sint aa \<le> sint bb then aa else bb)"
definition ABS :: "u32 \<Rightarrow> u32" where "ABS aa = (if 0 < sint aa then aa else - aa)"
definition SIGN :: "u32 \<Rightarrow> int" where "SIGN aa = (if 0 \<le> sint aa then 1 else - 1)"

section \<open>Logging\<close>

definition LOG_ERR :: nat where "LOG_ERR = 3"
definition LOG_INFO :: nat where "LOG_INFO = 6"
definition LOG_DEBUG :: nat where "LOG_DEBUG = 7"

definition ACQ200_SYSLOG_SCREEN :: nat where "ACQ200_SYSLOG_SCREEN = 1"
definition ACQ200_SYSLOG_SYSLOG :: nat where "ACQ200_SYSLOG_SYSLOG = 2"
definition ACQ200_SYSLOG_MODE :: nat where "ACQ200_SYSLOG_MODE = (ACQ200_SYSLOG_SCREEN OR ACQ200_SYSLOG_SYSLOG)"

datatype log_output = Screen string | Syslog nat string

definition SYSLOG_SCREEN :: "nat \<Rightarrow> nat \<Rightarrow> string \<Rightarrow> log_output list" where
  "SYSLOG_SCREEN mode pri text = (if mode AND ACQ200_SYSLOG_SCREEN \<noteq> 0 then [Screen text] else [])"
definition SYSLOG_SYSLOG :: "nat \<Rightarrow> nat \<Rightarrow> string \<Rightarrow> log_output list" where
  "SYSLOG_SYSLOG mode pri text = (if mode AND ACQ200_SYSLOG_SYSLOG \<noteq> 0 then [Syslog pri text] else [])"
definition ACQ200_SYSLOG :: "nat \<Rightarrow> nat \<Rightarrow> string \<Rightarrow> log_output list" where
  "ACQ200_SYSLOG mode pri text = SYSLOG_SCREEN mode pri text @ SYSLOG_SYSLOG mode pri text"

definition info :: "nat \<Rightarrow> string \<Rightarrow> string \<Rightarrow> log_output list" where
  "info mode FN text = ACQ200_SYSLOG mode LOG_INFO (FN @ '' '' @ text @ nl)"
definition err :: "nat \<Rightarrow> string \<Rightarrow> string \<Rightarrow> log_output list" where
  "err mode FN text = ACQ200_SYSLOG mode LOG_ERR (FN @ '' ERROR:'' @ text @ nl)"
definition dbg :: "nat \<Rightarrow> int \<Rightarrow> int \<Rightarrow> string \<Rightarrow> string \<Rightarrow> log_output list" where
  "dbg mode acq200_debug lvl FN text =
     (if lvl \<le> acq200_debug then
        if lvl \<le> 1 then ACQ200_SYSLOG mode LOG_DEBUG (FN @ '' '' @ text @ nl)
        else [Screen (''deb('' @ dec_str lvl @ '') '' @ FN @ '' '' @ text @ nl)]
      else [])"
definition dbgnl :: "nat \<Rightarrow> int \<Rightarrow> int \<Rightarrow> string \<Rightarrow> string \<Rightarrow> log_output list" where
  "dbgnl mode acq200_debug lvl FN text =
     (if lvl \<le> acq200_debug then
        (if lvl \<le> 1 then ACQ200_SYSLOG mode LOG_DEBUG (FN @ '' '' @ text) else []) @
        [Screen (''deb('' @ dec_str lvl @ '') '' @ FN @ '' '' @ text)]
      else [])"

definition on_screen :: "log_output list \<Rightarrow> nat" where "on_screen os = length (filter (\<lambda>x. case x of Screen _ \<Rightarrow> True | _ \<Rightarrow> False) os)"
definition in_log :: "log_output list \<Rightarrow> nat" where "in_log os = length (filter (\<lambda>x. case x of Syslog _ _ \<Rightarrow> True | _ \<Rightarrow> False) os)"

section \<open>Properties\<close>

text \<open>The prefix comparison of the command line client is \<open>STREQNL\<close>.\<close>

theorem streqnl_prefix: "STREQNL s1 s2 \<longleftrightarrow> prefix s2 s1"
  by (auto simp: STREQNL_def STREQN_def prefix_def) (metis append_take_drop_id)

text \<open>Clamping puts a number into the range and leaves one that is in it; the absolute value is one, except for the smallest number, which
stays negative; a number is the absolute value with its sign.\<close>

theorem local_arithmetic:
  assumes "sint ll \<le> sint rr"
  shows "sint ll \<le> sint (CLAMP x ll rr) \<and> sint (CLAMP x ll rr) \<le> sint rr \<and>
    (sint ll \<le> sint x \<and> sint x \<le> sint rr \<longrightarrow> CLAMP x ll rr = x) \<and> CLAMP x ll rr = MIN_of (MAX_of x ll) rr \<and>
    (if a = 0x80000000 then ABS a = a \<and> sint a < 0 else sint (ABS a) = \<bar>sint a\<bar>)"
proof -
  have "sint (ABS a) = \<bar>sint a\<bar>" if "a \<noteq> 0x80000000"
  proof -
    have "sint a \<noteq> - (2 ^ 31)"
    proof
      assume e: "sint a = - (2 ^ 31)"
      have "a = of_int (sint a)" by simp
      with that show False unfolding e by simp
    qed
    then have "- (2 ^ 31) < sint a" "sint a < 2 ^ 31" using sint_ge [of a] sint_lt [of a] by simp_all
    then have "sint (- a) = - sint a"
      using signed_take_bit_int_eq_self [of 31 "- sint a"] by (simp add: signed_take_bit_minus sint_word_ariths)
    then show ?thesis by (simp add: ABS_def)
  qed
  then show ?thesis using assms by (auto simp: CLAMP_def MIN_of_def MAX_of_def ABS_def)
qed

text \<open>With the default mode every message of \<open>info\<close> and \<open>err\<close> goes to the screen and to the log.  A debug message appears if and
only if its level is reached, one time on the screen, and in the log only up to level 1; the variant without line end shows a message
of level 1 or less twice.\<close>

theorem debug_output:
  "on_screen (info ACQ200_SYSLOG_MODE fn t) = 1 \<and> in_log (info ACQ200_SYSLOG_MODE fn t) = 1 \<and>
   on_screen (err ACQ200_SYSLOG_MODE fn t) = 1 \<and> in_log (err ACQ200_SYSLOG_MODE fn t) = 1 \<and>
   on_screen (dbg ACQ200_SYSLOG_MODE d lvl fn t) = (if lvl \<le> d then 1 else 0) \<and>
   in_log (dbg ACQ200_SYSLOG_MODE d lvl fn t) = (if lvl \<le> d \<and> lvl \<le> 1 then 1 else 0) \<and>
   on_screen (dbgnl ACQ200_SYSLOG_MODE d lvl fn t) = (if lvl \<le> d then if lvl \<le> 1 then 2 else 1 else 0)"
  by (simp add: info_def err_def dbg_def dbgnl_def ACQ200_SYSLOG_def SYSLOG_SCREEN_def SYSLOG_SYSLOG_def ACQ200_SYSLOG_MODE_def
      ACQ200_SYSLOG_SCREEN_def ACQ200_SYSLOG_SYSLOG_def on_screen_def in_log_def)

end
