(* ===== verification/Spec2Isabelle.thy ===== *)
theory Spec2Isabelle
  imports Transport Stream_Client Attributes Parameters Char_Device Minors Registers Bus_Markers Bus_Records Ht_Program Acqcmd_Program
    Local_Macros
begin

text \<open>
  \<^bold>\<open>A verification of the D-TACQ acq200 host driver and its clients\<close>

  The driver lets a host use intelligent data acquisition cards on its PCI bus.  A card and its driver talk in three ways:
  four mailbox registers carry single commands and queries; message frames (I2O) carry requests for data, whose
  answers the card writes by DMA into buffers of the host; and the interrupt of the card announces frames and
  doorbells.  Clients reach the card through device files whose minor number selects the operations, through memory mappings of the
  buffers, and through attribute files.  Two clients are part of the program: a command line client and a streaming client.

  \<^bold>\<open>The theories, in the order of the code they model\<close>

  \<^item> \<open>Hostdrv_Prelude\<close>: names of the machine types, error numbers, kernel list primitives, shared lemmas.  \<open>Printf\<close>: the
    conversions between numbers and text of the C library.
  \<^item> \<open>Stream_Buffer\<close> (\<^verbatim>\<open>src/streambuf.h\<close>): the ring between interrupt handler and tasklet, with a get that can be taken
    back; one definition per inline function.  The ring refines a bounded queue that remembers the entry taken last; the locale
    \<open>putback_fifo\<close> states that interface and is interpreted on both rings.
  \<^item> \<open>Bus_Protocol\<close>, \<open>Bus_Codes\<close>, \<open>Bus_Modes\<close>, \<open>Bus_Records\<close>, \<open>Bus_Markers\<close> (\<^verbatim>\<open>src/acq32busprot.h\<close>): command words, message types, structures
    and ids; the codes of all commands and queries with their options; the control words of the two streaming modes, data formats
    and request flags; enumerations and records; markers, which no request of the driver meets by accident.  The locales \<open>bit_field\<close> and \<open>word_layout\<close> state what a field of a word and
    a division of a word into parts promise, and are interpreted on the fields and words of the header.
  \<^item> \<open>Irq_Mask\<close>, \<open>Imask\<close> (\<^verbatim>\<open>src/acq200_utils.c\<close>, the \<open>imask\<close> file of \<^verbatim>\<open>src/acq200_if.c\<close>): the mask iterator and the masking of
    interrupt lines by a hexadecimal string; the calls made to the kernel are recorded and shown to be exactly the right ones.
  \<^item> \<open>Io_Device\<close> (\<^verbatim>\<open>src/acq200.h\<close>): the structures of the transport.  Objects behind pointers are numbered entries of tables.
  \<^item> \<open>Buf_Pool\<close> (\<^verbatim>\<open>src/acq200_bigbuf_alloc.c\<close>): the pools of DMA mappings and return command handlers.  The locale
    \<open>item_pool\<close> gives ownership over any sequence of allocations and releases, interpreted on both pools.
  \<^item> \<open>I2o_Core\<close>, \<open>I2o_Inv\<close>, \<open>I2o_Bridge\<close>, \<open>I2o_Write\<close> (\<^verbatim>\<open>src/acq200_i2o.c\<close>, \<^verbatim>\<open>src/rch.h\<close>): requests, the list of outstanding
    handlers, dispatch of answers in the bottom half, and the file operations read, write, A/B buffers and release.  The
    invariant says that every listed handler is reserved and owns its mapping alone; every operation is shown to keep it and to
    return what it took.
  \<^item> \<open>Wire\<close> (\<^verbatim>\<open>src/acq200_i2o.c\<close>, the copy in \<open>acq200_sendI2O_kbuf\<close>): messages as bytes in the card's memory.  The
    locale \<open>codec\<close> is interpreted on words, header, request record and notification.
  \<^item> \<open>Isr\<close> (\<^verbatim>\<open>src/acq200.c\<close>, interrupt routine; \<^verbatim>\<open>src/acq200_i2o.c\<close>, backstop thread): an \<open>inductive\<close> step relation of card,
    interrupt, bottom half and backstop, over which frames are conserved.
  \<^item> \<open>Transport\<close>: the theories of the transport put together, with the firmware of the card as an argument; a read and a write are followed through
    the memory of the card, the frame of the answer, the interrupt, the ring and the bottom half.
  \<^item> \<open>Mailbox\<close> (\<^verbatim>\<open>src/acq200.c\<close>, \<^verbatim>\<open>src/acq200_core.c\<close>, \<^verbatim>\<open>src/acq200_ioctl.h\<close>): the ioctl, the write-block-read exchange, commands
    and queries.  \<open>Ioctl_Numbers\<close> (\<^verbatim>\<open>src/acq200_ioctl.h\<close>, \<^verbatim>\<open>src/acq32ioctl.h\<close>): the numbers of the calls and the two switches on them.
    \<open>Registers\<close> (\<^verbatim>\<open>src/acq200.h\<close>): the registers as the driver and as a client address them.
  \<^item> \<open>Paths\<close> (\<^verbatim>\<open>src/acq200.c\<close>, \<^verbatim>\<open>src/acq200_minors.h\<close>): open, release and the A/B ioctl over the joint state of transport
    and mailboxes, as a step relation of any number of paths; the locale \<open>mutex\<close> is interpreted on the busy semaphore.
    \<open>Minors\<close>: all 256 minor numbers.  \<open>Char_Device\<close>: read and write of the files that are no bridges, and the tables of operations.
  \<^item> \<open>Devices\<close> (\<^verbatim>\<open>src/acq200.c\<close>, \<^verbatim>\<open>src/acq200_mmap.c\<close>, \<^verbatim>\<open>src/acq200_if.c\<close>): probe, initialisation and removal of cards and the device
    table; the locale \<open>card_search\<close> is interpreted on the three searches.  \<open>Driver_Module\<close>: loading and unloading of the module around them, as a step relation whose
    reachable states are well formed.
  \<^item> \<open>Mmap\<close> (\<^verbatim>\<open>src/acq200_mmap.c\<close>): the mappings of buffers and registers.  \<open>Sysfs\<close> and
    \<open>Pool_Listing\<close> (\<^verbatim>\<open>src/acq200_if.c\<close>, \<^verbatim>\<open>src/acq200_bigbuf_alloc.c\<close>): what the attribute files show.  \<open>Attributes\<close>: their declarations, the way from a
    file to its operation, and the variant for older kernels.
  \<^item> \<open>Kernel_Log\<close> (\<^verbatim>\<open>src/acq200_debug.h\<close> and the functions that format data for the log) and \<open>Parameters\<close> (the module parameters of
    \<^verbatim>\<open>src/acq200.c\<close>).
  \<^item> \<open>Htstream\<close> (\<^verbatim>\<open>src/htstream.c\<close>): the streaming client, and \<open>Stream_Client\<close>: its loop composed with the driver's A/B ioctl;
    \<open>Ht_Program\<close>: the workers and the program from environment to exit code.
    \<open>Acqcmd\<close> (\<^verbatim>\<open>src/acqcmd.c\<close>, \<^verbatim>\<open>src/local.h\<close>): the command line client, and \<open>Acqcmd_Program\<close>: its run from
    arguments to exit status.  \<open>Local_Macros\<close> (\<^verbatim>\<open>src/local.h\<close>): the helper macros of the clients.
  \<^item> \<open>Test_Programs\<close> (\<^verbatim>\<open>src/int-disable-test.c\<close>, \<^verbatim>\<open>src/hw.c\<close>): the test of interrupt masking, on the model of the mask file, and the
    test of page allocation.

  \<^bold>\<open>How the code is read\<close>

  A C function is a HOL function on the state it changes.  A result of \<open>None\<close> stands for what the kernel or the machine punishes: an
  access through a null or freed pointer, unlinking an entry twice, a failed assertion, or, for semaphores, a wait without
  end.  Error numbers are negative integers as in the code.  What the card, other processes, user memory and the kernel contribute
  (wake-ups during a sleep, results of copies, allocations, register reads) is an argument; a sleep takes the list of what
  happens meanwhile.  Registers written and calls into the kernel are recorded in order.  Widths are kept where they matter:
  message ids, command words, masks, addresses and counters are words.

  \<^bold>\<open>Loops and bounds\<close>

  Every loop is a total function.  The counting loop of the ring is a \<open>partial_function\<close> and is shown to return.  The allocator
  takes one entry per sleep and times out when the list is used up, so it always returns; polling the mailbox is bounded by
  the constant of the code.  The loops of the two clients consume the results of their system calls, which are lists; a run that uses
  up its list is still running.

  \<^bold>\<open>What is shown\<close>

  For the ring: refinement of the queue.  For the pools: no item is handed out twice or lost.  For the transport: no frame
  lost, no oops whatever the card sends, nothing leaked on interruption, that the card decodes from its memory the request the driver built,
  and reads and writes from the call through the card and the interrupt back to the caller.  For the mailboxes: order of the register writes, result and read-back of an exchange.  For the
  ioctl: no two numbers coincide and each reaches its operation, whatever the packing of a number.  For the paths: at most one bridge
  path at a time, the client count and the backstop thread.  For the devices: what a successful probe has set up, and that the driver's table,
  its memory and the kernel's registrations agree in every reachable state.  For the mappings: no client reaches beyond a
  buffer, and a client's pointer to the mailboxes is the driver's.  For the bus protocol: codes and fields do not collide and are read
  back.  For the clients: agreement with the driver about the next buffer, complete and rotating files, one reply block per command, the end
  of polling, exit codes.  The theorems of kind error state where the code falls short: refused reads, failed copies, time-outs in the
  streaming loop, unloading out of order.

  \<^bold>\<open>Not modelled\<close>

  The texts of single debug messages, beyond the two functions that format data; power management, which is compiled out; macros of
  \<^verbatim>\<open>src/acq200.h\<close> that nothing expands; the wrapper of the interrupt routine for kernel 2.6.18; the kernel's own interfaces, which are
  arguments; the firmware of the card, which is an argument too; and the generated \<^verbatim>\<open>src/acq200_hostdrv.mod.c\<close>.  Spin locks guard single list
  operations and are not states of the model; memory order between card and host is not modelled.
\<close>

section \<open>Properties of the whole\<close>

text \<open>
  C5. A read from call to return.  The firmware is any function that answers a request with a command message under the id of the request and
  with at most the samples asked for.  A read with resources available then finds its way through the card's memory, the answer's frame,
  the interrupt, the ring and the bottom half back to its caller: it returns the bytes the firmware announced for exactly this request, never more than
  the caller asked for or the mapping holds, copied from the mapping named in the request; the answer's frame is back with the card, the ring is empty
  and list and pools are as before.
\<close>

theorem read_end_to_end:
  assumes "i2o_inv d" "paths d p = Some path" "pool_avail (handlers (pool d)) \<noteq> {}" "pool_avail (mappings (pool d)) \<noteq> {}"
    "mappings_nonempty d" "fresh_id d" "ring_queue NSTREAMBUF (streambuf d) = []" "iqp d = frame # rest" "frame \<noteq> PCI_I2O_INVALID_MFA"
    "mfa \<noteq> 0" "mfa \<noteq> 0xffffffff" "debug \<noteq> 7" "debug \<noteq> 8" "0 \<le> cnt"
    and fw: "\<And>h rs. mh_id (m_header (fw h rs)) = mh_id h" "\<And>h rs. MT_ID (mh_type (m_header (fw h rs))) = MT_COMMAND_PACKET"
    "\<And>h r. hrd_nsamples (m_hrdr0 (fw h [r])) \<le> hrd_nsamples r"
  shows "\<exists>k d'. let m = io_mappings (pool d) ! k;
      h = \<lparr>mh_id = next_id d, mh_length = 32, mh_type = MAKE_MT_COMMAND (mtc_val MTC_HOST_REQUEST_DATA_HOSTBOUND)\<rparr>;
      r = \<lparr>hrd_pci = ucast (MK_DMABUF_OFFSET m (dma_buf d)), hrd_start = word_of_int posp div 2,
         hrd_nsamples = word_of_int (min cnt (io_len m)) div 2, hrd_chan = CHAN path OR HRD_CHAN_IS_FILE, hrd_stride = 1\<rparr>;
      c = sint (hrd_nsamples (m_hrdr0 (fw h [r])) * 2) in
    acq200_bridge_read p cnt posp ws wm (answered_sleep fw scr ram hostram mfa debug s) d = Some (c, posp + c, [(PoolMap k, c)], d') \<and>
    c \<le> cnt \<and> c \<le> io_len m \<and> k \<in> pool_avail (mappings (pool d)) \<and>
    i2o_inv d' \<and> rch_list d' = rch_list d \<and> pool_avail (handlers (pool d')) = pool_avail (handlers (pool d)) \<and>
    pool_avail (mappings (pool d')) = pool_avail (mappings (pool d)) \<and>
    oqp d' = oqp d @ [mfa] \<and> ring_queue NSTREAMBUF (streambuf d') = []"
proof -
  obtain r k e where e: "r \<in> pool_avail (handlers (pool d))" "k \<in> pool_avail (mappings (pool d))"
    "\<And>sleep. acq200_bridge_read p cnt posp ws wm sleep d = finish_read posp r (sleep e)"
    "i2o_inv e" "rch_list e = rch_list d @ [r]" "r < length (rchs d)"
    "rchs e = (rchs d)[r := listed_rch d r HandleReadMessageFile p (Some (PoolMap k)) RCH_KB_POOL]"
    "pool_avail (handlers (pool e)) = pool_avail (handlers (pool d)) - {r}"
    "pool_avail (mappings (pool e)) = pool_avail (mappings (pool d)) - {k}" "streambuf e = streambuf d" "oqp e = oqp d"
    "sent e = sent d @ [(frame AND MFA_MASK, set_msg_id (next_id d) (scratch (raw_message False path
         (ucast (MK_DMABUF_OFFSET (io_mappings (pool d) ! k) (dma_buf d))) (word_of_int posp)
         (word_of_int (min cnt (io_len (io_mappings (pool d) ! k)))) HRD_CHAN_IS_FILE)))]"
    by (rule read_posts [OF assms(1-5), of cnt posp ws wm]) (rule that, (assumption | simp add: assms(8,9) raw_message_def)+)
  let ?m = "io_mappings (pool d) ! k"
  let ?h = "\<lparr>mh_id = next_id d, mh_length = 32, mh_type = MAKE_MT_COMMAND (mtc_val MTC_HOST_REQUEST_DATA_HOSTBOUND)\<rparr>"
  let ?r = "\<lparr>hrd_pci = ucast (MK_DMABUF_OFFSET ?m (dma_buf d)), hrd_start = word_of_int posp div 2,
         hrd_nsamples = word_of_int (min cnt (io_len ?m)) div 2, hrd_chan = CHAN path OR HRD_CHAN_IS_FILE, hrd_stride = 1\<rparr>"
  let ?c = "sint (hrd_nsamples (m_hrdr0 (fw ?h [?r])) * 2)"
  have nl: "r \<notin> set (rch_list d)" using linked_not_avail [of "pool d" "rchs d" "rch_list d"] assms(1) e(1) by (auto simp: i2o_inv_def)
  have reply: "card_reply fw scr ram e = fw ?h [?r]"
    by (simp only: card_reply_def e(12) Let_def last_snoc fst_conv request_in_frame if_False)
  have "0 < io_len ?m" using assms(5) e(2) pool_avail_subset [of "mappings (pool d)"] by (auto simp: mappings_nonempty_def)
  then have b: "hrd_nsamples (m_hrdr0 (fw ?h [?r])) \<noteq> 0xffffffff" "?c \<le> min cnt (io_len ?m)"
    using samples_bound [of "hrd_nsamples (m_hrdr0 (fw ?h [?r]))" "min cnt (io_len ?m)"] fw(3) [of ?h ?r] assms(14) by simp_all
  have id: "mh_id (m_header (fw ?h [?r])) = next_id d" using fw(1) by simp
  have rq: "ring_queue NSTREAMBUF (streambuf e) = []" using e(10) assms(7) by simp
  obtain e2 g where g: "i2o_inv e2" "ring_queue NSTREAMBUF (streambuf e2) = []" "rchs e2 = rchs e" "rch_list e2 = rch_list e"
    "pool e2 = pool e" "sent e2 = sent e" "oqp e2 = oqp e" "acq200_processCommandMessageReturn (fw ?h [?r]) e2 = Some g" "i2o_inv g"
    "keeps_io e2 g" "answered_sleep fw scr ram hostram mfa debug s e = i2o_return_message mfa g"
    by (rule sleep_processes [OF e(4) rq assms(10-13) reply fw(2), of hostram s]) (rule that; assumption)
  have l: "rch_list e2 = rch_list d @ [r]" "rchs e2 = (rchs d)[r := listed_rch d r HandleReadMessageFile p (Some (PoolMap k)) RCH_KB_POOL]"
    using g(3,4) e(5,7) by simp_all
  have "g = replied r p (fw ?h [?r]) e2" using reply_delivered [OF assms(6) g(1) l(1) e(6) nl l(2) id b(1)] g(8) by simp
  then have f: "i2o_inv (i2o_return_message mfa g)" "rch_list (i2o_return_message mfa g) = rch_list e" "pool (i2o_return_message mfa g) = pool e"
    "rchs (i2o_return_message mfa g) = rchs (replied r p (fw ?h [?r]) e)"
    using g(3-5,9) by (simp_all add: replied_def wake_up_def rch_update_def i2o_return_message_def acq200_dev_i2o_return_mfa_def i2o_inv_def)
  obtain d' where d': "finish_read posp r (i2o_return_message mfa g) = Some (?c, posp + ?c, [(PoolMap k, ?c)], d')" "i2o_inv d'"
    "keeps_io (i2o_return_message mfa g) d'" "rch_list d' = rch_list d" "pool_avail (handlers (pool d')) = pool_avail (handlers (pool d))"
    "pool_avail (mappings (pool d')) = pool_avail (mappings (pool d))"
    by (rule read_answered [OF e(1,6) nl e(2,5,7,8,9) f, of posp]) (rule that; assumption)
  have "oqp d' = oqp d @ [mfa]" "ring_queue NSTREAMBUF (streambuf d') = []"
    using d'(3) g(2,7,10) e(11) by (simp_all add: keeps_io_def)
  then show ?thesis
    using e(2,3) g(11) d'(1,2,4-6) b(2) by (intro exI [of _ k] exI [of _ d']) (simp only: Let_def min.bounded_iff simp_thms)
qed

theorem read_end_to_end_witness:
  "\<exists>k d'. acq200_bridge_read 0 4096 0 [] [] (answered_sleep half_firmware [] (\<lambda>_. 7) (\<lambda>_. 0) 0x4000 0 example_isr) example_dev =
      Some (2048, 2048, [(PoolMap k, 2048)], d') \<and>
    i2o_inv d' \<and> rch_list d' = [] \<and> oqp d' = [0x4000] \<and> pool_avail (mappings (pool d')) = {0, 1, 2}"
proof -
  note f = example_pool_facts
  have q: "iqp example_dev = 0x100 # [0x500]" "(0x100 :: u32) \<noteq> PCI_I2O_INVALID_MFA" "rch_list example_dev = []" "oqp example_dev = []"
    by (simp_all add: example_dev_def PCI_I2O_INVALID_MFA_def)
  have ne: "pool_avail (handlers (pool example_dev)) \<noteq> {}" "pool_avail (mappings (pool example_dev)) \<noteq> {}" by (simp_all add: f)
  have "\<exists>k d'. let m = io_mappings (pool example_dev) ! k;
      h = \<lparr>mh_id = next_id example_dev, mh_length = 32, mh_type = MAKE_MT_COMMAND (mtc_val MTC_HOST_REQUEST_DATA_HOSTBOUND)\<rparr>;
      r = \<lparr>hrd_pci = ucast (MK_DMABUF_OFFSET m (dma_buf example_dev)), hrd_start = word_of_int 0 div 2,
         hrd_nsamples = word_of_int (min 4096 (io_len m)) div 2, hrd_chan = CHAN example_path OR HRD_CHAN_IS_FILE, hrd_stride = 1\<rparr>;
      c = sint (hrd_nsamples (m_hrdr0 (half_firmware h [r])) * 2) in
    acq200_bridge_read 0 4096 0 [] [] (answered_sleep half_firmware [] (\<lambda>_. 7) (\<lambda>_. 0) 0x4000 0 example_isr) example_dev =
      Some (c, 0 + c, [(PoolMap k, c)], d') \<and>
    c \<le> 4096 \<and> c \<le> io_len m \<and> k \<in> pool_avail (mappings (pool example_dev)) \<and>
    i2o_inv d' \<and> rch_list d' = rch_list example_dev \<and> pool_avail (handlers (pool d')) = pool_avail (handlers (pool example_dev)) \<and>
    pool_avail (mappings (pool d')) = pool_avail (mappings (pool example_dev)) \<and>
    oqp d' = oqp example_dev @ [0x4000] \<and> ring_queue NSTREAMBUF (streambuf d') = []"
    by (rule read_end_to_end [OF example_dev_inv(1) f(5) ne f(3,4) example_dev_inv(2) q(1,2)])
      (simp_all add: half_firmware_ok)
  then show ?thesis
    using example_mapping_len by (auto simp: Let_def f q half_firmware_def)
qed

text \<open>
  C6. A write from call to the release of its buffer.  The write returns the clipped count at once, copied into the mapping it reserved; the card
  finds one request for that mapping in its memory, marked as going to the card; and when its answer, any command message under the id of the request, has
  come back through the frame, the interrupt, the ring and the bottom half, the answer's frame is with the card again, the ring is empty and list and
  pools are as before the write.
\<close>

theorem write_end_to_end:
  assumes "i2o_inv d" "paths d p = Some path" "pool_avail (handlers (pool d)) \<noteq> {}" "pool_avail (mappings (pool d)) \<noteq> {}"
    "mappings_nonempty d" "fresh_id d" "ring_queue NSTREAMBUF (streambuf d) = []" "iqp d = frame # rest" "frame \<noteq> PCI_I2O_INVALID_MFA"
    "mfa \<noteq> 0" "mfa \<noteq> 0xffffffff" "debug \<noteq> 7" "debug \<noteq> 8" "0 < cnt"
    and fw: "\<And>h rs. mh_id (m_header (fw h rs)) = mh_id h" "\<And>h rs. MT_ID (mh_type (m_header (fw h rs))) = MT_COMMAND_PACKET"
  shows "\<exists>k d1. let m = io_mappings (pool d) ! k; c = min cnt (io_len m); d2 = answered_sleep fw scr ram hostram mfa debug s d1;
      ram' = send_all scr (sent d1) ram; a = unat (frame AND MFA_MASK) in
    acq200_bridge_write p cnt posp ws wm d = Some (c, posp + c, [(PoolMap k, c)], d1) \<and> k \<in> pool_avail (mappings (pool d)) \<and>
    mh_type (frame_header ram' a) = MAKE_MT_COMMAND (mtc_val MTC_HOST_REQUEST_DATA_ACQBOUND) \<and>
    frame_records ram' a = [\<lparr>hrd_pci = ucast (MK_DMABUF_OFFSET m (dma_buf d)), hrd_start = word_of_int posp div 2,
         hrd_nsamples = word_of_int c div 2, hrd_chan = CHAN path OR HRD_CHAN_IS_FILE, hrd_stride = 1\<rparr>] \<and>
    i2o_inv d2 \<and> rch_list d2 = rch_list d \<and> pool_avail (handlers (pool d2)) = pool_avail (handlers (pool d)) \<and>
    pool_avail (mappings (pool d2)) = pool_avail (mappings (pool d)) \<and> oqp d2 = oqp d @ [mfa] \<and> ring_queue NSTREAMBUF (streambuf d2) = []"
proof -
  obtain r k e where e: "r \<in> pool_avail (handlers (pool d))" "k \<in> pool_avail (mappings (pool d))"
    "acq200_bridge_write p cnt posp ws wm d = (let c = min cnt (io_len (io_mappings (pool d) ! k)) in
       Some (c, posp + c, [(PoolMap k, c)], e))"
    "i2o_inv e" "rch_list e = rch_list d @ [r]" "r < length (rchs d)"
    "rchs e = (rchs d)[r := listed_rch d r RecycleRchWrapper p (Some (PoolMap k)) RCH_KB_POOL]"
    "pool_avail (handlers (pool e)) = pool_avail (handlers (pool d)) - {r}"
    "pool_avail (mappings (pool e)) = pool_avail (mappings (pool d)) - {k}" "streambuf e = streambuf d" "oqp e = oqp d"
    "sent e = sent d @ [(frame AND MFA_MASK, set_msg_id (next_id d) (scratch (raw_message True path
         (ucast (MK_DMABUF_OFFSET (io_mappings (pool d) ! k) (dma_buf d))) (word_of_int posp)
         (word_of_int (min cnt (io_len (io_mappings (pool d) ! k)))) HRD_CHAN_IS_FILE)))]"
    by (rule write_posts [OF assms(1-5,14), of posp ws wm]) (rule that, (assumption | simp add: assms(8,9) raw_message_def)+)
  let ?reply = "card_reply fw scr ram e"
  have nl: "r \<notin> set (rch_list d)" using linked_not_avail [of "pool d" "rchs d" "rch_list d"] assms(1) e(1) by (auto simp: i2o_inv_def)
  have reply: "MT_ID (mh_type (m_header ?reply)) = MT_COMMAND_PACKET" "mh_id (m_header ?reply) = next_id d"
    by (simp_all only: card_reply_def fw e(12) Let_def last_snoc fst_conv request_in_frame MESSAGE_HEADER.select_convs)
  have rq: "ring_queue NSTREAMBUF (streambuf e) = []" using e(10) assms(7) by simp
  obtain e2 g where g: "i2o_inv e2" "ring_queue NSTREAMBUF (streambuf e2) = []" "rchs e2 = rchs e" "rch_list e2 = rch_list e"
    "pool e2 = pool e" "sent e2 = sent e" "oqp e2 = oqp e" "acq200_processCommandMessageReturn ?reply e2 = Some g" "i2o_inv g"
    "keeps_io e2 g" "answered_sleep fw scr ram hostram mfa debug s e = i2o_return_message mfa g"
    by (rule sleep_processes [OF e(4) rq assms(10-13) refl reply(1), of hostram s]) (rule that; assumption)
  obtain d2 where d2: "acq200_processCommandMessageReturn ?reply e2 = Some d2" "rch_list d2 = rch_list d"
    "pool_avail (handlers (pool d2)) = pool_avail (handlers (pool d))" "pool_avail (mappings (pool d2)) = pool_avail (mappings (pool d))"
    by (rule write_reply_recycles [OF assms(6) e(1,2,6) nl g(1) _ _ _ _ reply(2)]) (use g(3-5) e(5,7-9) in simp_all)
  with g(8) have "g = d2" by simp
  then have d': "i2o_inv (i2o_return_message mfa g)" "rch_list (i2o_return_message mfa g) = rch_list d"
    "pool_avail (handlers (pool (i2o_return_message mfa g))) = pool_avail (handlers (pool d))"
    "pool_avail (mappings (pool (i2o_return_message mfa g))) = pool_avail (mappings (pool d))"
    "oqp (i2o_return_message mfa g) = oqp d @ [mfa]" "ring_queue NSTREAMBUF (streambuf (i2o_return_message mfa g)) = []"
    using g(2,7,9,10) e(11) d2(2-4) by (simp_all add: i2o_return_message_def acq200_dev_i2o_return_mfa_def i2o_inv_def keeps_io_def)
  show ?thesis
    by (intro exI [of _ k] exI [of _ e])
      (simp only: Let_def e(2,3) g(11) d' e(12) request_in_frame MESSAGE_HEADER.select_convs if_True simp_thms)
qed

theorem write_end_to_end_witness:
  "\<exists>k d1. acq200_bridge_write 0 4096 512 [] [] example_dev = Some (4096, 4608, [(PoolMap k, 4096)], d1) \<and>
     oqp (answered_sleep half_firmware [] (\<lambda>_. 7) (\<lambda>_. 0) 0x4000 0 example_isr d1) = [0x4000] \<and>
     pool_avail (mappings (pool (answered_sleep half_firmware [] (\<lambda>_. 7) (\<lambda>_. 0) 0x4000 0 example_isr d1))) = {0, 1, 2}"
proof -
  note f = example_pool_facts
  have q: "iqp example_dev = 0x100 # [0x500]" "(0x100 :: u32) \<noteq> PCI_I2O_INVALID_MFA" "oqp example_dev = []"
    by (simp_all add: example_dev_def PCI_I2O_INVALID_MFA_def)
  have ne: "pool_avail (handlers (pool example_dev)) \<noteq> {}" "pool_avail (mappings (pool example_dev)) \<noteq> {}" by (simp_all add: f)
  note t = write_end_to_end [where fw = half_firmware and mfa = "0x4000" and debug = 0 and cnt = 4096 and scr = "[]" and ram = "\<lambda>_. 7" and
      hostram = "\<lambda>_. 0" and s = example_isr and posp = 512 and ws = "[]" and wm = "[]",
      OF example_dev_inv(1) f(5) ne f(3,4) example_dev_inv(2) q(1,2) _ _ _ _ _ half_firmware_ok(1,2), simplified Let_def f(2) q(3)]
  from t obtain k d1 where
    "acq200_bridge_write 0 4096 512 [] [] example_dev =
       Some (min 4096 (io_len (io_mappings (pool example_dev) ! k)), 512 + min 4096 (io_len (io_mappings (pool example_dev) ! k)),
         [(PoolMap k, min 4096 (io_len (io_mappings (pool example_dev) ! k)))], d1)"
    "k \<in> {0, 1, 2}" "oqp (answered_sleep half_firmware [] (\<lambda>_. 7) (\<lambda>_. 0) 0x4000 0 example_isr d1) = [0x4000]"
    "pool_avail (mappings (pool (answered_sleep half_firmware [] (\<lambda>_. 7) (\<lambda>_. 0) 0x4000 0 example_isr d1))) = {0, 1, 2}"
    by auto
  then show ?thesis using example_mapping_len [of k] by auto
qed

end
